(* ===== verification/Go_Prelude.thy ===== *)
theory Go_Prelude
  imports
    Main
    "HOL-Library.Word"
    "HOL-Library.Char_ord"
    "HOL-Library.List_Lexorder"
    "HOL-Library.Product_Lexorder"
    "HOL-Library.Sublist" "HOL-Library.Code_Target_Nat"
begin

text \<open>
  The part of Go that the components share: byte strings and the functions of the packages
  \<open>strings\<close>, \<open>strconv\<close> and \<open>sort\<close> that the sources call, instants of time, and the lemmas
  about them that the component theories use.

  A Go string is a sequence of bytes and so is a HOL \<^typ>\<open>string\<close> (a list of 8-bit characters):
  \<open>len\<close> is \<^const>\<open>length\<close>, \<open>s[:n]\<close> is \<^const>\<open>take\<close>, \<open>s[n:]\<close> is \<^const>\<open>drop\<close>, \<open>strings.HasPrefix\<close> is
  \<^const>\<open>prefix\<close>, \<open>strings.HasSuffix\<close> is \<^const>\<open>suffix\<close>, \<open>strings.Contains\<close> is \<^const>\<open>sublist\<close>, and \<open><\<close>
  is the lexicographic order on bytes of \<open>List_Lexorder\<close> and \<open>Char_ord\<close>.
  A \<open>time.Time\<close> is the number of nanoseconds since Go's zero time, so that \<open>IsZero\<close> is \<open>t = 0\<close>;
  all instants are in UTC.
\<close>

named_theorems go_defs \<open>definitions of the modelled Go library functions\<close>

text \<open>An error is its message; the text that \<open>%w\<close> and \<open>%v\<close> add is left out.\<close>

datatype error = Errorf string

type_synonym time = int

definition second :: time where
  "second = 1000000000"

definition millisecond :: time where
  "millisecond = 1000000"

text \<open>\<open>t.Truncate(d)\<close> rounds down to a multiple of \<open>d\<close> since the zero time.\<close>

definition truncate_time :: "time \<Rightarrow> time \<Rightarrow> time" where
  "truncate_time d t = t - t mod d"

section \<open>Byte strings\<close>

text \<open>
  \<open>strings.TrimSpace\<close> removes Unicode white space at both ends. The list below holds the UTF-8
  encodings of exactly the code points for which \<open>unicode.IsSpace\<close> holds.
\<close>

definition ws_runes :: "string list" where
  "ws_runes =
     [[CHR 0x20], [CHR 0x09], [CHR 0x0A], [CHR 0x0B], [CHR 0x0C], [CHR 0x0D],
      [CHR 0xC2, CHR 0x85], [CHR 0xC2, CHR 0xA0],
      [CHR 0xE1, CHR 0x9A, CHR 0x80],
      [CHR 0xE2, CHR 0x80, CHR 0x80], [CHR 0xE2, CHR 0x80, CHR 0x81],
      [CHR 0xE2, CHR 0x80, CHR 0x82], [CHR 0xE2, CHR 0x80, CHR 0x83],
      [CHR 0xE2, CHR 0x80, CHR 0x84], [CHR 0xE2, CHR 0x80, CHR 0x85],
      [CHR 0xE2, CHR 0x80, CHR 0x86], [CHR 0xE2, CHR 0x80, CHR 0x87],
      [CHR 0xE2, CHR 0x80, CHR 0x88], [CHR 0xE2, CHR 0x80, CHR 0x89],
      [CHR 0xE2, CHR 0x80, CHR 0x8A], [CHR 0xE2, CHR 0x80, CHR 0xA8],
      [CHR 0xE2, CHR 0x80, CHR 0xA9], [CHR 0xE2, CHR 0x80, CHR 0xAF],
      [CHR 0xE2, CHR 0x81, CHR 0x9F], [CHR 0xE3, CHR 0x80, CHR 0x80]]"

text \<open>Removes from the front of \<open>s\<close>, as long as possible, the words of \<open>ps\<close>.\<close>

fun strip_front :: "string list \<Rightarrow> string \<Rightarrow> string" where
  "strip_front ps [] = []"
| "strip_front ps (c # s) =
     (case find (\<lambda>p. p \<noteq> [] \<and> prefix p (c # s)) ps of
        None \<Rightarrow> c # s
      | Some p \<Rightarrow> strip_front ps (drop (length p - 1) s))"

definition trim_left :: "string \<Rightarrow> string" where
  "trim_left s = strip_front ws_runes s"

definition trim_right :: "string \<Rightarrow> string" where
  "trim_right s = rev (strip_front (map rev ws_runes) (rev s))"

definition trim_space :: "string \<Rightarrow> string" where
  "trim_space s = trim_right (trim_left s)"

text \<open>\<open>strings.Trim(s, cutset)\<close>, \<open>strings.TrimPrefix\<close> and \<open>strings.TrimSuffix\<close>.\<close>

definition trim_set :: "char list \<Rightarrow> string \<Rightarrow> string" where
  "trim_set cs s = rev (dropWhile (\<lambda>c. c \<in> set cs) (rev (dropWhile (\<lambda>c. c \<in> set cs) s)))"

definition trim_right_set :: "char list \<Rightarrow> string \<Rightarrow> string" where
  "trim_right_set cs s = rev (dropWhile (\<lambda>c. c \<in> set cs) (rev s))"

definition trim_prefix :: "string \<Rightarrow> string \<Rightarrow> string" where
  "trim_prefix p s = (if prefix p s then drop (length p) s else s)"

definition trim_suffix :: "string \<Rightarrow> string \<Rightarrow> string" where
  "trim_suffix p s = (if suffix p s then take (length s - length p) s else s)"

text \<open>
  The idiom \<open>if i := strings.IndexByte(s, c); i >= 0 { s = s[:i] }\<close>, and \<open>strings.Cut(s, c)\<close>:
  the parts before and after the first \<open>c\<close>.
\<close>

definition before :: "char \<Rightarrow> string \<Rightarrow> string" where
  "before c s = takeWhile (\<lambda>x. x \<noteq> c) s"

definition cut :: "char \<Rightarrow> string \<Rightarrow> (string \<times> string) option" where
  "cut c s = (case dropWhile (\<lambda>x. x \<noteq> c) s of [] \<Rightarrow> None | _ # r \<Rightarrow> Some (takeWhile (\<lambda>x. x \<noteq> c) s, r))"

text \<open>\<open>strings.Split(s, c)\<close> for a one-byte separator, and \<open>strings.Join\<close>.\<close>

fun split_on :: "char \<Rightarrow> string \<Rightarrow> string list" where
  "split_on c [] = [[]]"
| "split_on c (x # xs) =
     (if x = c then [] # split_on c xs
      else (case split_on c xs of [] \<Rightarrow> [[x]] | y # ys \<Rightarrow> (x # y) # ys))"

fun join :: "string \<Rightarrow> string list \<Rightarrow> string" where
  "join sep [] = []"
| "join sep [x] = x"
| "join sep (x # y # ys) = x @ sep @ join sep (y # ys)"

text \<open>\<open>strings.ContainsAny(s, chars)\<close> for ASCII \<open>chars\<close>.\<close>

definition contains_any :: "char list \<Rightarrow> string \<Rightarrow> bool" where
  "contains_any cs s = list_ex (\<lambda>c. c \<in> set cs) s"

definition replace_char :: "char \<Rightarrow> char \<Rightarrow> string \<Rightarrow> string" where
  "replace_char a b s = map (\<lambda>c. if c = a then b else c) s"

text \<open>\<open>strings.ReplaceAll(s, old, new)\<close> for a nonempty \<open>old\<close>.\<close>

fun replace_all :: "string \<Rightarrow> string \<Rightarrow> string \<Rightarrow> string" where
  "replace_all old new [] = []"
| "replace_all old new (c # s) =
     (if old \<noteq> [] \<and> prefix old (c # s) then new @ replace_all old new (drop (length old - 1) s)
      else c # replace_all old new s)"

text \<open>
  \<open>strings.ToLower\<close> and \<open>strings.ToUpper\<close>. ASCII letters are mapped byte by byte. Among all other
  code points only U+0130 and U+212A have an ASCII lower case (i and k), and only U+0131 and U+017F an
  ASCII upper case (I and S); these are mapped too. Any other byte is left as it is: such a byte
  never takes part in a comparison with the ASCII constants of the sources. \<open>strings.EqualFold\<close>
  is equality after folding ASCII letters, U+212A and U+017F.
\<close>

definition is_upper :: "char \<Rightarrow> bool" where
  "is_upper c = (of_char c \<ge> (65::nat) \<and> of_char c \<le> (90::nat))"

definition is_lower :: "char \<Rightarrow> bool" where
  "is_lower c = (of_char c \<ge> (97::nat) \<and> of_char c \<le> (122::nat))"

definition lower_char :: "char \<Rightarrow> char" where
  "lower_char c = (if is_upper c then char_of (of_char c + 32 :: nat) else c)"

definition upper_char :: "char \<Rightarrow> char" where
  "upper_char c = (if is_lower c then char_of (of_char c - 32 :: nat) else c)"

text \<open>Maps each byte, except that the words of \<open>sp\<close> are replaced as a whole.\<close>

fun map_runes :: "(string \<times> char) list \<Rightarrow> (char \<Rightarrow> char) \<Rightarrow> string \<Rightarrow> string" where
  "map_runes sp f [] = []"
| "map_runes sp f (c # s) =
     (case find (\<lambda>(p, d). p \<noteq> [] \<and> prefix p (c # s)) sp of
        None \<Rightarrow> f c # map_runes sp f s
      | Some (p, d) \<Rightarrow> d # map_runes sp f (drop (length p - 1) s))"

definition to_lower :: "string \<Rightarrow> string" where
  "to_lower = map_runes [([CHR 0xC4, CHR 0xB0], CHR ''i''), ([CHR 0xE2, CHR 0x84, CHR 0xAA], CHR ''k'')] lower_char"

definition to_upper :: "string \<Rightarrow> string" where
  "to_upper = map_runes [([CHR 0xC4, CHR 0xB1], CHR ''I''), ([CHR 0xC5, CHR 0xBF], CHR ''S'')] upper_char"

definition equal_fold :: "string \<Rightarrow> string \<Rightarrow> bool" where
  "equal_fold s t =
     (let fold = map_runes [([CHR 0xE2, CHR 0x84, CHR 0xAA], CHR ''k''), ([CHR 0xC5, CHR 0xBF], CHR ''s'')] lower_char
      in fold s = fold t)"

text \<open>\<open>strconv.Itoa\<close>.\<close>

definition digit_char :: "nat \<Rightarrow> char" where
  "digit_char n = char_of (48 + n)"

fun nat_str :: "nat \<Rightarrow> string" where
  "nat_str n = (if n < 10 then [digit_char n] else nat_str (n div 10) @ [digit_char (n mod 10)])"

declare nat_str.simps [simp del]

definition itoa :: "int \<Rightarrow> string" where
  "itoa n = (if n < 0 then CHR ''-'' # nat_str (nat (- n)) else nat_str (nat n))"

text \<open>A byte of the ranges \<open>'0'..'9'\<close> and \<open>'a'..'f'\<close>.\<close>

definition is_digit :: "char \<Rightarrow> bool" where
  "is_digit c = (of_char c \<ge> (48::nat) \<and> of_char c \<le> (57::nat))"

definition is_hex :: "char \<Rightarrow> bool" where
  "is_hex c = (is_digit c \<or> (of_char c \<ge> (97::nat) \<and> of_char c \<le> (102::nat)))"

definition hex_digit :: "nat \<Rightarrow> char" where
  "hex_digit n = (if n < 10 then char_of (48 + n) else char_of (87 + n))"

text \<open>\<open>append(xs, x)\<close> unless \<open>x\<close> is there: the sources keep a \<open>seen\<close> map beside the slice.\<close>

definition add_new :: "'a \<Rightarrow> 'a list \<Rightarrow> 'a list" where
  "add_new x xs = (if x \<in> set xs then xs else xs @ [x])"

definition dedup :: "'a list \<Rightarrow> 'a list" where
  "dedup xs = fold add_new xs []"

section \<open>Lemmas on byte strings\<close>

lemmas [go_defs] = before_def cut_def trim_space_def trim_prefix_def trim_suffix_def contains_any_def
  second_def millisecond_def

lemma length_strip_front [simp]: "length (strip_front ps s) \<le> length s"
proof (induction ps s rule: strip_front.induct)
  case (2 ps c s)
  show ?case
  proof (cases "find (\<lambda>p. p \<noteq> [] \<and> prefix p (c # s)) ps")
    case (Some p)
    from "2.IH" [OF Some] have "length (strip_front ps (drop (length p - 1) s)) \<le> length s"
      by simp
    with Some show ?thesis by simp
  qed simp
qed simp

lemma strip_front_suffix: "\<exists>pre. s = pre @ strip_front ps s"
proof (induction ps s rule: strip_front.induct)
  case (2 ps c s)
  show ?case
  proof (cases "find (\<lambda>p. p \<noteq> [] \<and> prefix p (c # s)) ps")
    case (Some p)
    from "2.IH" [OF Some] obtain pre
      where "drop (length p - 1) s = pre @ strip_front ps (drop (length p - 1) s)" by blast
    then have "s = take (length p - 1) s @ pre @ strip_front ps (drop (length p - 1) s)"
      by (metis append_take_drop_id)
    with Some have "c # s = (c # take (length p - 1) s @ pre) @ strip_front ps (c # s)"
      by simp
    then show ?thesis by blast
  qed simp
qed simp

lemma set_strip_front: "set (strip_front ps s) \<subseteq> set s"
  using strip_front_suffix [of s ps] by (metis set_append sup_ge2)

text \<open>The result starts with none of the words.\<close>

lemma strip_front_stop:
  "p \<in> set ps \<Longrightarrow> p \<noteq> [] \<Longrightarrow> \<not> prefix p (strip_front ps s)"
proof (induction ps s rule: strip_front.induct)
  case (1 ps)
  then show ?case by simp
next
  case (2 ps c s)
  show ?case
  proof (cases "find (\<lambda>p. p \<noteq> [] \<and> prefix p (c # s)) ps")
    case None
    with "2.prems" have "\<not> prefix p (c # s)" by (auto simp: find_None_iff)
    with None show ?thesis by simp
  next
    case (Some q)
    with "2.IH" [OF Some] "2.prems" show ?thesis by simp
  qed
qed

lemma strip_front_id:
  assumes "\<And>p. p \<in> set ps \<Longrightarrow> p \<noteq> [] \<Longrightarrow> \<not> prefix p s"
  shows "strip_front ps s = s"
proof (cases s)
  case (Cons c t)
  with assms have "find (\<lambda>p. p \<noteq> [] \<and> prefix p (c # t)) ps = None"
    by (auto simp: find_None_iff)
  with Cons show ?thesis by simp
qed simp

lemma strip_front_idem [simp]: "strip_front ps (strip_front ps s) = strip_front ps s"
  by (rule strip_front_id) (rule strip_front_stop)

lemma trim_left_suffix: "\<exists>pre. s = pre @ trim_left s"
  by (simp add: trim_left_def strip_front_suffix)

lemma trim_right_prefix: "\<exists>post. s = trim_right s @ post"
proof -
  obtain pre where "rev s = pre @ strip_front (map rev ws_runes) (rev s)"
    using strip_front_suffix by blast
  then have "s = rev (strip_front (map rev ws_runes) (rev s)) @ rev pre"
    by (metis rev_append rev_rev_ident)
  then show ?thesis unfolding trim_right_def by blast
qed

lemma trim_space_sublist: "sublist (trim_space s) s"
proof -
  obtain pre where pre: "s = pre @ trim_left s" using trim_left_suffix by blast
  obtain post where "trim_left s = trim_space s @ post"
    using trim_right_prefix unfolding trim_space_def by blast
  with pre have "s = pre @ trim_space s @ post" by metis
  then show ?thesis unfolding sublist_def by blast
qed

lemma set_trim_space: "set (trim_space s) \<subseteq> set s"
  using trim_space_sublist by (rule set_mono_sublist)

lemma length_trim_space [simp]: "length (trim_space s) \<le> length s"
  using trim_space_sublist by (rule sublist_length_le)

lemma trim_left_stop: "w \<in> set ws_runes \<Longrightarrow> \<not> prefix w (trim_left s)"
  unfolding trim_left_def by (rule strip_front_stop) (auto simp: ws_runes_def)

lemma set_dedup [simp]: "set (dedup xs) = set xs"
proof -
  have "set (fold add_new xs acc) = set acc \<union> set xs" for acc
    by (induction xs arbitrary: acc) (auto simp: add_new_def)
  then show ?thesis by (simp add: dedup_def)
qed

lemma distinct_dedup [simp]: "distinct (dedup xs)"
  unfolding dedup_def
  by (rule fold_invariant [where Q = "\<lambda>_. True"]) (auto simp: add_new_def)

lemma distinct_count_list: "distinct xs \<longleftrightarrow> (\<forall>x. count_list xs x \<le> 1)"
  by (induction xs) (auto simp: count_list_0_iff le_Suc_eq split: if_splits)

lemma trim_space_id:
  assumes "list_all (\<lambda>c. of_char c > (32::nat) \<and> of_char c < (128::nat)) s"
  shows "trim_space s = s"
proof -
  have "\<not> prefix w s" if "w \<in> set ws_runes" for w
    using that assms by (cases s) (auto simp: ws_runes_def)
  moreover have "\<not> prefix (rev w) (rev s)" if "w \<in> set ws_runes" for w
    using that assms by (cases s rule: rev_cases) (auto simp: ws_runes_def)
  then have "strip_front (map rev ws_runes) (rev s) = rev s"
    by (intro strip_front_id) auto
  ultimately show ?thesis
    by (simp add: trim_space_def trim_left_def trim_right_def strip_front_id)
qed

text \<open>Splitting and joining are inverse operations.\<close>

lemma split_on_nonempty [simp]: "split_on c s \<noteq> []"
  by (induction s) (auto split: list.splits)

lemma join_split_on: "join [c] (split_on c s) = s"
proof (induction s)
  case (Cons x xs)
  obtain y ys where y: "split_on c xs = y # ys" by (meson split_on_nonempty neq_Nil_conv)
  with Cons show ?case by (cases ys) auto
qed simp

lemma split_on_no_sep: "c \<notin> set s \<Longrightarrow> split_on c s = [s]"
  by (induction s) auto

lemma split_on_append_sep:
  "c \<notin> set x \<Longrightarrow> split_on c (x @ c # s) = x # split_on c s"
  by (induction x) auto

lemma split_on_join:
  "xs \<noteq> [] \<Longrightarrow> \<forall>x \<in> set xs. c \<notin> set x \<Longrightarrow> split_on c (join [c] xs) = xs"
  by (induction "[c]" xs rule: join.induct) (auto simp: split_on_no_sep split_on_append_sep)

lemma split_on_segments: "x \<in> set (split_on c s) \<Longrightarrow> c \<notin> set x"
proof (induction s arbitrary: x)
  case (Cons a s)
  obtain y ys where y: "split_on c s = y # ys" by (meson split_on_nonempty neq_Nil_conv)
  with Cons show ?case by (auto split: if_splits)
qed simp

lemma set_map_filter: "set (List.map_filter f xs) = {y. \<exists>x \<in> set xs. f x = Some y}"
  by (induction xs) (auto simp: List.map_filter_simps split: option.splits)

lemma trim_space_Nil [simp]: "trim_space [] = []"
  by (simp add: trim_space_def trim_left_def trim_right_def)

lemma to_lower_hex: "list_all is_hex s \<Longrightarrow> to_lower s = s"
proof -
  have "is_hex c \<Longrightarrow> lower_char c = c \<and> c \<noteq> CHR 0xC4 \<and> c \<noteq> CHR 0xE2" for c
    by (auto simp: is_hex_def is_digit_def lower_char_def is_upper_def)
  then show "list_all is_hex s \<Longrightarrow> to_lower s = s"
    unfolding to_lower_def by (induction s) auto
qed

lemma trim_space_hex: "list_all is_hex s \<Longrightarrow> trim_space s = s"
  by (intro trim_space_id) (auto simp: list_all_iff is_hex_def is_digit_def)

end
