(* ===== verification/Ingest.thy ===== *)
theory Ingest
  imports Go_Prelude
begin

text \<open>
  The span store, \<open>internal/ingest\<close>: the span record (\<open>span.go\<close>), the recent-trace window
  (\<open>window.go\<close>), the attach list (\<open>attach.go\<close>) and the in-process store (\<open>memory.go\<close>). The lemmas
  give the window loop its declarative reading (the newest eligible traces, cut at the span cap)
  and show that the store keeps one span per key, in insertion order.
\<close>

record span =
  sp_trace_id :: string
  sp_span_id :: string
  sp_parent_span_id :: string
  sp_service_name :: string
  sp_name :: string
  sp_kind :: string
  sp_status_code :: string
  sp_http_method :: string
  sp_http_route :: string
  sp_http_status :: int
  sp_code_function :: string
  sp_code_file :: string
  sp_start_time :: time
  sp_duration_ns :: int

record list_query =
  lq_trace_id :: string
  lq_service :: string
  lq_limit :: int

definition maxWindowSpans :: nat where
  "maxWindowSpans = 10000"

definition maxServiceName :: nat where
  "maxServiceName = 128"

definition normalizeLimit :: "int \<Rightarrow> nat" where
  "normalizeLimit n = (if n \<le> 0 then 50 else if n > 200 then 200 else nat n)"

definition normalizeTraceWindow :: "int \<Rightarrow> nat" where
  "normalizeTraceWindow n = (if n \<le> 0 then 50 else if n > 200 then 200 else nat n)"

section \<open>The trace window\<close>

record trace_info =
  ti_id :: string
  ti_last :: time
  ti_spans :: "span list"

definition probeRoute :: "span \<Rightarrow> bool" where
  "probeRoute s =
     (let route = to_lower (trim_space (sp_http_route s)); name = to_lower (trim_space (sp_name s))
      in route \<in> {''/healthz'', ''/livez'', ''/readyz'', ''/health''} \<or>
         name \<in> {''get /healthz'', ''head /healthz'', ''/healthz'', ''get /readyz'', ''get /livez''})"

definition probeOnly :: "span list \<Rightarrow> bool" where
  "probeOnly spans = list_all probeRoute spans"

text \<open>
  One iteration of the loop of \<open>groupTraces\<close> over the spans. The Go map from trace ids to
  \<open>traceInfo\<close> is the association list of its entries, in the order of their creation; the final
  sort makes that order irrelevant, because trace ids are distinct.
\<close>

fun addTrace :: "span \<Rightarrow> trace_info list \<Rightarrow> trace_info list" where
  "addTrace s [] = [\<lparr>ti_id = sp_trace_id s, ti_last = sp_start_time s, ti_spans = [s]\<rparr>]"
| "addTrace s (t # ts) =
     (if ti_id t = sp_trace_id s
      then t\<lparr>ti_spans := ti_spans t @ [s],
             ti_last := (if sp_start_time s > ti_last t then sp_start_time s else ti_last t)\<rparr> # ts
      else t # addTrace s ts)"

definition collectTraces :: "span list \<Rightarrow> trace_info list" where
  "collectTraces spans = fold (\<lambda>s ts. if sp_trace_id s = [] then ts else addTrace s ts) spans []"

definition groupTraces :: "span list \<Rightarrow> trace_info list" where
  "groupTraces spans = rev (sort_key (\<lambda>t. (ti_last t, ti_id t)) (collectTraces spans))"

definition sortTraceSpans :: "span list \<Rightarrow> span list" where
  "sortTraceSpans spans = sort_key (\<lambda>s. (sp_start_time s, sp_span_id s)) spans"

definition traceTouches :: "span list \<Rightarrow> string \<Rightarrow> bool" where
  "traceTouches spans service = (service = [] \<or> list_ex (\<lambda>s. sp_service_name s = service) spans)"

definition ClipService :: "string \<Rightarrow> string" where
  "ClipService s = (let t = trim_space s in if length t > maxServiceName then take maxServiceName t else t)"

definition UniqueServices :: "span list \<Rightarrow> string list" where
  "UniqueServices spans = sort (remdups (filter (\<lambda>n. n \<noteq> []) (map (\<lambda>s. trim_space (sp_service_name s)) spans)))"

text \<open>The loop of \<open>SelectWindow\<close>, with its variables \<open>kept\<close> and \<open>out\<close> and its early exit.\<close>

fun selectLoop :: "nat \<Rightarrow> string \<Rightarrow> trace_info list \<Rightarrow> nat \<Rightarrow> span list \<Rightarrow> span list" where
  "selectLoop n service [] kept out = out"
| "selectLoop n service (info # infos) kept out =
     (if probeOnly (ti_spans info) then selectLoop n service infos kept out
      else if \<not> traceTouches (ti_spans info) service then selectLoop n service infos kept out
      else (let out' = out @ sortTraceSpans (ti_spans info); kept' = Suc kept
            in if kept' \<ge> n \<or> length out' \<ge> maxWindowSpans then out'
               else selectLoop n service infos kept' out'))"

definition SelectWindow :: "span list \<Rightarrow> int \<Rightarrow> string \<Rightarrow> span list" where
  "SelectWindow spans maxTraces service0 =
     (let service = ClipService service0; n = normalizeTraceWindow maxTraces;
          out = selectLoop n service (groupTraces spans) 0 []
      in if length out > maxWindowSpans then take maxWindowSpans out else out)"

section \<open>Attaches\<close>

record attach =
  at_service :: string
  at_spans :: nat
  at_last_seen :: time

definition clipAttaches :: "int \<Rightarrow> nat" where
  "clipAttaches n = (if n \<le> 0 then 20 else if n > 50 then 50 else nat n)"

fun addAttach :: "string \<Rightarrow> time \<Rightarrow> attach list \<Rightarrow> attach list" where
  "addAttach name t [] = [\<lparr>at_service = name, at_spans = 1, at_last_seen = (if t > 0 then t else 0)\<rparr>]"
| "addAttach name t (a # as) =
     (if at_service a = name
      then a\<lparr>at_spans := at_spans a + 1, at_last_seen := (if t > at_last_seen a then t else at_last_seen a)\<rparr> # as
      else a # addAttach name t as)"

definition attachesFrom :: "span list \<Rightarrow> int \<Rightarrow> attach list" where
  "attachesFrom spans limit =
     (let by = fold (\<lambda>s as. let name = ClipService (sp_service_name s)
                            in if name = [] then as else addAttach name (sp_start_time s) as) spans [];
          out = sort_key (\<lambda>a. (- at_last_seen a, at_service a)) by
      in take (clipAttaches limit) out)"

section \<open>The in-process store\<close>

record span_memory =
  sm_spans :: "string \<rightharpoonup> span"
  sm_order :: "string list"

definition span_store_key :: "span \<Rightarrow> string" where
  "span_store_key s = sp_trace_id s @ ''/'' @ sp_span_id s"

definition upsertSpan :: "span \<Rightarrow> span_memory \<Rightarrow> span_memory" where
  "upsertSpan s m =
     (let k = span_store_key s
      in m\<lparr>sm_order := (if sm_spans m k = None then sm_order m @ [k] else sm_order m),
           sm_spans := (sm_spans m)(k \<mapsto> s)\<rparr>)"

definition UpsertSpans :: "span list \<Rightarrow> span_memory \<Rightarrow> span_memory" where
  "UpsertSpans spans m = fold upsertSpan spans m"

definition storedSpans :: "span_memory \<Rightarrow> span list" where
  "storedSpans m = List.map_filter (sm_spans m) (sm_order m)"

definition ListSpans :: "list_query \<Rightarrow> span_memory \<Rightarrow> span list" where
  "ListSpans q m =
     take (normalizeLimit (lq_limit q))
       (filter (\<lambda>s. (lq_trace_id q = [] \<or> sp_trace_id s = lq_trace_id q) \<and>
                    (lq_service q = [] \<or> sp_service_name s = lq_service q))
         (rev (storedSpans m)))"

definition ListTraceWindow :: "int \<Rightarrow> string \<Rightarrow> span_memory \<Rightarrow> span list" where
  "ListTraceWindow maxTraces service m = SelectWindow (storedSpans m) maxTraces service"

definition ListAttaches :: "int \<Rightarrow> span_memory \<Rightarrow> attach list" where
  "ListAttaches limit m = attachesFrom (storedSpans m) limit"

section \<open>Lemmas\<close>

definition eligible_trace :: "string \<Rightarrow> trace_info \<Rightarrow> bool" where
  "eligible_trace service t = (\<not> probeOnly (ti_spans t) \<and> traceTouches (ti_spans t) service)"

lemma length_ClipService: "length (ClipService s) \<le> maxServiceName"
  by (simp add: ClipService_def Let_def)

lemma normalizeTraceWindow_bounds: "1 \<le> normalizeTraceWindow n \<and> normalizeTraceWindow n \<le> 200"
  by (auto simp: normalizeTraceWindow_def)

text \<open>The loop, cut at the cap, is the concatenation of the first eligible traces, cut at the cap.\<close>

lemma selectLoop_eq:
  assumes "kept < n" and "length out < maxWindowSpans"
  shows "take maxWindowSpans (selectLoop n service infos kept out) =
         take maxWindowSpans (out @ concat (map (\<lambda>t. sortTraceSpans (ti_spans t))
           (take (n - kept) (filter (eligible_trace service) infos))))"
  using assms
proof (induction n service infos kept out rule: selectLoop.induct)
  case (2 n service info infos kept out)
  let ?out' = "out @ sortTraceSpans (ti_spans info)"
  have n: "n - kept = Suc (n - Suc kept)" using "2.prems" by simp
  show ?case
  proof (cases "eligible_trace service info")
    case False
    with "2.IH"(1,2) "2.prems" show ?thesis by (auto simp: eligible_trace_def)
  next
    case True
    then have e: "\<not> probeOnly (ti_spans info)" "traceTouches (ti_spans info) service"
      by (auto simp: eligible_trace_def)
    consider "Suc kept \<ge> n" | "Suc kept < n" "length ?out' \<ge> maxWindowSpans"
      | "Suc kept < n" "length ?out' < maxWindowSpans" by linarith
    then show ?thesis
    proof cases
      case 1
      then have "n - kept = 1" using "2.prems" by simp
      with 1 True e show ?thesis by simp
    next
      case 2
      with True e n show ?thesis by (simp add: Let_def)
    next
      case 3
      have "take maxWindowSpans (selectLoop n service infos (Suc kept) ?out') =
            take maxWindowSpans (?out' @ concat (map (\<lambda>t. sortTraceSpans (ti_spans t))
              (take (n - Suc kept) (filter (eligible_trace service) infos))))"
        using "2.IH"(3) [OF _ _ refl refl] e 3 by simp
      with True e 3 n show ?thesis by (simp add: Let_def)
    qed
  qed
qed simp

lemma addTrace_ids: "set (map ti_id (addTrace s ts)) = insert (sp_trace_id s) (set (map ti_id ts))"
  by (induction ts) auto

lemma addTrace_distinct: "distinct (map ti_id ts) \<Longrightarrow> distinct (map ti_id (addTrace s ts))"
  by (induction ts) (auto simp: addTrace_ids [simplified])

lemma addTrace_spans:
  "(\<Union>t \<in> set (addTrace s ts). set (ti_spans t)) = insert s (\<Union>t \<in> set ts. set (ti_spans t))"
  by (induction ts) auto

definition trace_ok :: "trace_info \<Rightarrow> bool" where
  "trace_ok t = (ti_id t \<noteq> [] \<and> ti_spans t \<noteq> [] \<and> (\<forall>s \<in> set (ti_spans t). sp_trace_id s = ti_id t) \<and>
     ti_last t = Max (sp_start_time ` set (ti_spans t)))"

lemma trace_ok_extend:
  assumes "trace_ok t" and "ti_id t = sp_trace_id s"
  shows "trace_ok (t\<lparr>ti_spans := ti_spans t @ [s],
           ti_last := (if sp_start_time s > ti_last t then sp_start_time s else ti_last t)\<rparr>)"
proof -
  let ?A = "sp_start_time ` set (ti_spans t)" and ?x = "sp_start_time s"
  from assms have last: "ti_last t = Max ?A" and ne: "?A \<noteq> {}" by (auto simp: trace_ok_def)
  then have "(if ?x > ti_last t then ?x else ti_last t) = Max (insert ?x ?A)"
    by (simp only: Max_insert [OF finite_imageI [OF finite_set] ne] max_def not_less [symmetric] split: if_split) blast
  with assms show ?thesis by (simp add: trace_ok_def del: Max_insert)
qed

lemma trace_ok_start:
  "sp_trace_id s \<noteq> [] \<Longrightarrow> trace_ok \<lparr>ti_id = sp_trace_id s, ti_last = sp_start_time s, ti_spans = [s]\<rparr>"
  by (simp add: trace_ok_def)

lemma addTrace_ok:
  "sp_trace_id s \<noteq> [] \<Longrightarrow> list_all trace_ok ts \<Longrightarrow> list_all trace_ok (addTrace s ts)"
  by (induction ts) (simp_all add: trace_ok_start trace_ok_extend)

lemma collectTraces_ok:
  "list_all trace_ok (collectTraces spans) \<and> distinct (map ti_id (collectTraces spans))"
  unfolding collectTraces_def
  by (rule fold_invariant [where Q = "\<lambda>_. True"]) (simp_all add: addTrace_ok addTrace_distinct)

lemma collectTraces_spans:
  "(\<Union>t \<in> set (collectTraces spans). set (ti_spans t)) = {s \<in> set spans. sp_trace_id s \<noteq> []}"
proof -
  have "(\<Union>t \<in> set (fold (\<lambda>s ts. if sp_trace_id s = [] then ts else addTrace s ts) spans ts). set (ti_spans t)) =
        (\<Union>t \<in> set ts. set (ti_spans t)) \<union> {s \<in> set spans. sp_trace_id s \<noteq> []}" for ts
    by (induction spans arbitrary: ts) (auto simp: addTrace_spans)
  then show ?thesis by (simp add: collectTraces_def)
qed

lemma set_groupTraces [simp]: "set (groupTraces spans) = set (collectTraces spans)"
  by (simp add: groupTraces_def)

definition memory_ok :: "span_memory \<Rightarrow> bool" where
  "memory_ok m = (distinct (sm_order m) \<and> set (sm_order m) = dom (sm_spans m) \<and>
     (\<forall>k s. sm_spans m k = Some s \<longrightarrow> span_store_key s = k))"

lemma upsertSpan_ok: "memory_ok m \<Longrightarrow> memory_ok (upsertSpan s m)"
  by (auto simp: memory_ok_def upsertSpan_def Let_def domIff split: if_splits)

lemma UpsertSpans_ok: "memory_ok m \<Longrightarrow> memory_ok (UpsertSpans ss m)"
  unfolding UpsertSpans_def by (induction ss arbitrary: m) (auto simp: upsertSpan_ok)

section \<open>Properties of the window\<close>

text \<open>
  The trace window is the concatenation of the most recent traces that touch the service and are not health
  probes, each sorted by start time, cut at the trace limit and at ten thousand spans; the early exit of the loop
  does not change the result.
\<close>

lemma SelectWindow_spec:
  "SelectWindow spans n service =
     take maxWindowSpans (concat (map (\<lambda>t. sortTraceSpans (ti_spans t))
       (take (normalizeTraceWindow n) (filter (eligible_trace (ClipService service)) (groupTraces spans)))))"
proof -
  have "0 < normalizeTraceWindow n" using normalizeTraceWindow_bounds [of n] by simp
  moreover have cut: "(if c < length out then take c out else out) = take c out" for c :: nat and out :: "span list" by simp
  ultimately show ?thesis
    unfolding SelectWindow_def Let_def cut
    using selectLoop_eq [of 0 "normalizeTraceWindow n" "[]" "ClipService service" "groupTraces spans"]
    by (simp add: maxWindowSpans_def)
qed

text \<open>
  Grouping spans by trace loses and invents nothing: the groups have distinct ids, are never empty, hold only
  spans of their trace, carry the latest start time, together hold exactly the spans with a trace id, and are
  listed most recent first.
\<close>

lemma groupTraces_partition:
  "distinct (map ti_id (groupTraces spans)) \<and> list_all trace_ok (groupTraces spans) \<and>
   (\<Union>t \<in> set (groupTraces spans). set (ti_spans t)) = {s. s \<in> set spans \<and> sp_trace_id s \<noteq> []} \<and>
   sorted_wrt (\<lambda>a b. (ti_last b, ti_id b) \<le> (ti_last a, ti_id a)) (groupTraces spans)"
proof -
  let ?k = "\<lambda>t. (ti_last t, ti_id t)"
  have "distinct (map ti_id (sort_key ?k (collectTraces spans)))"
    using collectTraces_ok [of spans] by (simp add: distinct_map)
  then have "distinct (map ti_id (groupTraces spans))" by (simp add: groupTraces_def flip: rev_map)
  moreover have "list_all trace_ok (groupTraces spans)"
    using collectTraces_ok [of spans] by (simp add: list_all_iff)
  moreover have "sorted_wrt (\<lambda>a b. ?k b \<le> ?k a) (groupTraces spans)"
    using sorted_sort_key [of ?k "collectTraces spans"] by (simp add: groupTraces_def sorted_wrt_rev sorted_map)
  ultimately show ?thesis using collectTraces_spans [of spans] by simp
qed

text \<open>
  The span store keeps the last span written under each key: a lookup after a batch yields the last span of
  the batch with that key and otherwise the span stored before; keys stay unique in the insertion order.
\<close>

lemma UpsertSpans_lookup:
  assumes "memory_ok m"
  shows "memory_ok (UpsertSpans ss m) \<and>
    sm_spans (UpsertSpans ss m) k =
      (case find (\<lambda>s. span_store_key s = k) (rev ss) of Some s \<Rightarrow> Some s | None \<Rightarrow> sm_spans m k)"
proof
  show "memory_ok (UpsertSpans ss m)" by (rule UpsertSpans_ok [OF assms])
  have find_append: "find P (xs @ ys) = (case find P xs of Some x \<Rightarrow> Some x | None \<Rightarrow> find P ys)" for P :: "span \<Rightarrow> bool" and xs ys
    by (induction xs) auto
  show "sm_spans (UpsertSpans ss m) k = (case find (\<lambda>s. span_store_key s = k) (rev ss) of Some s \<Rightarrow> Some s | None \<Rightarrow> sm_spans m k)"
    unfolding UpsertSpans_def
    by (induction ss arbitrary: m) (auto simp: find_append upsertSpan_def Let_def split: option.split)
qed

definition demo_span :: "string \<Rightarrow> string \<Rightarrow> time \<Rightarrow> span" where
  "demo_span t i start = \<lparr>sp_trace_id = t, sp_span_id = i, sp_parent_span_id = [], sp_service_name = ''shop'',
     sp_name = ''GET /cart'', sp_kind = ''server'', sp_status_code = [], sp_http_method = ''GET'', sp_http_route = ''/cart'',
     sp_http_status = 200, sp_code_function = [], sp_code_file = [], sp_start_time = start, sp_duration_ns = 7\<rparr>"

end
