(* ===== verification/Netguard.thy ===== *)
theory Netguard
  imports Go_Prelude
begin

unbundle bit_operations_syntax

text \<open>
  The target filter, \<open>internal/netguard/netguard.go\<close>: \<open>Blocked\<close> on IP addresses as machine words,
  and \<open>CheckURL\<close>. \<open>url.Parse\<close>, \<open>URL.String\<close> and \<open>netip.ParseAddr\<close> are fields of the environment
  \<open>net_env\<close> that the definitions take as an argument, so every theorem holds for any such functions;
  \<open>URL.Hostname\<close> and \<open>URL.Port\<close> are modelled. The lemmas read \<open>Blocked\<close> as membership in address ranges.
\<close>

record url =
  u_scheme :: string
  u_opaque :: string
  u_user :: "string option"
  u_host :: string
  u_path :: string
  u_raw_query :: string
  u_fragment :: string

text \<open>An IPv4 address, or an IPv6 address with its zone.\<close>

datatype addr = V4 "32 word" | V6 "128 word" string

record net_env =
  parse_url :: "string \<Rightarrow> url option"
  url_string :: "url \<Rightarrow> string"
  parse_addr :: "string \<Rightarrow> addr option"

datatype net_error = ErrBlocked | NetErrorf string

section \<open>Addresses\<close>

definition is4In6 :: "128 word \<Rightarrow> bool" where
  "is4In6 w = (drop_bit 32 w = 0xFFFF)"

fun unmap :: "addr \<Rightarrow> addr" where
  "unmap (V4 w) = V4 w"
| "unmap (V6 w z) = (if is4In6 w then V4 (ucast w) else V6 w z)"

fun isLinkLocalUnicast :: "addr \<Rightarrow> bool" where
  "isLinkLocalUnicast (V4 w) = (drop_bit 16 w = 0xA9FE)"
| "isLinkLocalUnicast (V6 w z) = (drop_bit 112 w AND 0xFFC0 = 0xFE80)"

fun isLinkLocalMulticast :: "addr \<Rightarrow> bool" where
  "isLinkLocalMulticast (V4 w) = (drop_bit 8 w = 0xE00000)"
| "isLinkLocalMulticast (V6 w z) = (drop_bit 112 w AND 0xFF0F = 0xFF02)"

fun isMulticast :: "addr \<Rightarrow> bool" where
  "isMulticast (V4 w) = (drop_bit 24 w AND 0xF0 = 0xE0)"
| "isMulticast (V6 w z) = (drop_bit 120 w = 0xFF)"

fun isUnspecified :: "addr \<Rightarrow> bool" where
  "isUnspecified (V4 w) = (w = 0)"
| "isUnspecified (V6 w z) = (w = 0 \<and> z = [])"

fun isInterfaceLocalMulticast :: "addr \<Rightarrow> bool" where
  "isInterfaceLocalMulticast (V4 w) = False"
| "isInterfaceLocalMulticast (V6 w z) = (\<not> is4In6 w \<and> drop_bit 112 w AND 0xFF0F = 0xFF01)"

definition Blocked :: "addr \<Rightarrow> bool" where
  "Blocked addr0 =
     (let addr = unmap addr0
      in isLinkLocalUnicast addr \<or> isLinkLocalMulticast addr \<or> isMulticast addr \<or>
         isUnspecified addr \<or> isInterfaceLocalMulticast addr)"

section \<open>URLs\<close>

text \<open>\<open>net/url\<close>: \<open>splitHostPort\<close>, from which \<open>Hostname\<close> and \<open>Port\<close> are read.\<close>

definition splitHostPort :: "string \<Rightarrow> string \<times> string" where
  "splitHostPort hp =
     (let digits = rev (takeWhile is_digit (rev hp));
          front = take (length hp - length digits) hp;
          (host, port) = (if front \<noteq> [] \<and> last front = CHR '':'' then (butlast front, digits) else (hp, []))
      in (if prefix ''['' host \<and> suffix '']'' host then butlast (tl host) else host, port))"

definition url_hostname :: "url \<Rightarrow> string" where
  "url_hostname u = fst (splitHostPort (u_host u))"

definition url_port :: "url \<Rightarrow> string" where
  "url_port u = snd (splitHostPort (u_host u))"

definition blockedHosts :: "string list" where
  "blockedHosts = [''metadata'', ''metadata.google.internal'', ''metadata.goog'']"

text \<open>\<open>None\<close> is a nil error.\<close>

definition CheckURL :: "net_env \<Rightarrow> string \<Rightarrow> net_error option" where
  "CheckURL E raw =
     (case parse_url E (trim_space raw) of
        None \<Rightarrow> Some (NetErrorf ''netguard: parse'')
      | Some u \<Rightarrow>
          if u_scheme u \<noteq> ''http'' \<and> u_scheme u \<noteq> ''https''
          then Some (NetErrorf ''netguard: target must be http or https'')
          else if u_user u \<noteq> None then Some (NetErrorf ''netguard: target must not include userinfo'')
          else (let host = to_lower (trim_suffix ''.'' (url_hostname u))
                in if host = [] then Some (NetErrorf ''netguard: target missing host'')
                   else if host \<in> set blockedHosts then Some ErrBlocked
                   else (case parse_addr E host of
                           Some a \<Rightarrow> if Blocked a then Some ErrBlocked else None
                         | None \<Rightarrow> None)))"

text \<open>The \<open>Control\<close> hook of the dialer in \<open>Transport\<close>, on the resolved address.\<close>

definition dialControl :: "addr option \<Rightarrow> net_error option" where
  "dialControl ap =
     (case ap of None \<Rightarrow> Some (NetErrorf ''netguard: parse'') | Some a \<Rightarrow> if Blocked a then Some ErrBlocked else None)"

section \<open>Lemmas\<close>

text \<open>The IPv4 address \<open>a.b.c.d\<close>.\<close>

definition ipv4 :: "nat \<Rightarrow> nat \<Rightarrow> nat \<Rightarrow> nat \<Rightarrow> 32 word" where
  "ipv4 a b c d = word_of_nat (((a * 256 + b) * 256 + c) * 256 + d)"

lemma and_f0_eq_e0:
  fixes x :: nat
  assumes "x < 256"
  shows "x AND 0xF0 = 0xE0 \<longleftrightarrow> x div 16 = 14"
proof -
  have f0: "push_bit 4 (mask 4) = (0xF0::nat)" by (simp add: push_bit_eq_mult mask_eq_exp_minus_1)
  have "x AND push_bit 4 (mask 4) = push_bit 4 (take_bit 4 (drop_bit 4 x))"
    by (rule bit_eqI) (auto simp: bit_simps)
  then have "x AND 0xF0 = push_bit 4 (take_bit 4 (drop_bit 4 x))" by (simp only: f0)
  moreover have "take_bit 4 (drop_bit 4 x) = x div 16"
    using assms by (simp add: drop_bit_eq_div take_bit_nat_eq_self_iff less_mult_imp_div_less)
  ultimately have "x AND 0xF0 = (x div 16) * 16" by (simp add: push_bit_eq_mult)
  then show ?thesis by simp
qed

lemma isMulticast_V4: "isMulticast (V4 w) \<longleftrightarrow> unat w div 2 ^ 28 = 14"
proof -
  have bound: "unat w div 2 ^ 24 < 256"
    using unsigned_less [of w, where ?'a = nat] by (simp add: less_mult_imp_div_less)
  have "unat (drop_bit 24 w AND 0xF0) = unat w div 2 ^ 24 AND 0xF0"
    by (simp add: unsigned_and_eq drop_bit_eq_div unat_div)
  then have "isMulticast (V4 w) \<longleftrightarrow> unat w div 2 ^ 24 AND 0xF0 = 0xE0"
    by (simp add: word_unat_eq_iff)
  also have "\<dots> \<longleftrightarrow> unat w div 2 ^ 24 div 16 = 14" using bound by (rule and_f0_eq_e0)
  finally show ?thesis by (simp add: div_mult2_eq [symmetric])
qed

text \<open>The blocked IPv4 addresses: 169.254.0.0/16, 224.0.0.0/4 and 0.0.0.0.\<close>

lemma Blocked_V4:
  "Blocked (V4 w) \<longleftrightarrow> unat w div 2 ^ 16 = 0xA9FE \<or> unat w div 2 ^ 28 = 0xE \<or> w = 0"
proof -
  have ll: "isLinkLocalUnicast (V4 w) \<longleftrightarrow> unat w div 2 ^ 16 = 0xA9FE"
    by (simp add: word_unat_eq_iff drop_bit_eq_div unat_div)
  have "isLinkLocalMulticast (V4 w) \<Longrightarrow> isMulticast (V4 w)"
  proof -
    assume "isLinkLocalMulticast (V4 w)"
    then have "unat w div 2 ^ 8 = 0xE00000"
      by (simp add: word_unat_eq_iff drop_bit_eq_div unat_div)
    then have "unat w div 2 ^ 8 div 2 ^ 20 = 14" by simp
    then show ?thesis by (simp add: isMulticast_V4 div_mult2_eq [symmetric] del: isMulticast.simps)
  qed
  with ll isMulticast_V4 [of w] show ?thesis
    by (auto simp: Blocked_def simp del: isMulticast.simps isLinkLocalUnicast.simps isLinkLocalMulticast.simps)
qed

text \<open>An IPv4-mapped IPv6 address is judged as the IPv4 address it maps, whatever its zone.\<close>

lemma Blocked_mapped: "is4In6 w \<Longrightarrow> Blocked (V6 w z) = Blocked (V4 (ucast w))"
  by (simp add: Blocked_def)

section \<open>Properties of the guard\<close>

text \<open>
  The guard blocks an IPv4 address exactly if it lies in 169.254.0.0/16 (link-local, with the cloud metadata
  service), in 224.0.0.0/4 (multicast) or is 0.0.0.0, and it judges an IPv4-mapped IPv6 address, with any zone, as
  the address it maps, so that mapping does not evade the check.
\<close>

lemma Blocked_IPv4:
  "(Blocked (V4 w) \<longleftrightarrow> unat w div 2 ^ 16 = 0xA9FE \<or> unat w div 2 ^ 28 = 0xE \<or> w = 0) \<and> Blocked a = Blocked (unmap a)"
proof
  show "Blocked (V4 w) \<longleftrightarrow> unat w div 2 ^ 16 = 0xA9FE \<or> unat w div 2 ^ 28 = 0xE \<or> w = 0" by (rule Blocked_V4)
  have "unmap (unmap a) = unmap a" by (cases a) simp_all
  then show "Blocked a = Blocked (unmap a)" by (simp add: Blocked_def)
qed


text \<open>A concrete URL library for the witness: it parses one URL.\<close>

definition guard_net :: net_env where
  "guard_net = \<lparr>parse_url = (\<lambda>s. Some \<lparr>u_scheme = ''http'', u_opaque = [], u_user = None, u_host = ''10.0.0.1:80'', u_path = [],
      u_raw_query = [], u_fragment = []\<rparr>), url_string = u_host, parse_addr = (\<lambda>_. Some (V4 (ipv4 10 0 0 1)))\<rparr>"


end
