(* ===== verification/Replay.thy ===== *)
theory Replay
  imports Ingest Netguard "HOL-Library.Finite_Map"
begin

text \<open>
  Replaying a workload and comparing two replays, \<open>internal/replay\<close>: workloads (\<open>workload.go\<close>,
  \<open>file.go\<close>), one run against a target (\<open>run.go\<close>, \<open>repeat.go\<close>, \<open>burst.go\<close>), the comparison
  (\<open>compare.go\<close>) and the latency summary (\<open>latency.go\<close>). The HTTP exchange itself is a parameter that
  gives the outcome of sending one request; \<open>json.Unmarshal\<close> is a parameter \<open>dec\<close>. Durations are 64-bit
  words, compared as signed numbers, and the percentile rank is computed in IEEE double arithmetic
  as the Go code does.
\<close>

type_synonym int64 = "64 word"

section \<open>Workloads\<close>

record replay_step =
  st_method :: string
  st_path :: string
  st_body :: string
  st_headers :: "(string \<times> string) list"
  st_provenance :: string
  st_service :: string

type_synonym workload = "replay_step list"

definition maxSteps :: nat where
  "maxSteps = 20"

definition isHTTPMethod :: "string \<Rightarrow> bool" where
  "isHTTPMethod s = (s \<in> {''GET'', ''POST'', ''PUT'', ''PATCH'', ''DELETE'', ''HEAD'', ''OPTIONS''})"

definition skipKind :: "string \<Rightarrow> bool" where
  "skipKind kind = (to_lower (trim_space kind) \<in> {''client'', ''producer'', ''consumer'', ''internal''})"

definition routeParts :: "span \<Rightarrow> (string \<times> string) option" where
  "routeParts s =
     (let method0 = to_upper (trim_space (sp_http_method s));
          path0 = before CHR ''?'' (trim_space (sp_http_route s));
          (method, path) =
            (case cut CHR '' '' path0 of
               None \<Rightarrow> (method0, path0)
             | Some (l, right) \<Rightarrow>
                 (let left = to_upper l
                  in if isHTTPMethod left then (if method0 = [] then left else method0, right)
                     else (method0, path0)))
      in if method = [] \<or> path = [] then None
         else Some (method, if prefix ''/'' path then path else ''/'' @ path))"

definition safePath :: "string \<Rightarrow> bool" where
  "safePath path =
     (if \<not> prefix ''/'' path then False
      else if sublist ''..'' path \<or> CHR 0x5C \<in> set path \<or> CHR ''@'' \<in> set path then False
      else if contains_any ''{}*'' path then False
      else if sublist ''://'' path then False
      else True)"

definition safeReplay :: "string \<Rightarrow> string \<Rightarrow> bool" where
  "safeReplay method path = (method \<in> {''GET'', ''HEAD'', ''OPTIONS''} \<and> safePath path)"

definition safeFileStep :: "string \<Rightarrow> string \<Rightarrow> bool" where
  "safeFileStep method path = (isHTTPMethod method \<and> safePath path)"

text \<open>The loop of \<open>FromSpans\<close>: \<open>out\<close> is the slice built so far, which also serves as the \<open>seen\<close> set.\<close>

fun fromSpansLoop :: "span list \<Rightarrow> workload \<Rightarrow> workload" where
  "fromSpansLoop [] out = out"
| "fromSpansLoop (s # ss) out =
     (if skipKind (sp_kind s) then fromSpansLoop ss out
      else (case routeParts s of
              None \<Rightarrow> fromSpansLoop ss out
            | Some (method, path) \<Rightarrow>
                if \<not> safeReplay method path then fromSpansLoop ss out
                else if (method @ '' '' @ path) \<in> set (map (\<lambda>x. st_method x @ '' '' @ st_path x) out)
                then fromSpansLoop ss out
                else (let out' = out @ [\<lparr>st_method = method, st_path = path, st_body = [], st_headers = [],
                                        st_provenance = ''span_route'', st_service = sp_service_name s\<rparr>]
                      in if length out' \<ge> maxSteps then out' else fromSpansLoop ss out')))"

definition FromSpans :: "span list \<Rightarrow> workload" where
  "FromSpans spans = fromSpansLoop spans []"

definition RestrictToRoutes :: "workload \<Rightarrow> string list \<Rightarrow> string \<Rightarrow> workload" where
  "RestrictToRoutes w labels provenance =
     (if labels = [] \<or> w = [] then w
      else (let keep = filter (\<lambda>l. l \<noteq> []) (map trim_space labels)
            in if keep = [] then w
               else (let out = map (\<lambda>s. if provenance \<noteq> [] then s\<lparr>st_provenance := provenance\<rparr> else s)
                                 (filter (\<lambda>s. (st_method s @ '' '' @ st_path s) \<in> set keep) w)
                     in if out = [] then w else out)))"

section \<open>Running a workload\<close>

record observation =
  ob_method :: string
  ob_path :: string
  ob_status :: int
  ob_body :: string
  ob_duration :: int64
  ob_err :: string

record result =
  re_target :: string
  re_steps :: "observation list"

text \<open>
  What sending one request yields: the request could not be built, the client reported an error, or
  a response arrived with a status, a body (or an error while reading it) and a duration.
\<close>

datatype exchange =
    BadRequest string
  | ClientError string int64
  | Response int "error + string" int64

definition maxResponse :: nat where
  "maxResponse = 65536"

definition runStep :: "(string \<Rightarrow> replay_step \<Rightarrow> exchange) \<Rightarrow> string \<Rightarrow> replay_step \<Rightarrow> observation" where
  "runStep send base st =
     (let obs = \<lparr>ob_method = st_method st, ob_path = st_path st, ob_status = 0, ob_body = [],
                 ob_duration = 0, ob_err = []\<rparr>
      in case send (base @ st_path st) st of
           BadRequest e \<Rightarrow> obs\<lparr>ob_err := e\<rparr>
         | ClientError e d \<Rightarrow> obs\<lparr>ob_duration := d, ob_err := e\<rparr>
         | Response code body d \<Rightarrow>
             (let obs' = obs\<lparr>ob_duration := d, ob_status := code\<rparr>
              in case body of
                   Inl (Errorf e) \<Rightarrow> obs'\<lparr>ob_err := e\<rparr>
                 | Inr raw \<Rightarrow> if length raw > maxResponse then obs'\<lparr>ob_err := ''response too large''\<rparr>
                             else obs'\<lparr>ob_body := raw\<rparr>))"

definition parseTarget :: "net_env \<Rightarrow> string \<Rightarrow> error + string" where
  "parseTarget E raw0 =
     (let raw1 = trim_space raw0
      in if raw1 = [] then Inl (Errorf ''replay: empty target'')
         else (let raw = (if sublist ''://'' raw1 then raw1 else ''http://'' @ raw1)
               in case parse_url E raw of
                    None \<Rightarrow> Inl (Errorf ''replay: target'')
                  | Some u \<Rightarrow>
                      if u_scheme u \<noteq> ''http'' \<and> u_scheme u \<noteq> ''https''
                      then Inl (Errorf ''replay: target must be http or https'')
                      else if u_host u = [] then Inl (Errorf ''replay: target missing host'')
                      else if u_user u \<noteq> None then Inl (Errorf ''replay: target must not include userinfo'')
                      else if CheckURL E (url_string E u) \<noteq> None then Inl (Errorf ''replay: netguard'')
                      else Inr (trim_right_set ''/''
                             (url_string E (u\<lparr>u_path := [], u_raw_query := [], u_fragment := []\<rparr>)))))"

definition Run :: "net_env \<Rightarrow> (string \<Rightarrow> replay_step \<Rightarrow> exchange) \<Rightarrow> string \<Rightarrow> workload \<Rightarrow> error + result" where
  "Run E send target w =
     (case parseTarget E target of
        Inl e \<Rightarrow> Inl e
      | Inr base \<Rightarrow>
          if w = [] then Inl (Errorf ''replay: empty workload'')
          else Inr \<lparr>re_target = base, re_steps = map (runStep send base) w\<rparr>)"

definition maxRepeats :: int where
  "maxRepeats = 100"

definition clipRepeats :: "int \<Rightarrow> error + nat" where
  "clipRepeats n =
     (if n < 1 then Inl (Errorf ''replay: n must be >= 1'')
      else if n > maxRepeats then Inl (Errorf ''replay: n exceeds 100'')
      else Inr (nat n))"

text \<open>
  The loop of \<open>Repeat\<close> while the context is live: run \<open>i\<close> of the workload meets the environment
  \<open>send i\<close>, and the first error ends the loop.
\<close>

fun repeatLoop :: "(nat \<Rightarrow> error + result) \<Rightarrow> nat \<Rightarrow> nat \<Rightarrow> error + result list" where
  "repeatLoop run i 0 = Inr []"
| "repeatLoop run i (Suc k) =
     (case run i of
        Inl e \<Rightarrow> Inl e
      | Inr r \<Rightarrow> (case repeatLoop run (Suc i) k of Inl e \<Rightarrow> Inl e | Inr rs \<Rightarrow> Inr (r # rs)))"

definition Repeat :: "net_env \<Rightarrow> (nat \<Rightarrow> string \<Rightarrow> replay_step \<Rightarrow> exchange) \<Rightarrow> string \<Rightarrow> workload \<Rightarrow> int \<Rightarrow> error + result list" where
  "Repeat E send target w n0 =
     (case clipRepeats n0 of Inl e \<Rightarrow> Inl e | Inr n \<Rightarrow> repeatLoop (\<lambda>i. Run E (send i) target w) 0 n)"

text \<open>
  \<open>Burst\<close> while the context is live: the \<open>n\<close> goroutines write their results to distinct slots, and
  any error makes the call fail; they all fail with the same error, because \<open>Run\<close> fails on the
  target and the workload alone.
\<close>

definition Burst :: "net_env \<Rightarrow> (nat \<Rightarrow> string \<Rightarrow> replay_step \<Rightarrow> exchange) \<Rightarrow> string \<Rightarrow> workload \<Rightarrow> int \<Rightarrow> error + result list" where
  "Burst E send target w n =
     (if n < 1 then Inl (Errorf ''replay: n must be >= 1'')
      else if n > 32 then Inl (Errorf ''replay: n exceeds 32'')
      else (case parseTarget E target of
              Inl e \<Rightarrow> Inl e
            | Inr _ \<Rightarrow>
                if w = [] then Inl (Errorf ''replay: empty workload'')
                else repeatLoop (\<lambda>i. Run E (send i) target w) 0 (nat n)))"

definition healthOK :: "exchange \<Rightarrow> error option" where
  "healthOK x =
     (case x of
        BadRequest e \<Rightarrow> Some (Errorf e)
      | ClientError e _ \<Rightarrow> Some (Errorf e)
      | Response code _ _ \<Rightarrow> if code < 200 \<or> code > 299 then Some (Errorf (''status '' @ itoa code)) else None)"

definition oneHealthz :: "net_env \<Rightarrow> (string \<Rightarrow> exchange) \<Rightarrow> string \<Rightarrow> string \<Rightarrow> error option" where
  "oneHealthz E get target path =
     (case parseTarget E target of Inl e \<Rightarrow> Some e | Inr base \<Rightarrow> healthOK (get (base @ path)))"

definition HealthzPath :: "net_env \<Rightarrow> (string \<Rightarrow> exchange) \<Rightarrow> string \<Rightarrow> string \<Rightarrow> string \<Rightarrow> error option" where
  "HealthzPath E get baseline patch path0 =
     (let path = (if path0 = [] then ''/healthz'' else path0)
      in if \<not> safeReplay ''GET'' path then Some (Errorf ''replay: health path is not a local GET path'')
         else (case oneHealthz E get baseline path of
                 Some (Errorf e) \<Rightarrow> Some (Errorf (''replay: baseline GET '' @ path @ '': '' @ e))
               | None \<Rightarrow> (case oneHealthz E get patch path of
                           Some (Errorf e) \<Rightarrow> Some (Errorf (''replay: patch GET '' @ path @ '': '' @ e))
                         | None \<Rightarrow> None)))"

section \<open>Comparing two replays\<close>

record delta =
  de_method :: string
  de_path :: string
  de_status :: string
  de_baseline_status :: int
  de_patch_status :: int
  de_notes :: "string list"

record compare_report =
  cr_verdict :: string
  cr_steps :: "delta list"

definition AuthRejected :: "delta \<Rightarrow> bool" where
  "AuthRejected d = list_ex (\<lambda>n. n = ''auth_rejected'') (de_notes d)"

definition authStatus :: "int \<Rightarrow> bool" where
  "authStatus code = (code = 401 \<or> code = 403)"

text \<open>Decoded JSON: a number is the exact value of a double, an object a finite map.\<close>

datatype json = JNull | JBool bool | JNum rat | JStr string | JArr "json list" | JObj "(string, json) fmap"

definition volatileKeys :: "string list" where
  "volatileKeys = [''id'', ''timestamp'', ''request_id'', ''trace_id'', ''span_id'', ''created_at'',
     ''updated_at'', ''checkout_id'']"

primrec stripVolatile :: "json \<Rightarrow> json" where
  "stripVolatile JNull = JNull"
| "stripVolatile (JBool b) = JBool b"
| "stripVolatile (JNum n) = JNum n"
| "stripVolatile (JStr s) = JStr s"
| "stripVolatile (JArr vs) = JArr (map stripVolatile vs)"
| "stripVolatile (JObj m) = JObj (fmfilter (\<lambda>k. k \<notin> set volatileKeys) (fmmap stripVolatile m))"

definition decodeJSON :: "(string \<Rightarrow> json option) \<Rightarrow> string \<Rightarrow> json option" where
  "decodeJSON dec raw0 = (let raw = trim_space raw0 in if raw = [] then None else dec raw)"

definition jsonNotes :: "(string \<Rightarrow> json option) \<Rightarrow> string \<Rightarrow> string \<Rightarrow> string list" where
  "jsonNotes dec a b =
     (case (decodeJSON dec a, decodeJSON dec b) of
        (None, None) \<Rightarrow> if trim_space a = trim_space b then [] else [''opaque body'']
      | (Some va, Some vb) \<Rightarrow> if stripVolatile va = stripVolatile vb then [] else [''json'']
      | _ \<Rightarrow> [''json vs opaque''])"

definition compareObs :: "(string \<Rightarrow> json option) \<Rightarrow> observation \<Rightarrow> observation \<Rightarrow> delta" where
  "compareObs dec a b =
     (let d = \<lparr>de_method = ob_method a, de_path = ob_path a, de_status = ''match'',
               de_baseline_status = 0, de_patch_status = 0, de_notes = []\<rparr>
      in if ob_path a \<noteq> ob_path b \<or> ob_method a \<noteq> ob_method b
         then d\<lparr>de_status := ''incomplete'', de_notes := [''step mismatch'']\<rparr>
         else if ob_err a \<noteq> [] \<or> ob_err b \<noteq> []
         then d\<lparr>de_status := ''incomplete'',
                de_notes := (if ob_err a \<noteq> [] then [''error:baseline:'' @ ob_err a] else []) @
                            (if ob_err b \<noteq> [] then [''error:patch:'' @ ob_err b] else [])\<rparr>
         else (let d1 = d\<lparr>de_baseline_status := ob_status a, de_patch_status := ob_status b\<rparr>
               in if authStatus (ob_status a) \<and> authStatus (ob_status b)
                  then d1\<lparr>de_status := ''incomplete'', de_notes := [''auth_rejected'']\<rparr>
                  else (let d2 = (if ob_status a \<noteq> ob_status b
                                  then d1\<lparr>de_status := ''differ'', de_notes := [''status'']\<rparr> else d1);
                            notes = jsonNotes dec (ob_body a) (ob_body b)
                        in if notes \<noteq> [] then d2\<lparr>de_status := ''differ'', de_notes := de_notes d2 @ notes\<rparr>
                           else d2)))"

definition Compare :: "(string \<Rightarrow> json option) \<Rightarrow> result \<Rightarrow> result \<Rightarrow> compare_report" where
  "Compare dec base patch =
     (let steps = map2 (compareObs dec) (re_steps base) (re_steps patch);
          incomplete = (length (re_steps base) \<noteq> length (re_steps patch) \<or>
            list_ex (\<lambda>d. list_ex (prefix ''error:'') (de_notes d) \<or> de_status d = ''incomplete'') steps);
          differ = list_ex (\<lambda>d. de_status d = ''differ'') steps
      in \<lparr>cr_verdict = (if incomplete then ''incomplete'' else if differ then ''differ'' else ''match''),
          cr_steps = steps\<rparr>)"

section \<open>Latency\<close>

record summary =
  su_n :: int
  su_min :: int64
  su_med :: int64
  su_p95 :: int64
  su_p99 :: int64
  su_has_p95 :: bool
  su_has_p99 :: bool

record step_latency =
  sl_method :: string
  sl_path :: string
  sl_baseline :: summary
  sl_patch :: summary

text \<open>
  \<open>Shifted\<close> on 64-bit two's complement numbers: \<open>ShiftRatio*b\<close> and \<open>p-b\<close> wrap around, and the comparisons
  are signed.
\<close>

definition ShiftRatio :: int64 where
  "ShiftRatio = 2"

definition ShiftMinNS :: int64 where
  "ShiftMinNS = 5000000"

definition Shifted :: "step_latency \<Rightarrow> bool" where
  "Shifted l =
     (if su_n (sl_baseline l) = 0 \<or> su_n (sl_patch l) = 0 then False
      else (let b = su_med (sl_baseline l); p = su_med (sl_patch l)
            in ShiftRatio * b <s p \<and> ShiftMinNS \<le>s p - b))"

text \<open>
  The double arithmetic of \<open>rank\<close>. The constants 0.50, 0.95 and 0.99 are the doubles \<open>P / 2^53\<close> below
  (the nearest ones). The product of such a double with \<open>float64(n)\<close> is the exact product rounded to 53
  significant bits, ties to even; \<open>n\<close> itself is exact. Values are kept in units of \<open>2^-53\<close>.
\<close>

definition f64_050 :: nat where "f64_050 = 4503599627370496"

definition f64_095 :: nat where "f64_095 = 8556839292003942"

definition f64_099 :: nat where "f64_099 = 8917127262193582"

fun bit_len :: "nat \<Rightarrow> nat" where
  "bit_len n = (if n = 0 then 0 else Suc (bit_len (n div 2)))"

declare bit_len.simps [simp del]

definition round_even :: "nat \<Rightarrow> nat \<Rightarrow> nat" where
  "round_even m k =
     (if k = 0 then m
      else (let q = m div 2 ^ k; r = m mod 2 ^ k; h = 2 ^ (k - 1)
            in if r > h \<or> (r = h \<and> odd q) then q + 1 else q))"

definition f64_mul :: "nat \<Rightarrow> nat \<Rightarrow> nat" where
  "f64_mul p n = (let m = p * n; k = bit_len m - 53 in round_even m k * 2 ^ k)"

definition f64_ceil :: "nat \<Rightarrow> nat" where
  "f64_ceil x = (x + 2 ^ 53 - 1) div 2 ^ 53"

definition rank :: "int64 list \<Rightarrow> nat \<Rightarrow> int64" where
  "rank xs p =
     (let n = length xs
      in if n = 0 then 0
         else (let i0 = int (f64_ceil (f64_mul p n)) - 1;
                   i1 = (if i0 < 0 then 0 else i0);
                   idx = (if i1 \<ge> int n then int n - 1 else i1)
               in xs ! nat idx))"

definition minPercentileN :: int where
  "minPercentileN = 20"

definition no_summary :: summary where
  "no_summary = \<lparr>su_n = 0, su_min = 0, su_med = 0, su_p95 = 0, su_p99 = 0, su_has_p95 = False, su_has_p99 = False\<rparr>"

definition Summarize :: "int64 list \<Rightarrow> summary" where
  "Summarize samples =
     (let out = no_summary\<lparr>su_n := int (length samples)\<rparr>
      in if su_n out = 0 then out
         else (let cp = sort_key sint samples;
                   out1 = out\<lparr>su_min := cp ! 0, su_med := rank cp f64_050\<rparr>
               in if su_n out \<ge> minPercentileN
                  then out1\<lparr>su_p95 := rank cp f64_095, su_p99 := rank cp f64_099,
                            su_has_p95 := True, su_has_p99 := True\<rparr>
                  else out1))"

definition successfulDurations :: "result list \<Rightarrow> nat \<Rightarrow> int64 list" where
  "successfulDurations runs step =
     List.map_filter (\<lambda>r. if step \<ge> length (re_steps r) then None
       else (let s = re_steps r ! step
             in if ob_err s \<noteq> [] \<or> ob_status s \<le> 0 \<or> ob_duration s \<le>s 0 then None else Some (ob_duration s))) runs"

definition Latency :: "result list \<Rightarrow> result list \<Rightarrow> step_latency list" where
  "Latency base patch =
     (let n0 = (case base of [] \<Rightarrow> 0 | r # _ \<Rightarrow> length (re_steps r));
          n = (case patch of [] \<Rightarrow> n0 | r # _ \<Rightarrow> if length (re_steps r) < n0 then length (re_steps r) else n0)
      in map (\<lambda>i. \<lparr>sl_method = (case base of [] \<Rightarrow> [] | r # _ \<Rightarrow> ob_method (re_steps r ! i)),
                   sl_path = (case base of [] \<Rightarrow> [] | r # _ \<Rightarrow> ob_path (re_steps r ! i)),
                   sl_baseline = Summarize (successfulDurations base i),
                   sl_patch = Summarize (successfulDurations patch i)\<rparr>) [0..<n])"

section \<open>Lemmas on workloads\<close>

lemma fromSpansLoop_length:
  "length out < maxSteps \<Longrightarrow> length (fromSpansLoop ss out) \<le> maxSteps"
proof (induction ss arbitrary: out)
  case (Cons s ss)
  then show ?case by (auto simp: Let_def split: option.splits)
qed simp

text \<open>What \<open>FromSpans\<close> promises of each request: a safe method, a safe concrete path, no body, no header.\<close>

definition derived_step :: "replay_step \<Rightarrow> bool" where
  "derived_step s = (safeReplay (st_method s) (st_path s) \<and> st_body s = [] \<and> st_headers s = [] \<and>
     st_provenance s = ''span_route'')"

lemma fromSpansLoop_derived:
  "list_all derived_step out \<Longrightarrow> list_all derived_step (fromSpansLoop ss out)"
proof (induction ss arbitrary: out)
  case (Cons s ss)
  then show ?case by (simp add: Let_def derived_step_def split: option.splits)
qed simp

lemma fromSpansLoop_distinct:
  "distinct (map (\<lambda>x. st_method x @ '' '' @ st_path x) out) \<Longrightarrow>
   distinct (map (\<lambda>x. st_method x @ '' '' @ st_path x) (fromSpansLoop ss out))"
proof (induction ss arbitrary: out)
  case (Cons s ss)
  then show ?case by (simp add: Let_def split: option.splits)
qed simp

section \<open>Lemmas on the comparison\<close>

lemma stripVolatile_idem [simp]: "stripVolatile (stripVolatile v) = stripVolatile v"
proof (induction v)
  case (JObj m)
  have "map_option stripVolatile (map_option stripVolatile (fmlookup m k)) = map_option stripVolatile (fmlookup m k)" for k
    using JObj.IH by (cases "fmlookup m k") (auto dest: fmran'I)
  then show ?case by (auto intro!: fmap_ext)
qed simp_all

lemma jsonNotes_sym: "jsonNotes dec a b = jsonNotes dec b a"
  by (auto simp: jsonNotes_def split: option.splits)

lemma compareObs_status_cases:
  "de_status (compareObs dec a b) \<in> {''match'', ''differ'', ''incomplete''}"
  by (simp add: compareObs_def Let_def)

lemma compareObs_sym: "de_status (compareObs dec a b) = de_status (compareObs dec b a)"
  by (auto simp: compareObs_def Let_def jsonNotes_sym [of dec "ob_body a"])

text \<open>Two observations agree: same request, answered without error, not refused by both, same status and body.\<close>

definition same_answer :: "(string \<Rightarrow> json option) \<Rightarrow> observation \<Rightarrow> observation \<Rightarrow> bool" where
  "same_answer dec a b =
     (ob_path a = ob_path b \<and> ob_method a = ob_method b \<and> ob_err a = [] \<and> ob_err b = [] \<and>
      \<not> authStatus (ob_status a) \<and> ob_status a = ob_status b \<and> jsonNotes dec (ob_body a) (ob_body b) = [])"

lemma compareObs_match: "de_status (compareObs dec a b) = ''match'' \<longleftrightarrow> same_answer dec a b"
  by (auto simp: compareObs_def same_answer_def Let_def)

section \<open>Properties of the replay\<close>

lemma Compare_match:
  "cr_verdict (Compare dec base patch) = ''match'' \<longleftrightarrow> list_all2 (same_answer dec) (re_steps base) (re_steps patch)"
proof -
  have ex: "list_ex P (map2 f xs ys) \<longleftrightarrow> \<not> list_all2 (\<lambda>x y. \<not> P (f x y)) xs ys" if "length xs = length ys"
    for P and f :: "observation \<Rightarrow> observation \<Rightarrow> delta" and xs ys
    using that by (induction xs ys rule: list_induct2) auto
  have ok: "\<not> (list_ex (prefix ''error:'') (de_notes (compareObs dec a b)) \<or> de_status (compareObs dec a b) = ''incomplete'') \<and>
      de_status (compareObs dec a b) \<noteq> ''differ'' \<longleftrightarrow> same_answer dec a b" for a b
  proof
    assume "\<not> (list_ex (prefix ''error:'') (de_notes (compareObs dec a b)) \<or> de_status (compareObs dec a b) = ''incomplete'') \<and>
      de_status (compareObs dec a b) \<noteq> ''differ''"
    then show "same_answer dec a b" using compareObs_status_cases [of dec a b] compareObs_match [of dec a b] by auto
  next
    assume "same_answer dec a b"
    then show "\<not> (list_ex (prefix ''error:'') (de_notes (compareObs dec a b)) \<or> de_status (compareObs dec a b) = ''incomplete'') \<and>
      de_status (compareObs dec a b) \<noteq> ''differ''"
      by (auto simp: compareObs_def same_answer_def Let_def)
  qed
  show ?thesis
  proof (cases "length (re_steps base) = length (re_steps patch)")
    case True
    then show ?thesis
      unfolding ok [symmetric] by (simp add: Compare_def Let_def ex list_all2_conv_all_nth) blast
  next
    case False
    then show ?thesis by (auto simp: Compare_def Let_def dest: list_all2_lengthD)
  qed
qed

text \<open>
  C36: Two runs are said to match exactly when they have the same number of observations and these agree pairwise:
  same request, no error on either side, not refused by authentication, same status, and the same body up to
  volatile JSON fields.
\<close>

theorem Compare_match_iff:
  "cr_verdict (Compare dec base patch) = ''match'' \<longleftrightarrow> list_all2 (same_answer dec) (re_steps base) (re_steps patch)"
  by (rule Compare_match)

text \<open>
  The verdict of a comparison does not depend on which run is called the baseline.
\<close>

lemma Compare_symmetric: "cr_verdict (Compare dec base patch) = cr_verdict (Compare dec patch base)"
proof -
  have err: "list_ex (prefix ''error:'') (de_notes (compareObs dec a b)) \<or> de_status (compareObs dec a b) = ''incomplete''
     \<longleftrightarrow> de_status (compareObs dec a b) = ''incomplete''" for a b
    by (auto simp: compareObs_def Let_def jsonNotes_def split: option.splits if_splits)
  have sym: "list_ex (\<lambda>d. de_status d = v) (map2 (compareObs dec) xs ys) = list_ex (\<lambda>d. de_status d = v) (map2 (compareObs dec) ys xs)" for v xs ys
  proof (induction xs arbitrary: ys)
    case (Cons x xs)
    then show ?case by (cases ys) (simp_all add: compareObs_sym [of dec x])
  qed simp
  have inc: "list_ex (\<lambda>d. list_ex (prefix ''error:'') (de_notes d) \<or> de_status d = ''incomplete'') (map2 (compareObs dec) xs ys) =
      list_ex (\<lambda>d. de_status d = ''incomplete'') (map2 (compareObs dec) xs ys)" for xs ys
  proof (induction xs arbitrary: ys)
    case (Cons x xs)
    then show ?case by (cases ys) (simp_all add: err)
  qed simp
  show ?thesis
    unfolding Compare_def Let_def compare_report.simps inc
    using sym [of "''incomplete''" "re_steps base" "re_steps patch"] sym [of "''differ''" "re_steps base" "re_steps patch"] by auto
qed

text \<open>
  A workload derived from traces has at most twenty requests, all different, all with a safe method and a
  concrete path without traversal, user info, template or URL, and none carries a body or a header.
\<close>

lemma FromSpans_safe:
  "length (FromSpans spans) \<le> 20 \<and> distinct (map (\<lambda>s. st_method s @ '' '' @ st_path s) (FromSpans spans)) \<and>
   list_all derived_step (FromSpans spans)"
  using fromSpansLoop_length [of "[]" spans] fromSpansLoop_distinct [of "[]" spans] fromSpansLoop_derived [of "[]" spans]
  by (simp add: FromSpans_def maxSteps_def)

lemma bit_len_le: "m < 2 ^ l \<Longrightarrow> bit_len m \<le> l"
proof (induction l arbitrary: m)
  case 0
  then show ?case by (simp add: bit_len.simps)
next
  case (Suc l)
  have "m div 2 < 2 ^ l" using Suc.prems by simp
  from Suc.IH [OF this] show ?case by (simp add: bit_len.simps [of m])
qed

lemma round_even_bounds:
  "m div 2 ^ k \<le> round_even m k \<and> (m \<le> c * 2 ^ k \<longrightarrow> round_even m k \<le> c)"
proof -
  have "m div 2 ^ k + 1 \<le> c" if "m \<le> c * 2 ^ k" and "m mod 2 ^ k \<noteq> 0"
  proof -
    have "m = m div 2 ^ k * 2 ^ k + m mod 2 ^ k" by (rule div_mult_mod_eq [symmetric])
    with that have "m div 2 ^ k * 2 ^ k < c * 2 ^ k" by linarith
    then show ?thesis by simp
  qed
  moreover have "m div 2 ^ k \<le> c" if "m \<le> c * 2 ^ k"
    using div_le_mono [OF that, of "2 ^ k"] by simp
  moreover have "(0 :: nat) < 2 ^ (k - 1)" by simp
  ultimately show ?thesis unfolding round_even_def Let_def by (cases "k = 0") auto
qed

lemma f64_ceil_eq:
  assumes "j * 2 ^ 53 < x" and "x \<le> Suc j * 2 ^ 53"
  shows "f64_ceil x = Suc j"
  unfolding f64_ceil_def using assms by (intro div_nat_eqI) simp_all

text \<open>A double \<open>p\<close> just below \<open>c\<close> per cent gives the exact rank for any number of samples the code can hold.\<close>

lemma f64_rank:
  assumes p: "100 * p + d = c * 2 ^ 53" and d: "d \<le> 40" and c: "0 < c" "c \<le> 100" and n: "0 < n" "n \<le> 2 ^ 20"
  shows "f64_ceil (f64_mul p n) = (c * n + 99) div 100"
proof -
  define m where "m = p * n"
  define k where "k = bit_len m - 53"
  define x where "x = round_even m k * 2 ^ k"
  define j where "j = (c * n + 99) div 100 - 1"
  have cn: "0 < c * n" using c n by simp
  have j: "(c * n + 99) div 100 = Suc j" unfolding j_def using cn by (simp add: Suc_diff_1 div_greater_zero_iff)
  have jl: "100 * j + 1 \<le> c * n" "c * n \<le> 100 * Suc j"
    using div_mult_mod_eq [of "c * n + 99" 100] mod_less_divisor [of 100 "c * n + 99"] unfolding j by simp_all
  have m100: "100 * m + d * n = c * n * 2 ^ 53"
    using arg_cong [OF p, of "\<lambda>t. t * n"] by (simp add: m_def algebra_simps)
  have "100 * p \<le> 100 * 2 ^ 53" using p c by (simp add: mult_le_mono)
  then have "m \<le> 2 ^ 53 * 2 ^ 20" unfolding m_def by (intro mult_le_mono) (use n in simp_all)
  then have "m < 2 ^ 74" by simp
  then have k: "k \<le> 21" using bit_len_le [of m 74] by (simp add: k_def)
  have pow: "(2 :: nat) ^ k \<le> 2 ^ 21" "(2 :: nat) ^ 53 = 2 ^ (53 - k) * 2 ^ k"
    using k power_increasing [of k 21 "2 :: nat"] by (simp_all flip: power_add)
  have "100 * m \<le> 100 * (Suc j * 2 ^ 53)" using m100 jl by simp
  then have "m \<le> Suc j * 2 ^ 53" by (rule mult_left_le_imp_le) simp
  then have "m \<le> Suc j * 2 ^ (53 - k) * 2 ^ k" unfolding pow(2) mult.assoc .
  then have "round_even m k \<le> Suc j * 2 ^ (53 - k)" using round_even_bounds by blast
  then have up: "x \<le> Suc j * 2 ^ 53" unfolding x_def pow(2) mult.assoc [symmetric] by (rule mult_le_mono1)
  have "m div 2 ^ k * 2 ^ k \<le> x" unfolding x_def using round_even_bounds [of m k] by (intro mult_le_mono1) simp
  moreover have "m < m div 2 ^ k * 2 ^ k + 2 ^ k" 
    using mod_less_divisor [of "2 ^ k" m, OF zero_less_power] div_mult_mod_eq [of m "2 ^ k"] by linarith
  ultimately have "m < x + 2 ^ 21" using pow(1) by linarith
  moreover have "d * n \<le> 40 * 2 ^ 20" using d n by (intro mult_le_mono) simp_all
  moreover have "(100 * j + 1) * 2 ^ 53 \<le> c * n * 2 ^ 53" using jl by (intro mult_le_mono1)
  ultimately have "j * 2 ^ 53 < x" using m100 by simp
  from f64_ceil_eq [OF this up] show ?thesis
    by (simp add: j f64_mul_def x_def k_def m_def Let_def)
qed

lemma f64_ranks:
  assumes "0 < n" and "n \<le> 2 ^ 20"
  shows "f64_ceil (f64_mul f64_050 n) = (50 * n + 99) div 100"
    and "f64_ceil (f64_mul f64_095 n) = (95 * n + 99) div 100"
    and "f64_ceil (f64_mul f64_099 n) = (99 * n + 99) div 100"
  using f64_rank [of f64_050 0 50 n] f64_rank [of f64_095 40 95 n] f64_rank [of f64_099 8 99 n] assms
  by (simp_all add: f64_050_def f64_095_def f64_099_def)

lemma rank_index:
  assumes "f64_ceil (f64_mul p (length xs)) = k" and "1 \<le> k" and "k \<le> length xs"
  shows "rank xs p = xs ! (k - 1)"
  using assms by (auto simp: rank_def Let_def nat_diff_distrib)

text \<open>
  C37: For up to \<open>2^20\<close> samples the floating-point rank computation gives the exact
  nearest-rank statistics: the median is the sample of rank \<open>ceil(0.5 n)\<close>, the 95th and 99th percentiles those of rank
  \<open>ceil(0.95 n)\<close> and \<open>ceil(0.99 n)\<close>, present from twenty samples on.
\<close>

theorem Summarize_nearest_rank:
  assumes "0 < length samples" and "length samples \<le> 2 ^ 20"
  shows "su_n (Summarize samples) = int (length samples) \<and>
    su_min (Summarize samples) = sort_key sint samples ! 0 \<and>
    su_med (Summarize samples) = sort_key sint samples ! ((50 * length samples + 99) div 100 - 1) \<and>
    su_has_p95 (Summarize samples) = (20 \<le> length samples) \<and>
    (20 \<le> length samples \<longrightarrow>
       su_p95 (Summarize samples) = sort_key sint samples ! ((95 * length samples + 99) div 100 - 1) \<and>
       su_p99 (Summarize samples) = sort_key sint samples ! ((99 * length samples + 99) div 100 - 1))"
proof -
  let ?n = "length samples" and ?xs = "sort_key sint samples"
  note r = f64_ranks [OF assms]
  have "rank ?xs f64_050 = ?xs ! ((50 * ?n + 99) div 100 - 1)" "rank ?xs f64_095 = ?xs ! ((95 * ?n + 99) div 100 - 1)"
    "rank ?xs f64_099 = ?xs ! ((99 * ?n + 99) div 100 - 1)"
    using assms by (intro rank_index; simp add: r; linarith)+
  then show ?thesis using assms by (auto simp: Summarize_def Let_def no_summary_def minPercentileN_def)
qed

theorem Summarize_nearest_rank_witness:
  "su_med (Summarize [30, 10, 20]) = sort_key sint [30, 10, 20 :: int64] ! 1"
  using Summarize_nearest_rank [of "[30, 10, 20]"] by simp

text \<open>
  For medians below \<open>2^62\<close> nanoseconds the wrap-around arithmetic of \<open>Shifted\<close> is exact: a row is a latency shift
  precisely when both sides have samples and the patch median is more than twice the baseline median and at least
  five milliseconds above it.
\<close>

lemma Shifted_exact:
  assumes "0 \<le> sint (su_med (sl_baseline l))" and "sint (su_med (sl_baseline l)) < 2 ^ 62" and "0 \<le> sint (su_med (sl_patch l))"
  shows "Shifted l \<longleftrightarrow> su_n (sl_baseline l) \<noteq> 0 \<and> su_n (sl_patch l) \<noteq> 0 \<and>
    2 * sint (su_med (sl_baseline l)) < sint (su_med (sl_patch l)) \<and>
    5000000 \<le> sint (su_med (sl_patch l)) - sint (su_med (sl_baseline l))"
proof -
  let ?b = "su_med (sl_baseline l)" and ?p = "su_med (sl_patch l)"
  have p: "sint ?p < 2 ^ 63" using sint_lt [of ?p] by simp
  have "sint (2 * ?b) = 2 * sint ?b"
    using assms by (simp add: signed_take_bit_int_eq_self sint_word_ariths)
  moreover have "sint (?p - ?b) = sint ?p - sint ?b"
    using assms p by (simp add: signed_take_bit_int_eq_self sint_word_ariths)
  moreover have "sint (5000000 :: int64) = 5000000" by simp
  ultimately show ?thesis
    by (simp add: Shifted_def Let_def ShiftRatio_def ShiftMinNS_def word_sless_alt word_sle_eq)
qed

end
