(* ===== verification/Routes.thy ===== *)
theory Routes
  imports Go_Prelude
begin

text \<open>
  Route labels and their matching, \<open>internal/impact/routes.go\<close>, with the report types of
  \<open>internal/impact/analyze.go\<close> and \<open>files.go\<close> that the later stages read. A label is
  \<open>METHOD /template\<close>. The lemmas describe \<open>RouteMatches\<close> as segment-wise matching with single-segment wildcards.
\<close>

record finding =
  fi_via :: string
  fi_trace_id :: string
  fi_span_id :: string
  fi_entry_span_id :: string
  fi_name :: string
  fi_file :: string
  fi_source_id :: string
  fi_service :: string
  fi_path :: string
  fi_route :: string
  fi_line :: int
  fi_reason :: string
  fi_provenance :: string

text \<open>The zero value of a Go struct: every omitted field of a literal is empty.\<close>

definition no_finding :: finding where
  "no_finding = \<lparr>fi_via = [], fi_trace_id = [], fi_span_id = [], fi_entry_span_id = [], fi_name = [],
     fi_file = [], fi_source_id = [], fi_service = [], fi_path = [], fi_route = [], fi_line = 0,
     fi_reason = [], fi_provenance = []\<rparr>"

record route_trace_count =
  rtc_route :: string
  rtc_traces :: nat

record route_attribution =
  ra_route :: string
  ra_provenance :: string
  ra_via :: string

record impact_report =
  rp_trace_counts :: "route_trace_count list"
  rp_files :: "string list"
  rp_direct :: "finding list"
  rp_likely :: "finding list"
  rp_runtime :: "finding list"
  rp_unobserved :: "finding list"

record changes =
  ch_bound :: "string list"
  ch_unanalyzed :: "string list"

section \<open>Labels\<close>

text \<open>\<open>splitRoute\<close>: \<open>None\<close> is the result with \<open>ok = false\<close>.\<close>

definition splitRoute :: "string \<Rightarrow> (string \<times> string) option" where
  "splitRoute raw =
     (case cut CHR '' '' (trim_space raw) of
        None \<Rightarrow> None
      | Some (p0, p1) \<Rightarrow>
          (let method = to_upper (trim_space p0); path = before CHR ''?'' (trim_space p1)
           in if method = [] \<or> path = [] then None
              else Some (method, if prefix ''/'' path then path else ''/'' @ path)))"

definition isMethod :: "string \<Rightarrow> bool" where
  "isMethod m = (list_all is_upper m \<and> m \<noteq> [])"

definition replayLabel :: "finding \<Rightarrow> string option" where
  "replayLabel f =
     (let raw0 = trim_space (fi_route f);
          raw = (if raw0 = [] then trim_space (fi_name f) else raw0)
      in case splitRoute raw of
           None \<Rightarrow> None
         | Some (method, path) \<Rightarrow>
             if method \<notin> {''GET'', ''HEAD'', ''OPTIONS''} then None
             else if contains_any ''{}*'' path \<or> sublist ''..'' path then None
             else Some (method @ '' '' @ path))"

definition ReplayableRoutes :: "impact_report \<Rightarrow> string list" where
  "ReplayableRoutes rep = dedup (List.map_filter replayLabel (rp_runtime rep))"

text \<open>The body of the loop of \<open>RuntimeRoutes\<close>; the loop collects a set, which is sorted.\<close>

definition runtimeRoute :: "finding \<Rightarrow> string option" where
  "runtimeRoute f =
     (let raw0 = trim_space (fi_route f);
          raw = (if raw0 = [] then trim_space (fi_name f) else raw0)
      in case cut CHR '' '' raw of
           None \<Rightarrow> None
         | Some (_, p1) \<Rightarrow>
             if \<not> prefix ''/'' (trim_space p1) then None
             else (case splitRoute raw of
                     None \<Rightarrow> None
                   | Some (method, path) \<Rightarrow>
                       if \<not> isMethod method \<or> CHR '' '' \<in> set path then None
                       else Some (method @ '' '' @ path)))"

definition RuntimeRoutes :: "impact_report \<Rightarrow> string list" where
  "RuntimeRoutes rep = sort (remdups (List.map_filter runtimeRoute (rp_runtime rep)))"

section \<open>Matching\<close>

definition wildSegment :: "string \<Rightarrow> bool" where
  "wildSegment t = (prefix ''{'' t \<and> suffix ''}'' t \<or> prefix '':'' t)"

definition segmentMatches :: "string \<Rightarrow> string \<Rightarrow> bool" where
  "segmentMatches t p = (wildSegment t \<and> p \<noteq> [] \<or> t = p)"

definition pathSegments :: "string \<Rightarrow> string list" where
  "pathSegments path = split_on CHR ''/'' (trim_set ''/'' path)"

definition RouteMatches :: "string \<Rightarrow> string \<Rightarrow> string \<Rightarrow> bool" where
  "RouteMatches route method path =
     (case splitRoute route of
        None \<Rightarrow> False
      | Some (rm, tmpl) \<Rightarrow>
          equal_fold rm method \<and>
          (let ts = pathSegments tmpl; ps = pathSegments (before CHR ''?'' path)
           in length ts = length ps \<and> list_all2 segmentMatches ts ps))"

section \<open>Lemmas\<close>

lemma list_all2_refl_on: "(\<And>x. x \<in> set xs \<Longrightarrow> P x x) \<Longrightarrow> list_all2 P xs xs"
  by (induction xs) auto

lemma segmentMatches_refl [simp]: "segmentMatches t t"
  by (simp add: segmentMatches_def)

lemma equal_fold_refl [simp]: "equal_fold s s"
  by (simp add: equal_fold_def Let_def)

lemma equal_fold_trans: "equal_fold s t \<Longrightarrow> equal_fold t u \<Longrightarrow> equal_fold s u"
  by (simp add: equal_fold_def Let_def)

lemma equal_fold_sym: "equal_fold s t \<Longrightarrow> equal_fold t s"
  by (simp add: equal_fold_def Let_def)

lemma before_not_in [simp]: "c \<notin> set (before c s)"
  by (auto simp: before_def dest: set_takeWhileD)

lemma before_append_sep [simp]: "before c (s @ c # t) = before c s"
  by (induction s) (auto simp: before_def)

lemma before_id [simp]: "c \<notin> set s \<Longrightarrow> before c s = s"
  by (induction s) (auto simp: before_def)

lemma before_idem [simp]: "before c (before c s) = before c s"
  by simp

text \<open>A request's query string never decides whether it reaches a route.\<close>

lemma RouteMatches_query: "RouteMatches route method (path @ CHR ''?'' # q) = RouteMatches route method path"
  by (simp add: RouteMatches_def split: option.splits)

lemma RouteMatches_method:
  assumes "equal_fold m m'"
  shows "RouteMatches route m path = RouteMatches route m' path"
proof -
  have "equal_fold rm m = equal_fold rm m'" for rm
    using assms equal_fold_trans equal_fold_sym by blast
  then show ?thesis by (simp add: RouteMatches_def split: option.splits)
qed

lemma sorted_RuntimeRoutes: "sorted (RuntimeRoutes rep)"
  by (simp add: RuntimeRoutes_def)

lemma distinct_RuntimeRoutes: "distinct (RuntimeRoutes rep)"
  by (simp add: RuntimeRoutes_def)

lemma set_RuntimeRoutes: "set (RuntimeRoutes rep) = {r. \<exists>f \<in> set (rp_runtime rep). runtimeRoute f = Some r}"
  by (force simp: RuntimeRoutes_def List.map_filter_def)

text \<open>The label of a routed finding decides the route it contributes.\<close>

lemma runtimeRoute_label:
  assumes "runtimeRoute (no_finding\<lparr>fi_route := l\<rparr>) = Some r" and "fi_route f = l"
  shows "l \<noteq> [] \<and> runtimeRoute f = Some r"
proof -
  have "trim_space l \<noteq> []"
  proof
    assume "trim_space l = []"
    moreover have "cut CHR '' '' [] = None" by code_simp
    ultimately have "runtimeRoute (no_finding\<lparr>fi_route := l\<rparr>) = None" by (simp add: runtimeRoute_def no_finding_def Let_def)
    then show False using assms(1) by simp
  qed
  moreover from this have "runtimeRoute f = runtimeRoute (no_finding\<lparr>fi_route := l\<rparr>)"
    using assms(2) by (simp add: runtimeRoute_def Let_def cong: option.case_cong)
  ultimately show ?thesis using assms(1) by auto
qed

end
