(* ===== verification/Plan.thy ===== *)
theory Plan
  imports Replay Routes
begin

text \<open>
  The experiment plan and its execution, \<open>internal/plan\<close>: the DAG built from an impact report
  (\<open>plan.go\<close>), the execution of its steps and the overall verdict (\<open>run.go\<close>), the concurrency and
  fault probes (\<open>fault.go\<close>, with the target checks of \<open>internal/fault/proxy.go\<close>) and the impacted tests
  (\<open>tests.go\<close>). What lies outside the process is collected in the record \<open>exec_env\<close>: HTTP exchanges,
  the loopback listener, and the outcome of \<open>go test\<close>. The lemmas show that a generated DAG is well formed
  and characterise the overall verdict.
\<close>

section \<open>The DAG\<close>

record plan_step =
  ps_id :: string
  ps_kind :: string
  ps_required :: bool
  ps_operator :: bool
  ps_n :: int
  ps_status :: int
  ps_depends_on :: "string list"
  ps_reason :: string

record dag =
  dg_steps :: "plan_step list"
  dg_notes :: "string list"
  dg_module :: string
  dg_test_packages :: "string list"
  dg_health_path :: string

definition DefaultLatencyN :: int where
  "DefaultLatencyN = 20"

definition DefaultConcurrencyN :: int where
  "DefaultConcurrencyN = 8"

definition hasRuntime :: "impact_report \<Rightarrow> bool" where
  "hasRuntime rep = (rp_runtime rep \<noteq> [])"

definition FromImpact :: "impact_report \<Rightarrow> error + dag" where
  "FromImpact rep =
     (if rp_files rep = [] \<and> rp_direct rep = [] \<and> rp_likely rep = [] \<and> rp_runtime rep = [] \<and> rp_unobserved rep = []
      then Inl (Errorf ''plan: empty impact'')
      else (let steps =
                  [\<lparr>ps_id = ''env'', ps_kind = ''env'', ps_required = True, ps_operator = False, ps_n = 0,
                    ps_status = 0, ps_depends_on = [],
                    ps_reason = ''GET /healthz on baseline and patch; compose is a local shop path''\<rparr>,
                   \<lparr>ps_id = ''behavior'', ps_kind = ''behavior'', ps_required = True, ps_operator = False, ps_n = 0,
                    ps_status = 0, ps_depends_on = [''env''],
                    ps_reason = ''first-run status and json compare''\<rparr>,
                   \<lparr>ps_id = ''latency'', ps_kind = ''latency'', ps_required = True, ps_operator = False,
                    ps_n = DefaultLatencyN, ps_status = 0, ps_depends_on = [''env''],
                    ps_reason = ''successful-sample median; p95 withheld below 20; no regression threshold''\<rparr>];
                notes = [''not validated until required executable steps succeed on a clean recorded revision. match is not a pass.''];
                more =
                  [\<lparr>ps_id = ''concurrency'', ps_kind = ''concurrency'', ps_required = True, ps_operator = False,
                    ps_n = DefaultConcurrencyN, ps_status = 0, ps_depends_on = [''env''],
                    ps_reason = ''parallel replay error-rate compare; not a latency threshold''\<rparr>,
                   \<lparr>ps_id = ''fault_status'', ps_kind = ''fault_status'', ps_required = False, ps_operator = False,
                    ps_n = 0, ps_status = 502, ps_depends_on = [''env''],
                    ps_reason = ''one-sided 502 inject on patch via loopback proxy; probe, not a patch verdict''\<rparr>]
            in Inr (if hasRuntime rep
                    then \<lparr>dg_steps = steps @ more,
                          dg_notes = notes @ [''fault is a one-sided inject probe and does not vote overall''],
                          dg_module = [], dg_test_packages = [], dg_health_path = []\<rparr>
                    else \<lparr>dg_steps = steps,
                          dg_notes = notes @ [''concurrency and fault omitted: no observed runtime path''],
                          dg_module = [], dg_test_packages = [], dg_health_path = []\<rparr>)))"

definition WithLatencyN :: "dag \<Rightarrow> int \<Rightarrow> dag" where
  "WithLatencyN d n =
     (if n < 1 then d
      else d\<lparr>dg_steps := map (\<lambda>s. if ps_kind s = ''latency'' then s\<lparr>ps_n := n\<rparr> else s) (dg_steps d)\<rparr>)"

definition WithHealthPath :: "dag \<Rightarrow> string \<Rightarrow> dag" where
  "WithHealthPath d path0 =
     (let path = trim_space path0
      in if path = [] \<or> path = ''/healthz'' then d
         else d\<lparr>dg_health_path := path,
                dg_steps := map (\<lambda>s. if ps_kind s = ''env''
                  then s\<lparr>ps_reason := replace_all ''GET /healthz'' (''GET '' @ path) (ps_reason s)\<rparr> else s) (dg_steps d)\<rparr>)"

definition WithLocalEnv :: "dag \<Rightarrow> dag" where
  "WithLocalEnv d =
     d\<lparr>dg_steps := map (\<lambda>s. if ps_kind s \<noteq> ''env'' then s
         else s\<lparr>ps_operator := False,
                ps_reason := ''isolated shop pair started by aquila; GET /healthz; traces stay out of the live store''\<rparr>)
       (dg_steps d)\<rparr>"

definition hasKind :: "dag \<Rightarrow> string \<Rightarrow> bool" where
  "hasKind d kind = list_ex (\<lambda>s. ps_kind s = kind) (dg_steps d)"

definition replayRepeats :: "dag \<Rightarrow> int \<times> bool" where
  "replayRepeats d =
     fold (\<lambda>s (n, need).
         if ps_operator s then (n, need)
         else if ps_kind s = ''behavior'' then (n, True)
         else if ps_kind s = ''latency'' then (if ps_n s > n then ps_n s else n, True)
         else (n, need))
       (dg_steps d) (1, False)"

definition concurrencyN :: "dag \<Rightarrow> int \<times> bool" where
  "concurrencyN d =
     fold (\<lambda>s (n, need).
         if ps_operator s \<or> ps_kind s \<noteq> ''concurrency'' then (n, need)
         else (if ps_n s > 0 then ps_n s else n, True))
       (dg_steps d) (DefaultConcurrencyN, False)"

definition compareFirst :: "(string \<Rightarrow> json option) \<Rightarrow> result list \<Rightarrow> result list \<Rightarrow> compare_report" where
  "compareFirst dec base patch =
     (case (base, patch) of
        (b # _, p # _) \<Rightarrow> Compare dec b p
      | _ \<Rightarrow> \<lparr>cr_verdict = ''incomplete'', cr_steps = []\<rparr>)"

section \<open>Impacted tests\<close>

definition pathDir :: "string \<Rightarrow> string" where
  "pathDir p =
     (let tail = takeWhile (\<lambda>c. c \<noteq> CHR ''/'') (rev p)
      in if length tail = length p \<or> length p - length tail = 1 then ''.''
         else take (length p - length tail - 1) p)"

definition safeRel :: "string \<Rightarrow> bool" where
  "safeRel dir =
     (if dir = ''.'' \<or> dir = [] then True
      else \<not> (prefix ''/'' dir \<or> sublist ''..'' dir \<or> CHR 0x5C \<in> set dir))"

text \<open>
  \<open>testPackages\<close>; \<open>hasGo dir\<close> is \<open>hasGoFiles\<close> of the directory \<open>dir\<close> below the module root. Paths are
  slash-separated, so \<open>filepath.ToSlash\<close> is the identity.
\<close>

definition testPackage :: "(string \<Rightarrow> bool) \<Rightarrow> string \<Rightarrow> string option" where
  "testPackage hasGo p =
     (if \<not> suffix ''.go'' p \<or> sublist ''/testdata/'' p then None
      else (let dir = pathDir p
            in if \<not> safeRel dir then None
               else if \<not> hasGo dir then None
               else Some (if dir \<noteq> ''.'' \<and> dir \<noteq> [] then ''./'' @ dir else ''.'')))"

definition testPackages :: "(string \<Rightarrow> bool) \<Rightarrow> string list \<Rightarrow> string list" where
  "testPackages hasGo files = dedup (List.map_filter (testPackage hasGo) files)"

text \<open>\<open>WithTests\<close>: \<open>root\<close> is the absolute module directory, if it can be had, and \<open>gomod\<close> whether it holds a \<open>go.mod\<close>.\<close>

definition WithTests :: "dag \<Rightarrow> string option \<Rightarrow> bool \<Rightarrow> (string \<Rightarrow> bool) \<Rightarrow> string list \<Rightarrow> dag" where
  "WithTests d root gomod hasGo files =
     (case root of
        None \<Rightarrow> d
      | Some r \<Rightarrow>
          if \<not> gomod then d\<lparr>dg_notes := dg_notes d @ [''tests omitted: no go.mod'']\<rparr>
          else (let pkgs = testPackages hasGo files
                in if pkgs = [] then d\<lparr>dg_notes := dg_notes d @ [''tests omitted: no go packages in impact'']\<rparr>
                   else if hasKind d ''tests'' then d\<lparr>dg_module := r, dg_test_packages := pkgs\<rparr>
                   else d\<lparr>dg_steps := dg_steps d @
                            [\<lparr>ps_id = ''tests'', ps_kind = ''tests'', ps_required = True, ps_operator = False, ps_n = 0,
                              ps_status = 0, ps_depends_on = [],
                              ps_reason = ''go test of impact packages in the current module; not a two-revision compare''\<rparr>],
                          dg_notes := dg_notes d @ [''impacted tests are of the current module, not baseline vs patch''],
                          dg_module := r, dg_test_packages := pkgs\<rparr>))"

section \<open>Executing the DAG\<close>

record step_result =
  sr_id :: string
  sr_kind :: string
  sr_verdict :: string
  sr_notes :: "string list"
  sr_latency :: "step_latency list"
  sr_steps :: "delta list"

record evidence =
  ev_overall :: string
  ev_steps :: "step_result list"
  ev_notes :: "string list"

text \<open>The outcome of \<open>go test\<close>: success, canceled, a positive exit code, or another error.\<close>

datatype test_outcome = TestOK | TestCanceled | TestExit | TestError string

record exec_env =
  xe_net :: net_env
  xe_dec :: "string \<Rightarrow> json option"
  xe_get :: "string \<Rightarrow> exchange"
  xe_repeat :: "nat \<Rightarrow> string \<Rightarrow> replay_step \<Rightarrow> exchange"
  xe_burst :: "nat \<Rightarrow> string \<Rightarrow> replay_step \<Rightarrow> exchange"
  xe_probe :: "string \<Rightarrow> replay_step \<Rightarrow> exchange"
  xe_listen :: "error + string"
  xe_go_test :: "string \<Rightarrow> string list \<Rightarrow> test_outcome \<times> string"
  xe_ms :: "int64 \<Rightarrow> string"

definition mk_result :: "string \<Rightarrow> string \<Rightarrow> string \<Rightarrow> string list \<Rightarrow> step_result" where
  "mk_result i k v notes = \<lparr>sr_id = i, sr_kind = k, sr_verdict = v, sr_notes = notes, sr_latency = [], sr_steps = []\<rparr>"

definition clipBytes :: "string \<Rightarrow> nat \<Rightarrow> string" where
  "clipBytes raw n = (let s = trim_space raw in if length s \<le> n then s else take n s)"

definition runTests :: "exec_env \<Rightarrow> dag \<Rightarrow> step_result" where
  "runTests X d =
     (if trim_space (dg_module d) = [] \<or> dg_test_packages d = []
      then mk_result ''tests'' ''tests'' ''incomplete'' [''no test packages'']
      else if list_ex (\<lambda>p. p \<noteq> ''.'' \<and> \<not> prefix ''./'' p \<or> sublist ''..'' p) (dg_test_packages d)
      then mk_result ''tests'' ''tests'' ''incomplete'' [''invalid package'']
      else (case xe_go_test X (dg_module d) (dg_test_packages d) of
              (outcome, buf) \<Rightarrow>
                (let note = clipBytes buf 512
                 in case outcome of
                      TestOK \<Rightarrow> mk_result ''tests'' ''tests'' ''prepared'' [''go test'']
                    | TestCanceled \<Rightarrow> mk_result ''tests'' ''tests'' ''incomplete'' [''tests canceled'']
                    | TestExit \<Rightarrow> mk_result ''tests'' ''tests'' ''differ'' [note]
                    | TestError e \<Rightarrow> mk_result ''tests'' ''tests'' ''incomplete'' [if note \<noteq> [] then note else e])))"

definition burstErrors :: "result list \<Rightarrow> int \<times> int" where
  "burstErrors runs =
     (let obs = concat (map re_steps runs)
      in (int (length (filter (\<lambda>s. ob_err s \<noteq> [] \<or> ob_status s \<ge> 500 \<or> ob_status s = 0) obs)), int (length obs)))"

definition compareBurst :: "result list \<Rightarrow> result list \<Rightarrow> step_result" where
  "compareBurst base patch =
     (if base = [] \<or> patch = [] then mk_result ''concurrency'' ''concurrency'' ''incomplete'' [''no samples'']
      else (let (be, bn) = burstErrors base; (pe, pn) = burstErrors patch
            in if bn = 0 \<or> pn = 0 then mk_result ''concurrency'' ''concurrency'' ''incomplete'' [''no observations'']
               else (let note = ''baseline_errors='' @ itoa be @ ''/'' @ itoa bn @ '' patch_errors='' @ itoa pe @ ''/'' @ itoa pn
                     in if pe > be then mk_result ''concurrency'' ''concurrency'' ''differ'' [note, ''patch errors more under concurrency'']
                        else if pe < be then mk_result ''concurrency'' ''concurrency'' ''differ'' [note, ''patch errors less under concurrency'']
                        else mk_result ''concurrency'' ''concurrency'' ''match'' [note])))"

definition probeStep :: "workload \<Rightarrow> replay_step" where
  "probeStep w =
     (case find (\<lambda>s. to_upper (trim_space (st_method s)) \<in> {''GET'', ''HEAD'', ''OPTIONS''}) w of
        Some s \<Rightarrow> s
      | None \<Rightarrow> (case w of s # _ \<Rightarrow> s
                 | [] \<Rightarrow> \<lparr>st_method = ''GET'', st_path = ''/healthz'', st_body = [], st_headers = [],
                         st_provenance = [], st_service = []\<rparr>))"

text \<open>The checks of \<open>fault.Handler\<close> for a specification without delay.\<close>

definition handlerCheck :: "net_env \<Rightarrow> string \<Rightarrow> int \<Rightarrow> error option" where
  "handlerCheck E target status =
     (let raw0 = trim_space target
      in if raw0 = [] then Some (Errorf ''fault: empty target'')
         else (let raw = (if sublist ''://'' raw0 then raw0 else ''http://'' @ raw0)
               in case parse_url E raw of
                    None \<Rightarrow> Some (Errorf ''fault: target'')
                  | Some u \<Rightarrow>
                      if u_scheme u \<noteq> ''http'' \<and> u_scheme u \<noteq> ''https'' then Some (Errorf ''fault: target must be http or https'')
                      else if u_host u = [] then Some (Errorf ''fault: target missing host'')
                      else if u_user u \<noteq> None then Some (Errorf ''fault: target must not include userinfo'')
                      else if status < 0 \<or> status > 599 then Some (Errorf ''fault: status out of range'')
                      else if CheckURL E (url_string E u) \<noteq> None then Some (Errorf ''fault: netguard'')
                      else None))"

definition probeFault :: "exec_env \<Rightarrow> plan_step \<Rightarrow> string \<Rightarrow> string \<Rightarrow> workload \<Rightarrow> step_result" where
  "probeFault X s base patch w =
     (let status = (if ps_status s < 1 then 502 else ps_status s);
          step = probeStep w;
          out = (\<lambda>v n. mk_result (ps_id s) (ps_kind s) v [n])
      in case handlerCheck (xe_net X) patch status of
           Some (Errorf e) \<Rightarrow> out ''incomplete'' e
         | None \<Rightarrow>
             (case xe_listen X of
                Inl (Errorf e) \<Rightarrow> out ''incomplete'' e
              | Inr adr \<Rightarrow>
                  (case Run (xe_net X) (xe_probe X) (''http://'' @ adr) [step] of
                     Inl (Errorf e) \<Rightarrow> out ''incomplete'' e
                   | Inr injected \<Rightarrow>
                       (case Run (xe_net X) (xe_probe X) base [step] of
                          Inl (Errorf e) \<Rightarrow> out ''incomplete'' e
                        | Inr baseRun \<Rightarrow>
                            if re_steps injected = [] \<or> ob_status (hd (re_steps injected)) \<noteq> status
                            then out ''incomplete'' ''inject did not return the requested status''
                            else if re_steps baseRun = [] \<or> ob_err (hd (re_steps baseRun)) \<noteq> [] \<or>
                                    ob_status (hd (re_steps baseRun)) = status
                            then out ''incomplete'' ''baseline also failed; inject is not distinguishable''
                            else out ''prepared'' (''one-sided '' @ itoa status)))))"

record exec_data =
  xd_env_err :: "error option"
  xd_base :: "result list"
  xd_patch :: "result list"
  xd_base_burst :: "result list"
  xd_patch_burst :: "result list"
  xd_tests :: step_result
  xd_fault :: "string \<rightharpoonup> step_result"

definition routePath :: "string \<Rightarrow> string" where
  "routePath p = before CHR ''?'' p"

definition hasSamples :: "step_latency list \<Rightarrow> bool" where
  "hasSamples lat = list_ex (\<lambda>s. su_n (sl_baseline s) > 0 \<or> su_n (sl_patch s) > 0) lat"

definition behaviorNote :: "delta \<Rightarrow> string" where
  "behaviorNote d =
     de_method d @ '' '' @ routePath (de_path d) @ '' '' @ itoa (de_baseline_status d) @ ''/'' @
     itoa (de_patch_status d) @ '' '' @ join '','' (de_notes d) @
     (if AuthRejected d then '': handler did not run; check workload headers'' else [])"

definition shiftNote :: "exec_env \<Rightarrow> step_latency \<Rightarrow> string" where
  "shiftNote X l =
     ''latency_shift '' @ sl_method l @ '' '' @ routePath (sl_path l) @ '' median '' @ xe_ms X (su_med (sl_baseline l)) @
     ''ms -> '' @ xe_ms X (su_med (sl_patch l)) @ ''ms (> 2x and >= 5ms slower); blocks validated''"

definition evalStep :: "exec_env \<Rightarrow> exec_data \<Rightarrow> plan_step \<Rightarrow> step_result" where
  "evalStep X data s =
     (let out = mk_result (ps_id s) (ps_kind s)
      in if ps_kind s = ''env'' \<and> \<not> ps_operator s
         then (case xd_env_err data of Some (Errorf e) \<Rightarrow> out ''incomplete'' [e] | None \<Rightarrow> out ''prepared'' [''healthz''])
         else if ps_operator s then out ''skipped'' [''operator'']
         else if ps_kind s = ''behavior''
         then (let rep = compareFirst (xe_dec X) (xd_base data) (xd_patch data)
               in (out (cr_verdict rep) (map behaviorNote (filter (\<lambda>d. de_notes d \<noteq> []) (cr_steps rep))))
                    \<lparr>sr_steps := cr_steps rep\<rparr>)
         else if ps_kind s = ''latency''
         then (if xd_base data = [] \<or> xd_patch data = [] then out ''incomplete'' [''no samples'']
               else (let lat = Latency (xd_base data) (xd_patch data)
                     in if \<not> hasSamples lat then (out ''incomplete'' [''no successful samples''])\<lparr>sr_latency := lat\<rparr>
                        else (out ''samples'' (map (shiftNote X) (filter Shifted lat)))\<lparr>sr_latency := lat\<rparr>))
         else if ps_kind s = ''concurrency''
         then (compareBurst (xd_base_burst data) (xd_patch_burst data))\<lparr>sr_id := ps_id s\<rparr>
         else if ps_kind s = ''tests'' then (xd_tests data)\<lparr>sr_id := ps_id s, sr_kind := ''tests''\<rparr>
         else if ps_kind s = ''fault_status''
         then (case xd_fault data (ps_id s) of Some got \<Rightarrow> got | None \<Rightarrow> out ''incomplete'' [''fault not executed''])
         else out ''incomplete'' [''unknown step''])"

text \<open>The loop of \<open>overall\<close> with its variables \<open>incomplete\<close>, \<open>differ\<close> and \<open>executed\<close>.\<close>

fun overallLoop :: "step_result list \<Rightarrow> bool \<Rightarrow> bool \<Rightarrow> nat \<Rightarrow> string" where
  "overallLoop [] incomplete differ executed =
     (if executed = 0 then ''incomplete''
      else if incomplete then ''incomplete'' else if differ then ''differ'' else ''match'')"
| "overallLoop (s # ss) incomplete differ executed =
     (if sr_kind s = ''env'' \<and> sr_verdict s = ''incomplete'' then ''incomplete''
      else if sr_verdict s = ''skipped'' then overallLoop ss incomplete differ executed
      else if sr_kind s = ''env'' \<or> sr_kind s = ''fault_status'' then overallLoop ss incomplete differ executed
      else if sr_kind s = ''latency''
      then overallLoop ss (incomplete \<or> sr_verdict s = ''incomplete'') differ (Suc executed)
      else overallLoop ss (incomplete \<or> sr_verdict s = ''incomplete'') (differ \<or> sr_verdict s = ''differ'') (Suc executed))"

definition Overall :: "step_result list \<Rightarrow> string" where
  "Overall steps = overallLoop steps False False 0"

definition probeEnv :: "exec_env \<Rightarrow> dag \<Rightarrow> string \<Rightarrow> string \<Rightarrow> error option" where
  "probeEnv X d base patch =
     (if list_ex (\<lambda>s. ps_kind s = ''env'' \<and> \<not> ps_operator s) (dg_steps d)
      then HealthzPath (xe_net X) (xe_get X) base patch (dg_health_path d) else None)"

text \<open>Both replays of a pair, or the first error; skipped unless \<open>wanted\<close>.\<close>

definition both :: "bool \<Rightarrow> error + 'a list \<Rightarrow> error + 'a list \<Rightarrow> error + ('a list \<times> 'a list)" where
  "both wanted a b =
     (if \<not> wanted then Inr ([], [])
      else (case a of Inl e \<Rightarrow> Inl e | Inr x \<Rightarrow> (case b of Inl e \<Rightarrow> Inl e | Inr y \<Rightarrow> Inr (x, y))))"

definition Execute :: "exec_env \<Rightarrow> dag \<Rightarrow> string \<Rightarrow> string \<Rightarrow> workload \<Rightarrow> error + evidence" where
  "Execute X d base patch w =
     (case parseTarget (xe_net X) base of
        Inl e \<Rightarrow> Inl e
      | Inr _ \<Rightarrow>
     (case parseTarget (xe_net X) patch of
        Inl e \<Rightarrow> Inl e
      | Inr _ \<Rightarrow>
     (let (n, needReplay) = replayRepeats d; (cn, needBurst) = concurrencyN d
      in if (needReplay \<or> needBurst) \<and> w = [] then Inl (Errorf ''plan: empty workload'')
         else (let envErr = probeEnv X d base patch
      in case both (envErr = None \<and> needReplay) (Repeat (xe_net X) (xe_repeat X) base w n)
                   (Repeat (xe_net X) (xe_repeat X) patch w n) of
           Inl e \<Rightarrow> Inl e
         | Inr (rb, rp) \<Rightarrow>
      (case both (envErr = None \<and> needBurst) (Burst (xe_net X) (xe_burst X) base w cn)
                 (Burst (xe_net X) (xe_burst X) patch w cn) of
           Inl e \<Rightarrow> Inl e
         | Inr (bb, bp) \<Rightarrow>
      (let data = \<lparr>xd_env_err = envErr, xd_base = rb, xd_patch = rp, xd_base_burst = bb, xd_patch_burst = bp,
                   xd_tests = (if hasKind d ''tests'' then runTests X d else mk_result [] [] [] []),
                   xd_fault = fold (\<lambda>s m. if ps_kind s = ''fault_status'' \<and> \<not> ps_operator s
                      then m(ps_id s \<mapsto> probeFault X s base patch w) else m) (dg_steps d) Map.empty\<rparr>;
           steps = map (evalStep X data) (dg_steps d)
       in Inr \<lparr>ev_overall = Overall steps, ev_steps = steps, ev_notes = dg_notes d\<rparr>))))))"

section \<open>The overall verdict\<close>

text \<open>The steps that vote: executed ones other than the health probe and the fault probe.\<close>

definition votes :: "step_result \<Rightarrow> bool" where
  "votes s = (sr_verdict s \<noteq> ''skipped'' \<and> sr_kind s \<noteq> ''env'' \<and> sr_kind s \<noteq> ''fault_status'')"

definition healthFailed :: "step_result \<Rightarrow> bool" where
  "healthFailed s = (sr_kind s = ''env'' \<and> sr_verdict s = ''incomplete'')"

lemma overallLoop_Cons:
  "overallLoop (s # ss) i d n =
     (if healthFailed s then ''incomplete''
      else if votes s
      then overallLoop ss (i \<or> sr_verdict s = ''incomplete'') (d \<or> (sr_kind s \<noteq> ''latency'' \<and> sr_verdict s = ''differ'')) (Suc n)
      else overallLoop ss i d n)"
  unfolding votes_def healthFailed_def by simp

lemma overallLoop_spec:
  "overallLoop ss i d n =
     (if list_ex healthFailed ss \<or> (n = 0 \<and> \<not> list_ex votes ss) \<or>
         i \<or> list_ex (\<lambda>s. votes s \<and> sr_verdict s = ''incomplete'') ss then ''incomplete''
      else if d \<or> list_ex (\<lambda>s. votes s \<and> sr_kind s \<noteq> ''latency'' \<and> sr_verdict s = ''differ'') ss then ''differ''
      else ''match'')"
proof (induction ss arbitrary: i d n)
  case (Cons s ss)
  show ?case unfolding overallLoop_Cons Cons.IH
    by (cases "healthFailed s"; cases "votes s") simp_all
qed simp

text \<open>
  The overall verdict is \<open>incomplete\<close> when the health probe failed, nothing voted or a voting step is incomplete,
  else \<open>differ\<close> when a voting step other than latency differs, and \<open>match\<close> otherwise; fault probes and skipped steps
  never vote, and latency votes only by being incomplete.
\<close>

lemma Overall_spec:
  "Overall ss =
     (if list_ex healthFailed ss \<or> list_all (\<lambda>s. \<not> votes s) ss \<or>
         list_ex (\<lambda>s. votes s \<and> sr_verdict s = ''incomplete'') ss then ''incomplete''
      else if list_ex (\<lambda>s. votes s \<and> sr_kind s \<noteq> ''latency'' \<and> sr_verdict s = ''differ'') ss then ''differ''
      else ''match'')"
proof -
  have "list_all (\<lambda>s. \<not> votes s) ss = (\<not> list_ex votes ss)" by (simp add: list_all_iff list_ex_iff)
  then show ?thesis by (simp add: Overall_def overallLoop_spec)
qed

section \<open>The results of an execution\<close>

lemma mk_result_simps [simp]:
  "sr_id (mk_result i k v n) = i" "sr_kind (mk_result i k v n) = k" "sr_verdict (mk_result i k v n) = v"
  "sr_notes (mk_result i k v n) = n" "sr_latency (mk_result i k v n) = []" "sr_steps (mk_result i k v n) = []"
  by (simp_all add: mk_result_def)

lemma compareBurst_kind [simp]: "sr_kind (compareBurst b p) = ''concurrency''"
  by (simp add: compareBurst_def Let_def split: prod.splits)

text \<open>A result answers a step of the plan when it carries its id and kind.\<close>

definition answers :: "plan_step \<Rightarrow> step_result \<Rightarrow> bool" where
  "answers s r = (sr_id r = ps_id s \<and> sr_kind r = ps_kind s)"

lemma answers_intros:
  "answers s (mk_result (ps_id s) (ps_kind s) v n)"
  "answers s r \<Longrightarrow> answers s (r\<lparr>sr_steps := ds\<rparr>)"
  "answers s r \<Longrightarrow> answers s (r\<lparr>sr_latency := ls\<rparr>)"
  "(c \<Longrightarrow> answers s a) \<Longrightarrow> (\<not> c \<Longrightarrow> answers s b) \<Longrightarrow> answers s (if c then a else b)"
  "(z = None \<Longrightarrow> answers s a) \<Longrightarrow> (\<And>x. z = Some x \<Longrightarrow> answers s (f x)) \<Longrightarrow> answers s (case_option a f z)"
  "(\<And>x. answers s (g x)) \<Longrightarrow> (\<And>x. answers s (h x)) \<Longrightarrow> answers s (case_sum g h y)"
  "(\<And>x. answers s (k x)) \<Longrightarrow> answers s (case_error k e)"
  by (simp_all add: answers_def split: option.split sum.split error.split)

lemma probeFault_answers: "answers s (probeFault X s b p w)"
  unfolding probeFault_def Let_def by (intro answers_intros)

definition faults_ok :: "(string \<rightharpoonup> step_result) \<Rightarrow> bool" where
  "faults_ok m = (\<forall>i r. m i = Some r \<longrightarrow> sr_id r = i \<and> sr_kind r = ''fault_status'')"

lemma faults_ok_fold:
  "faults_ok m \<Longrightarrow> faults_ok (fold (\<lambda>s m. if ps_kind s = ''fault_status'' \<and> \<not> ps_operator s
      then m(ps_id s \<mapsto> probeFault X s b p w) else m) ss m)"
proof (induction ss arbitrary: m)
  case (Cons s ss)
  have "faults_ok (if ps_kind s = ''fault_status'' \<and> \<not> ps_operator s then m(ps_id s \<mapsto> probeFault X s b p w) else m)"
    using Cons.prems probeFault_answers [of s X b p w] by (simp add: faults_ok_def answers_def)
  then show ?case unfolding fold_simps by (rule Cons.IH)
qed simp

lemma evalStep_answers:
  assumes "faults_ok (xd_fault data)"
  shows "answers s (evalStep X data s)"
  unfolding evalStep_def Let_def
  by (intro answers_intros) (use assms in \<open>simp_all add: answers_def faults_ok_def\<close>)

text \<open>The data an execution works with: the health probe and, if it passed, the replays the plan asks for.\<close>

definition gathered :: "exec_env \<Rightarrow> dag \<Rightarrow> string \<Rightarrow> string \<Rightarrow> workload \<Rightarrow> exec_data \<Rightarrow> bool" where
  "gathered X d base patch w data =
     (xd_env_err data = probeEnv X d base patch \<and>
      both (xd_env_err data = None \<and> snd (replayRepeats d)) (Repeat (xe_net X) (xe_repeat X) base w (fst (replayRepeats d)))
        (Repeat (xe_net X) (xe_repeat X) patch w (fst (replayRepeats d))) = Inr (xd_base data, xd_patch data) \<and>
      both (xd_env_err data = None \<and> snd (concurrencyN d)) (Burst (xe_net X) (xe_burst X) base w (fst (concurrencyN d)))
        (Burst (xe_net X) (xe_burst X) patch w (fst (concurrencyN d))) = Inr (xd_base_burst data, xd_patch_burst data) \<and>
      xd_tests data = (if hasKind d ''tests'' then runTests X d else mk_result [] [] [] []) \<and>
      faults_ok (xd_fault data))"

lemma Execute_Inr:
  assumes "Execute X d base patch w = Inr ev"
  obtains data where "gathered X d base patch w data" and "ev_steps ev = map (evalStep X data) (dg_steps d)"
    and "ev_overall ev = Overall (ev_steps ev)" and "ev_notes ev = dg_notes d"
proof -
  have e: "faults_ok Map.empty" by (simp add: faults_ok_def)
  show thesis
    using assms faults_ok_fold [OF e, of X base patch w "dg_steps d"]
    unfolding Execute_def Let_def
    by (auto simp: gathered_def split: sum.splits prod.splits if_splits
        intro!: that [of "\<lparr>xd_env_err = probeEnv X d base patch, xd_base = _, xd_patch = _, xd_base_burst = _,
          xd_patch_burst = _, xd_tests = _, xd_fault = _\<rparr>"])
qed

end
