(* ===== verification/Validate.thy ===== *)
theory Validate
  imports Plan
begin

text \<open>
  The validation policy, \<open>internal/validate/decide.go\<close>, with the revision record of
  \<open>internal/gitrev/snapshot.go\<close>. \<open>Decide\<close> collects blockers in policy order; the lemmas turn the empty
  blocker list into the conditions a change must meet to be called validated.
\<close>

record revision =
  rev_commit :: string
  rev_tree :: string
  rev_path :: string
  rev_dirty :: bool
  rev_source :: string

record blocker =
  bl_code :: string
  bl_subject :: string

record decision =
  dn_coverage_basis :: string
  dn_validated :: bool
  dn_blockers :: "blocker list"

record decide_input =
  in_attributions :: "route_attribution list"
  in_baseline_rev :: revision
  in_patch_rev :: revision
  in_baseline :: string
  in_patch :: string
  in_plan :: dag
  in_result :: evidence
  in_impacted :: "string list"
  in_workload :: workload
  in_changes :: changes

definition mk_blocker :: "string \<Rightarrow> string \<Rightarrow> blocker" where
  "mk_blocker code subject = \<lparr>bl_code = code, bl_subject = subject\<rparr>"

definition blocker_string :: "blocker \<Rightarrow> string" where
  "blocker_string b = (if bl_subject b = [] then bl_code b else bl_code b @ '':'' @ bl_subject b)"

definition Legacy :: decision where
  "Legacy = \<lparr>dn_coverage_basis = [], dn_validated = False, dn_blockers = [mk_blocker ''legacy_schema'' []]\<rparr>"

definition minLatencyN :: int where
  "minLatencyN = 20"

definition coreKinds :: "string list" where
  "coreKinds = [''env'', ''behavior'', ''latency'', ''concurrency'']"

definition sortedBlockers :: "blocker list \<Rightarrow> blocker list" where
  "sortedBlockers = sort_key (\<lambda>b. (bl_subject b, bl_code b))"

text \<open>\<open>net.JoinHostPort\<close> and \<open>normURL\<close>.\<close>

definition joinHostPort :: "string \<Rightarrow> string \<Rightarrow> string" where
  "joinHostPort host port =
     (if CHR '':'' \<in> set host then ''['' @ host @ '']:'' @ port else host @ '':'' @ port)"

definition normURL :: "net_env \<Rightarrow> string \<Rightarrow> string" where
  "normURL E raw =
     (case parse_url E (trim_space raw) of
        None \<Rightarrow> trim_right_set ''/'' raw
      | Some u \<Rightarrow>
          (let scheme = to_lower (u_scheme u);
               host0 = to_lower (url_hostname u);
               host = (if host0 \<in> {''localhost'', ''127.0.0.1'', ''::1''} then ''127.0.0.1'' else host0);
               port0 = url_port u;
               port = (if scheme = ''http'' \<and> port0 = ''80'' \<or> scheme = ''https'' \<and> port0 = ''443'' then [] else port0);
               newHost = (if port \<noteq> [] then joinHostPort host port
                          else if CHR '':'' \<in> set host then ''['' @ host @ '']'' else host)
           in trim_right_set ''/'' (url_string E (u\<lparr>u_scheme := scheme, u_host := newHost\<rparr>))))"

definition targetBlockers :: "net_env \<Rightarrow> decide_input \<Rightarrow> blocker list" where
  "targetBlockers E i =
     sortedBlockers (
       (if trim_space (in_baseline i) = [] then [mk_blocker ''missing_target'' ''baseline''] else []) @
       (if trim_space (in_patch i) = [] then [mk_blocker ''missing_target'' ''patch''] else []) @
       (if in_baseline i \<noteq> [] \<and> in_patch i \<noteq> [] \<and> normURL E (in_baseline i) = normURL E (in_patch i)
        then [mk_blocker ''same_target'' (normURL E (in_baseline i))] else []))"

text \<open>
  \<open>duplicateBlockers\<close>: the map of counts is represented by its keys in order of first insertion; the result is
  sorted and its subjects are distinct, so that the iteration order of the map does not show.
\<close>

definition duplicateBlockers :: "decide_input \<Rightarrow> blocker list" where
  "duplicateBlockers i =
     (let planKinds = map ps_kind (dg_steps (in_plan i));
          resultKinds = map sr_kind (ev_steps (in_result i))
      in sortedBlockers (map (mk_blocker ''duplicate_step'')
           (filter (\<lambda>k. count_list planKinds k > 1 \<or> count_list resultKinds k > 1)
              (dedup (planKinds @ resultKinds)))))"

definition latencyN :: "step_result \<Rightarrow> int" where
  "latencyN got =
     (case map (\<lambda>l. min (su_n (sl_baseline l)) (su_n (sl_patch l))) (sr_latency got) of
        [] \<Rightarrow> 0
      | n # ns \<Rightarrow> fold (\<lambda>m acc. if m < acc then m else acc) ns n)"

definition stepOK :: "string \<Rightarrow> step_result \<Rightarrow> bool" where
  "stepOK kind got =
     (let v = to_lower (trim_space (sr_verdict got))
      in if kind = ''env'' \<or> kind = ''tests'' then v = ''prepared''
         else if kind = ''behavior'' \<or> kind = ''concurrency'' then v = ''match''
         else if kind = ''latency'' then
           \<not> (v \<noteq> ''samples'' \<or> latencyN got < minLatencyN) \<and> \<not> list_ex Shifted (sr_latency got)
         else v = ''match'' \<or> v = ''samples'' \<or> v = ''prepared'')"

definition latencyBlockers :: "step_result \<Rightarrow> blocker list" where
  "latencyBlockers step =
     (if latencyN step < minLatencyN then [mk_blocker ''latency_n'' (itoa (latencyN step))] else []) @
     map (\<lambda>row. mk_blocker ''latency_shift'' (sl_method row @ '' '' @ sl_path row)) (filter Shifted (sr_latency step))"

definition kindBlockers :: "step_result list \<Rightarrow> string \<Rightarrow> blocker list" where
  "kindBlockers results kind =
     (let same = filter (\<lambda>step. sr_kind step = kind) results
      in (if kind = ''latency'' then concat (map latencyBlockers same) else []) @
         (if same = [] then [mk_blocker ''step_missing'' kind]
          else if list_ex (\<lambda>step. \<not> stepOK kind step) same then [mk_blocker ''step_failed'' kind] else []))"

definition stepBlockers :: "string list \<Rightarrow> step_result list \<Rightarrow> blocker list" where
  "stepBlockers kinds results = sortedBlockers (concat (map (kindBlockers results) kinds))"

definition requiredKinds :: "dag \<Rightarrow> string list" where
  "requiredKinds d =
     fold (\<lambda>step kinds. if ps_required step \<and> \<not> ps_operator step \<and> ps_kind step \<notin> set coreKinds \<and> ps_kind step \<notin> set kinds
                        then kinds @ [ps_kind step] else kinds) (dg_steps d) []"

definition requiredStepBlockers :: "decide_input \<Rightarrow> blocker list" where
  "requiredStepBlockers i = stepBlockers (requiredKinds (in_plan i)) (ev_steps (in_result i))"

definition changeBlockers :: "decide_input \<Rightarrow> blocker list" where
  "changeBlockers i =
     sortedBlockers (map (mk_blocker ''unanalyzed_change'') (ch_unanalyzed (in_changes i)) @
       (if ch_bound (in_changes i) = [] then [mk_blocker ''no_function_binding'' []]
        else if in_impacted i = [] then [mk_blocker ''no_runtime_route'' []] else []))"

text \<open>\<open>Covered\<close>: the set \<open>answered\<close> as the list of its insertions.\<close>

definition answeredKeys :: "evidence \<Rightarrow> string list" where
  "answeredKeys res =
     concat (map (\<lambda>s. if sr_kind s \<noteq> ''behavior'' then []
         else map (\<lambda>d. de_method d @ '' '' @ de_path d)
                (filter (\<lambda>d. \<not> (de_baseline_status d = 0 \<or> de_patch_status d = 0 \<or> AuthRejected d)) (sr_steps s)))
       (ev_steps res))"

definition Covered :: "string list \<Rightarrow> workload \<Rightarrow> evidence \<Rightarrow> bool" where
  "Covered impacted work res =
     list_ex (\<lambda>st. st_method st @ '' '' @ st_path st \<in> set (answeredKeys res) \<and>
                   list_ex (\<lambda>route. RouteMatches route (st_method st) (st_path st)) impacted) work"

definition coverageBlockers :: "decide_input \<Rightarrow> blocker list" where
  "coverageBlockers i =
     sortedBlockers (map (mk_blocker ''route_missed'')
       (filter (\<lambda>route. \<not> Covered [route] (in_workload i) (in_result i)) (in_impacted i)))"

definition routeObserved :: "route_attribution list \<Rightarrow> string \<Rightarrow> bool" where
  "routeObserved as route =
     list_ex (\<lambda>a. ra_route a = route \<and> (ra_provenance a = ''trace_entry'' \<or> ra_provenance a = ''code_attrs'')) as"

definition routeInferred :: "route_attribution list \<Rightarrow> string \<Rightarrow> bool" where
  "routeInferred as route = list_ex (\<lambda>a. ra_route a = route \<and> ra_provenance a = ''trace_entry_caller'') as"

fun basisLoop :: "decide_input \<Rightarrow> string list \<Rightarrow> string \<Rightarrow> string" where
  "basisLoop i [] basis = basis"
| "basisLoop i (route # rs) basis =
     (if \<not> Covered [route] (in_workload i) (in_result i) then basisLoop i rs basis
      else if routeInferred (in_attributions i) route \<and> \<not> routeObserved (in_attributions i) route then ''inferred''
      else basisLoop i rs (if routeObserved (in_attributions i) route then ''observed'' else basis))"

definition coverageBasis :: "decide_input \<Rightarrow> string" where
  "coverageBasis i = basisLoop i (in_impacted i) []"

definition CoverageNote :: "decision \<Rightarrow> string" where
  "CoverageNote d =
     (if dn_coverage_basis d = ''inferred'' then '' (coverage inferred via caller)''
      else if dn_coverage_basis d = ''observed'' then '' (coverage observed)'' else [])"

definition revisionBlockers :: "decide_input \<Rightarrow> blocker list" where
  "revisionBlockers i =
     (if rev_dirty (in_baseline_rev i) then [mk_blocker ''dirty_baseline'' []] else []) @
     concat (map (\<lambda>(name, rev). if rev_tree rev = [] \<or> rev_source rev \<noteq> ''built''
                                 then [mk_blocker ''unverified_revision'' name] else [])
       [(''baseline'', in_baseline_rev i), (''patch'', in_patch_rev i)]) @
     (if rev_tree (in_baseline_rev i) \<noteq> [] \<and> rev_tree (in_baseline_rev i) = rev_tree (in_patch_rev i)
      then [mk_blocker ''same_target'' (rev_tree (in_baseline_rev i))] else [])"

definition Decide :: "net_env \<Rightarrow> decide_input \<Rightarrow> decision" where
  "Decide E i =
     (let blockers = revisionBlockers i @ targetBlockers E i @
            (if to_lower (trim_space (ev_overall (in_result i))) \<noteq> ''match''
             then [mk_blocker ''not_match'' (ev_overall (in_result i))] else []) @
            duplicateBlockers i @ stepBlockers coreKinds (ev_steps (in_result i)) @
            requiredStepBlockers i @ changeBlockers i @ coverageBlockers i
      in \<lparr>dn_coverage_basis = coverageBasis i, dn_validated = (blockers = []), dn_blockers = blockers\<rparr>)"

section \<open>When a change is validated\<close>

lemma sortedBlockers_Nil [simp]: "sortedBlockers bs = [] \<longleftrightarrow> bs = []"
  by (simp add: sortedBlockers_def flip: length_0_conv)

lemma duplicateBlockers_Nil:
  "duplicateBlockers i = [] \<longleftrightarrow>
     distinct (map ps_kind (dg_steps (in_plan i))) \<and> distinct (map sr_kind (ev_steps (in_result i)))"
proof -
  have *: "(\<forall>k \<in> set ps \<union> set rs. \<not> (1 < count_list ps k \<or> 1 < count_list rs k)) \<longleftrightarrow> distinct ps \<and> distinct rs"
    for ps rs :: "string list"
    unfolding distinct_count_list by (metis One_nat_def UnI1 UnI2 count_list_0_iff linorder_not_less zero_le_one)
  show ?thesis unfolding * [symmetric]
    by (simp add: duplicateBlockers_def Let_def filter_empty_conv)
qed

lemma latencyN_bound: "20 \<le> latencyN s \<longleftrightarrow>
  sr_latency s \<noteq> [] \<and> list_all (\<lambda>l. 20 \<le> su_n (sl_baseline l) \<and> 20 \<le> su_n (sl_patch l)) (sr_latency s)"
proof -
  have f: "20 \<le> fold (\<lambda>m acc. if m < acc then m else acc) ns n \<longleftrightarrow> 20 \<le> n \<and> list_all (\<lambda>m. 20 \<le> m) ns" for ns and n :: int
  proof (induction ns arbitrary: n)
    case (Cons a ns)
    have "(20 \<le> (if a < n then a else n)) = (20 \<le> n \<and> 20 \<le> a)" by (cases "a < n") auto
    then show ?case by (simp only: fold_simps Cons.IH list.pred_inject conj_assoc)
  qed simp
  show ?thesis
    by (cases "sr_latency s") (simp_all add: latencyN_def f list.pred_map comp_def conj_assoc)
qed

text \<open>What each kind of step must show.\<close>

lemma stepOK_latency: "stepOK ''latency'' s \<longleftrightarrow> to_lower (trim_space (sr_verdict s)) = ''samples'' \<and> sr_latency s \<noteq> [] \<and>
   list_all (\<lambda>l. 20 \<le> su_n (sl_baseline l) \<and> 20 \<le> su_n (sl_patch l) \<and> \<not> Shifted l) (sr_latency s)"
  using latencyN_bound [of s]
  by (auto simp: stepOK_def Let_def minLatencyN_def list_ex_iff list_all_iff not_less)

lemma kindBlockers_Nil:
  "kindBlockers rs k = [] \<longleftrightarrow> (\<exists>s \<in> set rs. sr_kind s = k) \<and> (\<forall>s \<in> set rs. sr_kind s = k \<longrightarrow> stepOK k s)"
proof -
  have l: "latencyBlockers s = []" if "stepOK ''latency'' s" for s
    using that latencyN_bound [of s] unfolding stepOK_latency
    by (auto simp: latencyBlockers_def list_all_iff minLatencyN_def filter_empty_conv)
  show ?thesis
    using l by (auto simp: kindBlockers_def Let_def filter_empty_conv list_ex_iff)
qed

lemma set_requiredKinds:
  "set (requiredKinds d) = {ps_kind s |s. s \<in> set (dg_steps d) \<and> ps_required s \<and> \<not> ps_operator s} - set coreKinds"
proof -
  have "set (fold (\<lambda>step kinds. if ps_required step \<and> \<not> ps_operator step \<and> ps_kind step \<notin> set coreKinds \<and> ps_kind step \<notin> set kinds
                        then kinds @ [ps_kind step] else kinds) ss acc)
     = set acc \<union> ({ps_kind s |s. s \<in> set ss \<and> ps_required s \<and> \<not> ps_operator s} - set coreKinds)" for ss :: "plan_step list" and acc
    by (induction ss arbitrary: acc) auto
  then show ?thesis by (simp add: requiredKinds_def)
qed


lemma revisionBlockers_Nil:
  "revisionBlockers i = [] \<longleftrightarrow> \<not> rev_dirty (in_baseline_rev i) \<and>
     rev_tree (in_baseline_rev i) \<noteq> [] \<and> rev_source (in_baseline_rev i) = ''built'' \<and>
     rev_tree (in_patch_rev i) \<noteq> [] \<and> rev_source (in_patch_rev i) = ''built'' \<and>
     rev_tree (in_baseline_rev i) \<noteq> rev_tree (in_patch_rev i)"
  by (auto simp: revisionBlockers_def)

lemma targetBlockers_Nil:
  "targetBlockers E i = [] \<longleftrightarrow> trim_space (in_baseline i) \<noteq> [] \<and> trim_space (in_patch i) \<noteq> [] \<and>
     normURL E (in_baseline i) \<noteq> normURL E (in_patch i)"
  by (auto simp: targetBlockers_def)

lemma changeBlockers_Nil:
  "changeBlockers i = [] \<longleftrightarrow>
     ch_unanalyzed (in_changes i) = [] \<and> ch_bound (in_changes i) \<noteq> [] \<and> in_impacted i \<noteq> []"
  by (simp add: changeBlockers_def)

lemma coverageBlockers_Nil:
  "coverageBlockers i = [] \<longleftrightarrow>
     list_all (\<lambda>route. Covered [route] (in_workload i) (in_result i)) (in_impacted i)"
  by (simp add: coverageBlockers_def filter_empty_conv list_all_iff)

lemma stepBlockers_Nil:
  assumes "distinct (map sr_kind rs)"
  shows "stepBlockers ks rs = [] \<longleftrightarrow> list_all (\<lambda>k. list_ex (\<lambda>s. sr_kind s = k \<and> stepOK k s) rs) ks"
proof -
  have unique: "((\<exists>s \<in> set rs. sr_kind s = k) \<and> (\<forall>s \<in> set rs. sr_kind s = k \<longrightarrow> stepOK k s)) \<longleftrightarrow>
      list_ex (\<lambda>s. sr_kind s = k \<and> stepOK k s) rs" for k
    using assms by (auto simp: list_ex_iff distinct_map dest: inj_onD)
  show ?thesis
    unfolding unique [symmetric] list_all_iff kindBlockers_Nil [symmetric] by (simp add: stepBlockers_def)
qed

lemma requiredSteps_Nil:
  assumes "distinct (map sr_kind rs)"
  shows "stepBlockers coreKinds rs = [] \<and> stepBlockers (requiredKinds d) rs = [] \<longleftrightarrow>
     list_all (\<lambda>k. list_ex (\<lambda>s. sr_kind s = k \<and> stepOK k s) rs)
       (coreKinds @ map ps_kind (filter (\<lambda>p. ps_required p \<and> \<not> ps_operator p) (dg_steps d)))"
  unfolding stepBlockers_Nil [OF assms] list_all_append list_all_iff set_requiredKinds by auto

lemmas blockers_Nil = revisionBlockers_Nil targetBlockers_Nil changeBlockers_Nil coverageBlockers_Nil duplicateBlockers_Nil


text \<open>
  The coverage basis is \<open>inferred\<close> as soon as one covered impacted route is attributed only through a static
  caller, \<open>observed\<close> when none is and some covered route is attributed to runtime evidence, and empty otherwise;
  the order of the impacted routes does not matter.
\<close>

lemma coverageBasis_spec:
  "coverageBasis i =
     (let covered = filter (\<lambda>route. Covered [route] (in_workload i) (in_result i)) (in_impacted i)
      in if list_ex (\<lambda>r. routeInferred (in_attributions i) r \<and> \<not> routeObserved (in_attributions i) r) covered then ''inferred''
         else if list_ex (routeObserved (in_attributions i)) covered then ''observed'' else [])"
proof -
  have "basisLoop i rs basis =
     (let covered = filter (\<lambda>route. Covered [route] (in_workload i) (in_result i)) rs
      in if list_ex (\<lambda>r. routeInferred (in_attributions i) r \<and> \<not> routeObserved (in_attributions i) r) covered then ''inferred''
         else if list_ex (routeObserved (in_attributions i)) covered then ''observed'' else basis)" for rs basis
    by (induction rs arbitrary: basis) (simp_all add: Let_def)
  then show ?thesis by (simp add: coverageBasis_def)
qed

text \<open>An instance of the URL library for witnesses: \<open>scheme://host\<close> with an optional path.\<close>

definition demo_net :: net_env where
  "demo_net = \<lparr>parse_url = (\<lambda>s. let host = (if prefix ''http://'' s then drop 7 s else s)
       in Some \<lparr>u_scheme = ''http'', u_opaque = [], u_user = None, u_host = before CHR ''/'' host,
                u_path = drop (length (before CHR ''/'' host)) host, u_raw_query = [], u_fragment = []\<rparr>),
     url_string = (\<lambda>u. u_scheme u @ ''://'' @ u_host u @ u_path u), parse_addr = (\<lambda>_. None)\<rparr>"

definition demo_summary :: "int \<Rightarrow> int64 \<Rightarrow> summary" where
  "demo_summary n med = \<lparr>su_n = n, su_min = med, su_med = med, su_p95 = med, su_p99 = 0, su_has_p95 = True, su_has_p99 = False\<rparr>"

definition demo_input :: decide_input where
  "demo_input = \<lparr>
     in_attributions = [\<lparr>ra_route = ''GET /cart'', ra_provenance = ''trace_entry'', ra_via = []\<rparr>],
     in_baseline_rev = \<lparr>rev_commit = ''c1'', rev_tree = ''t1'', rev_path = ''.'', rev_dirty = False, rev_source = ''built''\<rparr>,
     in_patch_rev = \<lparr>rev_commit = ''c1'', rev_tree = ''t2'', rev_path = ''.'', rev_dirty = True, rev_source = ''built''\<rparr>,
     in_baseline = ''http://localhost:8080'', in_patch = ''http://localhost:8081'',
     in_plan = \<lparr>dg_steps = [\<lparr>ps_id = ''tests'', ps_kind = ''tests'', ps_required = True, ps_operator = False, ps_n = 0,
                               ps_status = 0, ps_depends_on = [], ps_reason = []\<rparr>],
                 dg_notes = [], dg_module = [], dg_test_packages = [], dg_health_path = []\<rparr>,
     in_result = \<lparr>ev_overall = ''match'',
       ev_steps = [mk_result ''env'' ''env'' ''prepared'' [],
         (mk_result ''behavior'' ''behavior'' ''match'' [])
           \<lparr>sr_steps := [\<lparr>de_method = ''GET'', de_path = ''/cart'', de_status = ''match'', de_baseline_status = 200,
                          de_patch_status = 200, de_notes = []\<rparr>]\<rparr>,
         (mk_result ''latency'' ''latency'' ''samples'' [])
           \<lparr>sr_latency := [\<lparr>sl_method = ''GET'', sl_path = ''/cart'', sl_baseline = demo_summary 20 1000,
                            sl_patch = demo_summary 20 1100\<rparr>]\<rparr>,
         mk_result ''concurrency'' ''concurrency'' ''match'' [],
         mk_result ''tests'' ''tests'' ''prepared'' []],
       ev_notes = []\<rparr>,
     in_impacted = [''GET /cart''],
     in_workload = [\<lparr>st_method = ''GET'', st_path = ''/cart'', st_body = [], st_headers = [],
                      st_provenance = ''span_route'', st_service = []\<rparr>],
     in_changes = \<lparr>ch_bound = [''cart.go''], ch_unanalyzed = []\<rparr>\<rparr>"


end
