(* ===== verification/Job_Core.thy ===== *)
theory Job_Core
  imports Validate
begin

text \<open>
  The job fabric of \<open>internal/jobs\<close>, without its stores: tasks and jobs (\<open>store.go\<close>), enqueueing and the
  task transitions (\<open>enqueue.go\<close>), the earned decision, cancellation and deadlines (\<open>earned.go\<close>), quotas and
  the choice of the next task (\<open>quota.go\<close>) and gateway occupancy (\<open>occupancy.go\<close>). The clock, the random ids
  and the URL library are arguments. The step relation \<open>job_step\<close> collects every change a store makes to one
  job; the job invariant \<open>job_ok\<close> is established by \<open>buildJob\<close> and kept by every step.
\<close>

section \<open>Tasks and jobs\<close>

datatype job_error =
    ErrNotFound | ErrStaleAttempt | ErrNotLeased | ErrNoReady | ErrCapacity | ErrInvalidID | ErrBusy | ErrQuota
  | JobErrorf string

datatype job_status = StatusPending | StatusRunning | StatusComplete | StatusFailed | StatusCanceled

datatype task_state = StatePending | StateReady | StateLeased | StateSucceeded | StateFailed | StateSkipped

fun status_string :: "job_status \<Rightarrow> string" where
  "status_string StatusPending = ''pending''"
| "status_string StatusRunning = ''running''"
| "status_string StatusComplete = ''complete''"
| "status_string StatusFailed = ''failed''"
| "status_string StatusCanceled = ''canceled''"

definition idLen :: nat where
  "idLen = 16"

definition leaseTTL :: time where
  "leaseTTL = 15 * second"

definition DefaultDeadline :: time where
  "DefaultDeadline = 600 * second"

record job_request =
  jr_method :: string
  jr_path :: string
  jr_provenance :: string
  jr_body :: string

record task =
  tk_id :: string
  tk_job_id :: string
  tk_plan_id :: string
  tk_kind :: string
  tk_operator :: bool
  tk_required :: bool
  tk_depends_on :: "string list"
  tk_n :: int
  tk_state :: task_state
  tk_attempt :: string
  tk_fence :: int64
  tk_lease_until :: time
  tk_worker :: string
  tk_result :: step_result
  tk_err :: string

record job =
  jb_baseline_rev :: revision
  jb_patch_rev :: revision
  jb_impact_source :: string
  jb_id :: string
  jb_created :: time
  jb_status :: job_status
  jb_service :: string
  jb_baseline :: string
  jb_patch :: string
  jb_baseline_sha :: string
  jb_dirty :: bool
  jb_deadline :: time
  jb_canceled :: bool
  jb_impacted :: "string list"
  jb_changes :: changes
  jb_workload :: "job_request list"
  jb_plan :: dag
  jb_tasks :: "task list"
  jb_blockers :: "blocker list"
  jb_validated :: bool

record create_opts =
  co_baseline_rev :: revision
  co_patch_rev :: revision
  co_baseline :: string
  co_patch :: string
  co_service :: string
  co_deadline :: time
  co_workload :: workload
  co_plan :: dag
  co_impacted :: "string list"
  co_changes :: changes

record create_wire =
  cw_baseline_rev :: revision
  cw_patch_rev :: revision
  cw_baseline :: string
  cw_patch :: string
  cw_service :: string
  cw_deadline :: time
  cw_workload :: "job_request list"
  cw_plan :: dag
  cw_impacted :: "string list"
  cw_changes :: changes

definition workloadOf :: "workload \<Rightarrow> job_request list" where
  "workloadOf w = map (\<lambda>s. \<lparr>jr_method = st_method s, jr_path = st_path s, jr_provenance = st_provenance s, jr_body = st_body s\<rparr>) w"

definition replayWorkload :: "job_request list \<Rightarrow> workload" where
  "replayWorkload steps =
     map (\<lambda>s. \<lparr>st_method = jr_method s, st_path = jr_path s, st_body = jr_body s, st_headers = [],
               st_provenance = jr_provenance s, st_service = []\<rparr>) steps"

text \<open>The value \<open>MarshalJSON\<close> hands to the encoder, and what \<open>UnmarshalJSON\<close> makes of a decoded one.\<close>

definition toWire :: "create_opts \<Rightarrow> create_wire" where
  "toWire opts = \<lparr>cw_baseline_rev = co_baseline_rev opts, cw_patch_rev = co_patch_rev opts, cw_baseline = co_baseline opts,
     cw_patch = co_patch opts, cw_service = co_service opts, cw_deadline = co_deadline opts,
     cw_workload = workloadOf (co_workload opts), cw_plan = co_plan opts, cw_impacted = co_impacted opts,
     cw_changes = co_changes opts\<rparr>"

definition fromWire :: "create_wire \<Rightarrow> create_opts" where
  "fromWire w = \<lparr>co_baseline_rev = cw_baseline_rev w, co_patch_rev = cw_patch_rev w, co_baseline = cw_baseline w,
     co_patch = cw_patch w, co_service = cw_service w, co_deadline = cw_deadline w,
     co_workload = replayWorkload (cw_workload w), co_plan = cw_plan w, co_impacted = cw_impacted w,
     co_changes = cw_changes w\<rparr>"

record worker =
  wk_id :: string
  wk_slots :: int
  wk_job_id :: string

definition worker_id :: "worker \<Rightarrow> job_error + string" where
  "worker_id w = (if trim_space (wk_id w) = [] then Inl (JobErrorf ''jobs: worker id required'') else Inr (wk_id w))"

definition worker_slots :: "worker \<Rightarrow> int" where
  "worker_slots w = (if wk_slots w < 1 then 1 else if wk_slots w > 8 then 8 else wk_slots w)"

definition clipLimit :: "int \<Rightarrow> nat" where
  "clipLimit n = (if n \<le> 0 then 20 else if n > 50 then 50 else nat n)"

definition clipService :: "string \<Rightarrow> string" where
  "clipService s = (let t = trim_space s in if length t > 128 then take 128 t else t)"

definition normalizeID :: "string \<Rightarrow> string option" where
  "normalizeID raw =
     (let s = to_lower (trim_space raw)
      in if length s < 8 \<or> length s > 64 then None
         else if \<not> list_all is_hex s then None
         else Some (if length s > idLen then take idLen s else s))"

definition ParseID :: "string \<Rightarrow> job_error + string" where
  "ParseID raw = (case normalizeID raw of None \<Rightarrow> Inl ErrInvalidID | Some s \<Rightarrow> Inr s)"

fun checkEntries :: "string \<Rightarrow> nat \<Rightarrow> string list \<Rightarrow> job_error option" where
  "checkEntries name i [] = None"
| "checkEntries name i (v # vs) =
     (if length v > 512 then Some (JobErrorf (''jobs: changes.'' @ name @ ''['' @ itoa (int i) @ ''] exceeds 512 bytes''))
      else if contains_any [CHR 0x0D, CHR 0x0A, CHR 0x00] v
      then Some (JobErrorf (''jobs: changes.'' @ name @ ''['' @ itoa (int i) @ ''] contains a forbidden control character''))
      else checkEntries name (Suc i) vs)"

definition checkChanges :: "string \<Rightarrow> string list \<Rightarrow> job_error option" where
  "checkChanges name entries =
     (if length entries > 500 then Some (JobErrorf (''jobs: changes.'' @ name @ '' exceeds 500 entries''))
      else checkEntries name 0 entries)"

definition httpPrefix :: "string \<Rightarrow> bool" where
  "httpPrefix s = (prefix ''http://'' s \<or> prefix ''https://'' s)"

definition validateCreate :: "net_env \<Rightarrow> time \<Rightarrow> create_opts \<Rightarrow> job_error option" where
  "validateCreate E now opts =
     (case checkChanges ''bound'' (ch_bound (co_changes opts)) of Some e \<Rightarrow> Some e | None \<Rightarrow>
     (case checkChanges ''unanalyzed'' (ch_unanalyzed (co_changes opts)) of Some e \<Rightarrow> Some e | None \<Rightarrow>
      if trim_space (co_baseline opts) = [] \<or> trim_space (co_patch opts) = []
      then Some (JobErrorf ''jobs: baseline and patch are required'')
      else if \<not> httpPrefix (co_baseline opts) then Some (JobErrorf ''jobs: baseline must be http or https'')
      else if \<not> httpPrefix (co_patch opts) then Some (JobErrorf ''jobs: patch must be http or https'')
      else if CheckURL E (co_baseline opts) \<noteq> None then Some (JobErrorf ''jobs: baseline'')
      else if CheckURL E (co_patch opts) \<noteq> None then Some (JobErrorf ''jobs: patch'')
      else if dg_steps (co_plan opts) = [] then Some (JobErrorf ''jobs: empty plan'')
      else if co_workload opts = [] then Some (JobErrorf ''jobs: empty workload'')
      else if co_deadline opts \<noteq> 0 \<and> \<not> (co_deadline opts > now - second) then Some (JobErrorf ''jobs: deadline has passed'')
      else if length (co_workload opts) > 20 then Some (JobErrorf ''jobs: too many workload steps'')
      else if length (co_impacted opts) > 20 then Some (JobErrorf ''jobs: too many impacted routes'')
      else if list_ex (\<lambda>r. length r > 512 \<or> contains_any [CHR 0x0D, CHR 0x0A, CHR 0x00] r) (co_impacted opts)
      then Some (JobErrorf ''jobs: invalid impacted route'')
      else if list_ex (\<lambda>s. length (st_body s) > 8192) (co_workload opts) then Some (JobErrorf ''jobs: body too large'')
      else None))"

section \<open>Task transitions\<close>

text \<open>\<open>fmt.Sprintf("%04x", i)\<close> and \<open>taskID\<close>.\<close>

fun hex_str :: "nat \<Rightarrow> string" where
  "hex_str n = (if n < 16 then [hex_digit n] else hex_str (n div 16) @ [hex_digit (n mod 16)])"

declare hex_str.simps [simp del]

definition hex4 :: "nat \<Rightarrow> string" where
  "hex4 n = (let s = hex_str n in replicate (4 - length s) CHR ''0'' @ s)"

definition taskID :: "string \<Rightarrow> nat \<Rightarrow> string" where
  "taskID jobID i =
     (let j = (if length jobID < 12 then jobID @ ''000000000000'' else jobID) in take 12 j @ hex4 i)"

definition stateByPlan :: "task list \<Rightarrow> string \<Rightarrow> task_state option" where
  "stateByPlan tasks = fold (\<lambda>t m. m(tk_plan_id t \<mapsto> tk_state t)) tasks Map.empty"

definition depsOK :: "task \<Rightarrow> (string \<Rightarrow> task_state option) \<Rightarrow> bool" where
  "depsOK t by_plan =
     list_all (\<lambda>d. by_plan d = Some StateSucceeded \<or> by_plan d = Some StateSkipped) (tk_depends_on t)"

text \<open>One pass of the loop of \<open>settle\<close>, with the states at its start, and the loop with its bound.\<close>

definition settleTask :: "(string \<Rightarrow> task_state option) \<Rightarrow> task \<Rightarrow> task" where
  "settleTask by_plan t =
     (if tk_operator t \<and> tk_state t = StatePending then t\<lparr>tk_state := StateSkipped\<rparr>
      else if tk_state t = StatePending \<and> depsOK t by_plan then t\<lparr>tk_state := StateReady\<rparr> else t)"

definition settlePass :: "task list \<Rightarrow> task list" where
  "settlePass tasks = map (settleTask (stateByPlan tasks)) tasks"

fun settleLoop :: "nat \<Rightarrow> task list \<Rightarrow> task list" where
  "settleLoop 0 tasks = tasks"
| "settleLoop (Suc n) tasks =
     (let next = settlePass tasks in if next = tasks then tasks else settleLoop n next)"

definition settle :: "task list \<Rightarrow> task list" where
  "settle tasks = settleLoop (length tasks) tasks"

definition jobStatus :: "task list \<Rightarrow> job_status" where
  "jobStatus tasks =
     (if list_ex (\<lambda>t. tk_state t = StateFailed) tasks then StatusFailed
      else if list_ex (\<lambda>t. tk_state t = StateLeased) tasks \<or> list_ex (\<lambda>t. tk_state t = StateReady) tasks then StatusRunning
      else if list_ex (\<lambda>t. tk_state t = StatePending) tasks then StatusPending
      else StatusComplete)"

definition applyCommit :: "string \<Rightarrow> step_result \<Rightarrow> string \<Rightarrow> task \<Rightarrow> job_error + task" where
  "applyCommit attempt result fail t =
     (if tk_state t \<noteq> StateLeased then Inl ErrNotLeased
      else if tk_attempt t \<noteq> attempt then Inl ErrStaleAttempt
      else if fail \<noteq> []
      then Inr (t\<lparr>tk_state := StateFailed, tk_err := fail, tk_result := result, tk_worker := [], tk_lease_until := 0\<rparr>)
      else if sr_verdict result = ''pass'' \<or> sr_verdict result = ''validated''
      then Inl (JobErrorf ''jobs: result cannot be a pass'')
      else Inr (t\<lparr>tk_state := StateSucceeded, tk_result := result, tk_err := [], tk_worker := [], tk_lease_until := 0\<rparr>))"

definition applyHeartbeat :: "string \<Rightarrow> string \<Rightarrow> time \<Rightarrow> task \<Rightarrow> job_error + task" where
  "applyHeartbeat attempt workerID now t =
     (if tk_state t \<noteq> StateLeased then Inl ErrNotLeased
      else if tk_attempt t \<noteq> attempt \<or> tk_worker t \<noteq> workerID then Inl ErrStaleAttempt
      else Inr (t\<lparr>tk_lease_until := now + leaseTTL\<rparr>))"

definition heldBy :: "string \<Rightarrow> task \<Rightarrow> bool" where
  "heldBy workerID t = (tk_state t = StateLeased \<and> tk_worker t = workerID)"

definition countLeased :: "job list \<Rightarrow> string \<Rightarrow> int" where
  "countLeased jobs workerID = int (length (filter (heldBy workerID) (concat (map jb_tasks jobs))))"

text \<open>\<open>requeue\<close> returns the task and whether it changed.\<close>

definition requeue :: "time \<Rightarrow> bool \<Rightarrow> task \<Rightarrow> task \<times> bool" where
  "requeue now canceled t =
     (if tk_state t \<noteq> StateLeased then (t, False)
      else if tk_lease_until t = 0 \<or> \<not> tk_lease_until t < now then (t, False)
      else if canceled
      then (t\<lparr>tk_state := StateSkipped, tk_err := ''canceled'', tk_attempt := [], tk_worker := [], tk_lease_until := 0\<rparr>, True)
      else (t\<lparr>tk_state := StateReady, tk_attempt := [], tk_worker := [], tk_lease_until := 0\<rparr>, True))"

text \<open>The assignments by which both stores' \<open>Lease\<close> claims a task.\<close>

definition claim :: "string \<Rightarrow> string \<Rightarrow> time \<Rightarrow> task \<Rightarrow> task" where
  "claim attempt workerID now t =
     t\<lparr>tk_state := StateLeased, tk_attempt := attempt, tk_fence := tk_fence t + 1, tk_worker := workerID,
       tk_lease_until := now + leaseTTL\<rparr>"

section \<open>The earned decision\<close>

definition evidenceStep :: "task \<Rightarrow> step_result" where
  "evidenceStep t =
     (let r0 = tk_result t;
          r1 = (if sr_id r0 = [] then r0\<lparr>sr_id := tk_plan_id t\<rparr> else r0);
          r = (if sr_kind r1 = [] then r1\<lparr>sr_kind := tk_kind t\<rparr> else r1)
      in case tk_state t of
           StateSkipped \<Rightarrow> if sr_verdict r = [] then r\<lparr>sr_verdict := ''skipped''\<rparr> else r
         | StateSucceeded \<Rightarrow> r
         | StateFailed \<Rightarrow> if sr_verdict r = [] then r\<lparr>sr_verdict := ''incomplete''\<rparr> else r
         | _ \<Rightarrow> r\<lparr>sr_verdict := ''incomplete''\<rparr>)"

definition jobEvidence :: "job \<Rightarrow> evidence" where
  "jobEvidence job =
     (let steps = map evidenceStep (jb_tasks job)
      in \<lparr>ev_overall = Overall steps, ev_steps = steps, ev_notes = []\<rparr>)"

definition jobDecision :: "net_env \<Rightarrow> job \<Rightarrow> decision" where
  "jobDecision E job =
     (if jb_canceled job \<or> jb_status job \<noteq> StatusComplete
      then \<lparr>dn_coverage_basis = [], dn_validated = False,
            dn_blockers = [mk_blocker ''step_failed'' (''job:'' @ status_string (jb_status job))]\<rparr>
      else Decide E \<lparr>in_attributions = [], in_baseline_rev = jb_baseline_rev job, in_patch_rev = jb_patch_rev job,
             in_baseline = jb_baseline job, in_patch = jb_patch job, in_plan = jb_plan job,
             in_result = jobEvidence job, in_impacted = jb_impacted job,
             in_workload = replayWorkload (jb_workload job), in_changes = jb_changes job\<rparr>)"

definition decideJob :: "net_env \<Rightarrow> job \<Rightarrow> job" where
  "decideJob E job =
     (let d = jobDecision E job in job\<lparr>jb_validated := dn_validated d, jb_blockers := dn_blockers d\<rparr>)"

definition refreshJob :: "net_env \<Rightarrow> job \<Rightarrow> job" where
  "refreshJob E job =
     (let job1 = job\<lparr>jb_tasks := settle (jb_tasks job)\<rparr>;
          job2 = (if jb_canceled job1 then job1\<lparr>jb_status := StatusCanceled, jb_validated := False\<rparr>
                  else job1\<lparr>jb_status := jobStatus (jb_tasks job1)\<rparr>)
      in decideJob E job2)"

definition finished :: "job \<Rightarrow> bool" where
  "finished job = (jb_canceled job \<or> jb_status job = StatusComplete \<or> jb_status job = StatusFailed \<or> jb_status job = StatusCanceled)"

definition cancelTask :: "task \<Rightarrow> task" where
  "cancelTask t =
     (if tk_state t = StatePending \<or> tk_state t = StateReady then t\<lparr>tk_state := StateSkipped, tk_err := ''canceled''\<rparr> else t)"

definition applyCancel :: "net_env \<Rightarrow> job \<Rightarrow> job" where
  "applyCancel E job =
     (if finished job then job
      else refreshJob E (job\<lparr>jb_canceled := True, jb_tasks := map cancelTask (jb_tasks job)\<rparr>))"

definition deadlineTask :: "task \<Rightarrow> task" where
  "deadlineTask t =
     (if tk_state t = StatePending \<or> tk_state t = StateReady \<or> tk_state t = StateLeased
      then t\<lparr>tk_state := StateFailed, tk_err := ''deadline'', tk_worker := [], tk_lease_until := 0\<rparr> else t)"

text \<open>\<open>failDeadline\<close>: \<open>None\<close> is the result \<open>false\<close>, which leaves the job as it is.\<close>

definition effectiveDeadline :: "job \<Rightarrow> time option" where
  "effectiveDeadline job =
     (if jb_deadline job = 0
      then (if jb_created job = 0 then None else Some (jb_created job + DefaultDeadline))
      else Some (jb_deadline job))"

definition failDeadline :: "net_env \<Rightarrow> time \<Rightarrow> job \<Rightarrow> job option" where
  "failDeadline E now job =
     (case effectiveDeadline job of
        None \<Rightarrow> None
      | Some deadline \<Rightarrow>
          if \<not> now > deadline then None
          else if finished job then None
          else Some (decideJob E (job\<lparr>jb_tasks := map deadlineTask (jb_tasks job), jb_status := StatusFailed\<rparr>)))"

text \<open>The body of the expiry loops of both stores: the job after it, and by how much it raises the count.\<close>

definition expireJob :: "net_env \<Rightarrow> time \<Rightarrow> job \<Rightarrow> job \<times> nat" where
  "expireJob E now job =
     (case failDeadline E now job of
        Some job' \<Rightarrow> (job', 1)
      | None \<Rightarrow>
          (let rs = map (requeue now (jb_canceled job)) (jb_tasks job); n = length (filter snd rs)
           in if n > 0 then (refreshJob E (job\<lparr>jb_tasks := map fst rs\<rparr>), n) else (job, 0)))"

text \<open>The job after the claim of its task \<open>ti\<close>, as the in-memory store writes it.\<close>

definition leaseJob :: "string \<Rightarrow> string \<Rightarrow> time \<Rightarrow> nat \<Rightarrow> job \<Rightarrow> job" where
  "leaseJob attempt workerID now ti job =
     (let tasks = (jb_tasks job)[ti := claim attempt workerID now (jb_tasks job ! ti)]
      in job\<lparr>jb_tasks := tasks, jb_status := jobStatus tasks\<rparr>)"

section \<open>Enqueueing\<close>

definition newTask :: "string \<Rightarrow> nat \<Rightarrow> plan_step \<Rightarrow> task" where
  "newTask jid i s =
     \<lparr>tk_id = taskID jid i, tk_job_id = jid, tk_plan_id = ps_id s, tk_kind = ps_kind s, tk_operator = ps_operator s,
      tk_required = ps_required s, tk_depends_on = ps_depends_on s, tk_n = ps_n s,
      tk_state = (if ps_operator s then StateSkipped else StatePending), tk_attempt = [], tk_fence = 0,
      tk_lease_until = 0, tk_worker = [], tk_result = mk_result [] [] [] [], tk_err = []\<rparr>"

text \<open>
  \<open>buildJob\<close>; \<open>vnow\<close> and \<open>now0\<close> are the two readings of the clock (in \<open>validateCreate\<close> and for the creation time)
  and \<open>jid\<close> the random id.
\<close>

definition buildJob :: "net_env \<Rightarrow> time \<Rightarrow> time \<Rightarrow> string \<Rightarrow> create_opts \<Rightarrow> job_error + job" where
  "buildJob E vnow now0 jid opts =
     (case validateCreate E vnow opts of
        Some e \<Rightarrow> Inl e
      | None \<Rightarrow>
          (let baselineRev = (co_baseline_rev opts)\<lparr>rev_source := ''declared''\<rparr>;
               patchRev = (co_patch_rev opts)\<lparr>rev_source := ''declared''\<rparr>;
               now = truncate_time millisecond now0;
               tasks = settle (map (\<lambda>(i, s). newTask jid i s) (enumerate 0 (dg_steps (co_plan opts))));
               deadline = (if co_deadline opts = 0 then now + DefaultDeadline else co_deadline opts)
           in Inr (refreshJob E
                \<lparr>jb_baseline_rev = baselineRev, jb_patch_rev = patchRev, jb_impact_source = ''client'', jb_id = jid,
                 jb_created = now, jb_status = StatusPending, jb_service = clipService (co_service opts),
                 jb_baseline = co_baseline opts, jb_patch = co_patch opts, jb_baseline_sha = rev_commit baselineRev,
                 jb_dirty = rev_dirty patchRev, jb_deadline = deadline, jb_canceled = False,
                 jb_impacted = co_impacted opts, jb_changes = co_changes opts, jb_workload = workloadOf (co_workload opts),
                 jb_plan = co_plan opts, jb_tasks = tasks, jb_blockers = [], jb_validated = False\<rparr>)))"

section \<open>Occupancy and quotas\<close>

definition occupancyKey :: "net_env \<Rightarrow> string \<Rightarrow> string" where
  "occupancyKey E raw =
     (case parse_url E (trim_space raw) of
        None \<Rightarrow> to_lower (trim_space raw)
      | Some u \<Rightarrow> if u_host u = [] then to_lower (trim_space raw)
                  else to_lower (u_scheme u) @ ''://'' @ to_lower (u_host u))"

definition occupancyKeys :: "net_env \<Rightarrow> job \<Rightarrow> string list" where
  "occupancyKeys E j =
     (let a = occupancyKey E (jb_baseline j); b = occupancyKey E (jb_patch j) in if a = b then [a] else [a, b])"

definition occupies :: "job \<Rightarrow> bool" where
  "occupies j = (jb_status j = StatusPending \<or> jb_status j = StatusRunning)"

definition gatewayBusy :: "net_env \<Rightarrow> job list \<Rightarrow> job \<Rightarrow> bool" where
  "gatewayBusy E existing candidate =
     (let want = filter (\<lambda>k. k \<noteq> []) (occupancyKeys E candidate)
      in list_ex (\<lambda>j. \<not> (jb_id j = jb_id candidate \<or> \<not> occupies j) \<and> list_ex (\<lambda>k. k \<in> set want) (occupancyKeys E j)) existing)"

record quota =
  qt_active_jobs :: int
  qt_leased_tasks :: int

definition normalized :: "quota \<Rightarrow> quota" where
  "normalized q =
     \<lparr>qt_active_jobs = (if qt_active_jobs q \<le> 0 then 4 else qt_active_jobs q),
      qt_leased_tasks = (if qt_leased_tasks q \<le> 0 then 2 else qt_leased_tasks q)\<rparr>"

definition overActive :: "job list \<Rightarrow> job \<Rightarrow> quota \<Rightarrow> bool" where
  "overActive existing candidate q =
     (int (length (filter (\<lambda>j. jb_id j \<noteq> jb_id candidate \<and> jb_service j = jb_service candidate \<and> occupies j) existing))
        \<ge> qt_active_jobs (normalized q))"

definition leasedOf :: "job list \<Rightarrow> string \<Rightarrow> int" where
  "leasedOf all service =
     int (length (filter (\<lambda>t. tk_state t = StateLeased) (concat (map jb_tasks (filter (\<lambda>j. jb_service j = service) all)))))"

text \<open>The inner loop of \<open>pickReady\<close> (\<open>None\<close>: no ready task) and its outer loop with \<open>(jobIdx, taskIdx, best)\<close>.\<close>

fun readyIndex :: "nat \<Rightarrow> task list \<Rightarrow> nat option" where
  "readyIndex i [] = None"
| "readyIndex i (t # ts) = (if tk_state t = StateReady \<and> \<not> tk_operator t then Some i else readyIndex (Suc i) ts)"

fun pickLoop :: "(string \<Rightarrow> int) \<Rightarrow> string \<Rightarrow> int \<Rightarrow> nat \<Rightarrow> job list \<Rightarrow> (nat \<times> nat \<times> int) option \<Rightarrow> (nat \<times> nat \<times> int) option" where
  "pickLoop leased wantJob cap ji [] best = best"
| "pickLoop leased wantJob cap ji (j # js) best =
     pickLoop leased wantJob cap (Suc ji) js
       (if wantJob \<noteq> [] \<and> jb_id j \<noteq> wantJob then best
        else if jb_canceled j \<or> jb_status j = StatusCanceled then best
        else (let n = leased (jb_service j)
              in if n \<ge> cap then best
                 else if (case best of Some (_, _, b) \<Rightarrow> n \<ge> b | None \<Rightarrow> False) then best
                 else (case readyIndex 0 (jb_tasks j) of Some ti \<Rightarrow> Some (ji, ti, n) | None \<Rightarrow> best)))"

definition pickReady :: "job list \<Rightarrow> string \<Rightarrow> quota \<Rightarrow> (nat \<times> nat) option" where
  "pickReady all wantJob q =
     (case pickLoop (leasedOf all) wantJob (qt_leased_tasks (normalized q)) 0 all None of
        Some (ji, ti, _) \<Rightarrow> Some (ji, ti) | None \<Rightarrow> None)"

end
