(* ===== verification/Job_Invariants.thy ===== *)
theory Job_Invariants
  imports Job_Core
begin

text \<open>
  The invariant of a job and the step relation of its life cycle. \<open>job_step\<close> has one rule for each way in which
  a store changes a stored job: expiry (deadline and lapsed leases), the claim of a ready task, a heartbeat, a
  commit, a cancellation. The lemmas show that \<open>settle\<close> reaches its fixpoint within its bound, that \<open>job_ok\<close>
  holds initially and is kept by every step, and that tasks move only along the edges of \<open>task_edge\<close>.
\<close>

section \<open>How tasks evolve\<close>

definition terminal :: "task_state \<Rightarrow> bool" where
  "terminal s \<longleftrightarrow> s = StateSucceeded \<or> s = StateFailed \<or> s = StateSkipped"

fun task_edge :: "task_state \<Rightarrow> task_state \<Rightarrow> bool" where
  "task_edge StatePending s = (s \<in> {StatePending, StateReady, StateSkipped, StateFailed})"
| "task_edge StateReady s = (s \<in> {StateReady, StateLeased, StateSkipped, StateFailed})"
| "task_edge StateLeased s = (s \<noteq> StatePending)"
| "task_edge StateSucceeded s = (s = StateSucceeded)"
| "task_edge StateFailed s = (s = StateFailed)"
| "task_edge StateSkipped s = (s = StateSkipped)"

definition task_evolves :: "task \<Rightarrow> task \<Rightarrow> bool" where
  "task_evolves t t' \<longleftrightarrow>
     tk_id t' = tk_id t \<and> tk_job_id t' = tk_job_id t \<and> tk_plan_id t' = tk_plan_id t \<and> tk_kind t' = tk_kind t \<and>
     tk_operator t' = tk_operator t \<and> tk_required t' = tk_required t \<and> tk_depends_on t' = tk_depends_on t \<and>
     tk_n t' = tk_n t \<and> task_edge (tk_state t) (tk_state t') \<and> (terminal (tk_state t) \<longrightarrow> t' = t) \<and>
     tk_fence t' = (if tk_state t = StateReady \<and> tk_state t' = StateLeased then tk_fence t + 1 else tk_fence t)"

abbreviation tasks_evolve :: "task list \<Rightarrow> task list \<Rightarrow> bool" where
  "tasks_evolve \<equiv> list_all2 task_evolves"

lemma task_edge_refl [simp]: "task_edge s s"
  by (cases s) simp_all

lemma task_evolves_refl [simp]: "task_evolves t t"
  by (simp add: task_evolves_def)

lemma tasks_evolve_refl [simp]: "tasks_evolve ts ts"
  by (simp add: list.rel_refl)

lemma tasks_evolve_update: "task_evolves (ts ! i) t' \<Longrightarrow> tasks_evolve ts (ts[i := t'])"
  by (cases "i < length ts") (auto simp: list_all2_conv_all_nth nth_list_update)

text \<open>A dependency is satisfied when the last task with its plan id succeeded or was skipped.\<close>

definition satisfied :: "(string \<Rightarrow> task_state option) \<Rightarrow> string \<Rightarrow> bool" where
  "satisfied m d \<longleftrightarrow> m d = Some StateSucceeded \<or> m d = Some StateSkipped"

lemma depsOK_satisfied: "depsOK t m \<longleftrightarrow> list_all (satisfied m) (tk_depends_on t)"
  by (simp add: depsOK_def satisfied_def [abs_def])

lemma stateByPlan_map_of: "stateByPlan ts = map_of (rev (map (\<lambda>t. (tk_plan_id t, tk_state t)) ts))"
proof -
  have "fold (\<lambda>t m. m(tk_plan_id t \<mapsto> tk_state t)) ts m = m ++ map_of (rev (map (\<lambda>t. (tk_plan_id t, tk_state t)) ts))"
    for m and ts :: "task list"
    by (induction ts arbitrary: m) (simp_all add: map_add_assoc)
  then show ?thesis by (simp add: stateByPlan_def)
qed

text \<open>Pointwise changes of tasks that keep plan ids and keep (or do not touch) satisfied states.\<close>

lemma map_of_list_all2:
  assumes "list_all2 R ts ts'" and "\<And>t t'. R t t' \<Longrightarrow> tk_plan_id t' = tk_plan_id t"
  shows "rel_option (\<lambda>s s'. \<exists>t t'. R t t' \<and> s = tk_state t \<and> s' = tk_state t')
     (map_of (map (\<lambda>t. (tk_plan_id t, tk_state t)) ts) d) (map_of (map (\<lambda>t. (tk_plan_id t, tk_state t)) ts') d)"
  using assms(1) by (induction rule: list_all2_induct) (use assms(2) in auto)

lemma stateByPlan_rel:
  assumes "list_all2 R ts ts'" and "\<And>t t'. R t t' \<Longrightarrow> tk_plan_id t' = tk_plan_id t"
  shows "rel_option (\<lambda>s s'. \<exists>t t'. R t t' \<and> s = tk_state t \<and> s' = tk_state t') (stateByPlan ts d) (stateByPlan ts' d)"
  using map_of_list_all2 [of R "rev ts" "rev ts'" d] assms by (simp add: stateByPlan_map_of rev_map)

lemma satisfied_mono:
  assumes "tasks_evolve ts ts'" and "satisfied (stateByPlan ts) d"
  shows "satisfied (stateByPlan ts') d"
proof -
  have "rel_option (\<lambda>s s'. \<exists>t t'. task_evolves t t' \<and> s = tk_state t \<and> s' = tk_state t') (stateByPlan ts d) (stateByPlan ts' d)"
    by (rule stateByPlan_rel [OF assms(1)]) (simp add: task_evolves_def)
  then show ?thesis
    using assms(2) by (cases "stateByPlan ts d"; cases "stateByPlan ts' d") (auto simp: satisfied_def task_evolves_def terminal_def)
qed

lemma satisfied_cong:
  assumes "list_all2 (\<lambda>t t'. tk_plan_id t' = tk_plan_id t \<and>
     (tk_state t' \<in> {StateSucceeded, StateSkipped} \<longleftrightarrow> tk_state t \<in> {StateSucceeded, StateSkipped})) ts ts'"
  shows "satisfied (stateByPlan ts') = satisfied (stateByPlan ts)"
proof
  fix d
  show "satisfied (stateByPlan ts') d = satisfied (stateByPlan ts) d"
    using stateByPlan_rel [OF assms, of d]
    by (cases "stateByPlan ts d"; cases "stateByPlan ts' d") (auto simp: satisfied_def)
qed

section \<open>Settling\<close>

definition settled :: "task list \<Rightarrow> bool" where
  "settled ts \<longleftrightarrow> list_all (\<lambda>t. tk_state t = StatePending \<longrightarrow> \<not> tk_operator t \<and> \<not> depsOK t (stateByPlan ts)) ts"

lemma settlePass_fix: "settlePass ts = ts \<longleftrightarrow> settled ts"
proof -
  have ne: "t\<lparr>tk_state := s\<rparr> = t \<longleftrightarrow> tk_state t = s" for t :: task and s by (cases t) auto
  have "settleTask m t = t \<longleftrightarrow> (tk_state t = StatePending \<longrightarrow> \<not> tk_operator t \<and> \<not> depsOK t m)" for m t
    by (simp add: settleTask_def ne) blast
  moreover have "map f xs = xs \<longleftrightarrow> list_all (\<lambda>x. f x = x) xs" for f and xs :: "task list"
    by (induction xs) auto
  ultimately show ?thesis
    by (simp add: settlePass_def settled_def)
qed

lemma length_settlePass [simp]: "length (settlePass ts) = length ts"
  by (simp add: settlePass_def)

lemma settlePass_twice:
  assumes "list_all (\<lambda>t. tk_state t = StatePending \<longrightarrow> \<not> tk_operator t) ts"
  shows "settled (settlePass ts)"
proof -
  have "list_all2 (\<lambda>t t'. tk_plan_id t' = tk_plan_id t \<and>
     (tk_state t' \<in> {StateSucceeded, StateSkipped} \<longleftrightarrow> tk_state t \<in> {StateSucceeded, StateSkipped})) ts (settlePass ts)"
    using assms by (simp add: settlePass_def list.rel_map list_all_iff settleTask_def list_all2_same) blast
  note sat = satisfied_cong [OF this]
  have "set (settlePass ts) = settleTask (stateByPlan ts) ` set ts"
    by (simp add: settlePass_def)
  then show ?thesis
    using assms by (auto simp: settled_def list_all_iff depsOK_satisfied sat settleTask_def)
qed

text \<open>What settling does to one task.\<close>

definition settles :: "task \<Rightarrow> task \<Rightarrow> bool" where
  "settles t t' \<longleftrightarrow> t' = t \<or> tk_state t = StatePending \<and> tk_operator t \<and> t' = t\<lparr>tk_state := StateSkipped\<rparr> \<or>
     tk_state t = StatePending \<and> \<not> tk_operator t \<and> t' = t\<lparr>tk_state := StateReady\<rparr>"

lemma settlePass_settles: "list_all2 settles ts (settlePass ts)"
  by (simp add: settlePass_def list.rel_map list_all2_same settles_def settleTask_def)

lemma settles_trans: "settles t u \<Longrightarrow> settles u v \<Longrightarrow> settles t v"
  unfolding settles_def by auto

lemma settleLoop_settles: "list_all2 settles ts (settleLoop n ts)"
proof (induction n arbitrary: ts)
  case (Suc n)
  then show ?case
    using list_all2_trans [OF settles_trans settlePass_settles Suc.IH [of "settlePass ts"]]
    by (simp add: Let_def list_all2_same settles_def)
qed (simp add: list_all2_same settles_def)

lemma settle_settles: "list_all2 settles ts (settle ts)"
  by (simp add: settle_def settleLoop_settles)

lemma evolves_settles: "task_evolves t u \<Longrightarrow> settles u v \<Longrightarrow> task_evolves t v"
  unfolding settles_def
  by (elim disjE conjE) (cases "tk_state t", simp_all add: task_evolves_def terminal_def)+

lemma tasks_evolve_settle: "tasks_evolve ts us \<Longrightarrow> tasks_evolve ts (settle us)"
  by (rule list_all2_trans [OF evolves_settles _ settle_settles])

lemma settleLoop_fix: "settled ts \<Longrightarrow> settleLoop n ts = ts"
  by (cases n) (simp_all add: settlePass_fix)

text \<open>Two passes suffice, and one if there is a single task: the loop bound of \<open>settle\<close> is never what stops it early.\<close>

lemma settleLoop_Suc: "settleLoop (Suc n) ts = settleLoop n (settlePass ts)"
  using settlePass_fix [of ts] settleLoop_fix [of ts n] by (cases "settled ts") (simp_all add: Let_def)

lemma settlePass_no_operator: "list_all (\<lambda>t. tk_state t = StatePending \<longrightarrow> \<not> tk_operator t) (settlePass ts)"
  by (auto simp: settlePass_def list_all_iff settleTask_def)

lemma settle_settled: "settled (settle ts)"
proof (cases ts)
  case (Cons t us)
  show ?thesis
  proof (cases us)
    case Nil
    have "settled (settlePass [t])"
    proof (cases "tk_state t = StatePending \<and> tk_operator t")
      case False
      then show ?thesis by (intro settlePass_twice) auto
    qed (simp add: settlePass_def settleTask_def settled_def)
    then show ?thesis using Cons Nil by (simp add: settle_def settleLoop_Suc del: settleLoop.simps(2))
  next
    case (Cons u vs)
    have "settled (settlePass (settlePass ts))"
      by (rule settlePass_twice [OF settlePass_no_operator])
    then show ?thesis
      using \<open>ts = t # us\<close> Cons by (simp add: settle_def settleLoop_Suc settleLoop_fix del: settleLoop.simps(2))
  qed
qed (simp add: settle_def settled_def)

lemma settleLoop_more: "settled (settleLoop m ts) \<Longrightarrow> settleLoop (m + n) ts = settleLoop m ts"
proof (induction m arbitrary: ts)
  case (Suc m)
  then show ?case by (cases "settlePass ts = ts") (simp_all add: Let_def)
qed (simp add: settleLoop_fix)

text \<open>
  C28: The loop of \<open>settle\<close> ends by itself: its bound, the number of tasks, always reaches a fixpoint of the pass, so that
  any larger bound gives the same tasks.
\<close>

theorem settle_terminates: "settlePass (settle ts) = settle ts \<and> settleLoop (length ts + n) ts = settle ts"
  using settle_settled [of ts] settleLoop_more [of "length ts" ts n] by (simp add: settlePass_fix settle_def)

lemma settle_fix: "settled ts \<Longrightarrow> settle ts = ts"
  by (simp add: settle_def settleLoop_fix)

lemma settled_cong:
  assumes "list_all2 (\<lambda>t t'. tk_plan_id t' = tk_plan_id t \<and> tk_operator t' = tk_operator t \<and> tk_depends_on t' = tk_depends_on t \<and>
     (tk_state t' = StatePending \<longrightarrow> tk_state t = StatePending) \<and>
     (tk_state t' \<in> {StateSucceeded, StateSkipped} \<longleftrightarrow> tk_state t \<in> {StateSucceeded, StateSkipped})) ts ts'" (is "list_all2 ?R ts ts'")
    and "settled ts"
  shows "settled ts'"
proof -
  have "satisfied (stateByPlan ts') = satisfied (stateByPlan ts)"
    by (rule satisfied_cong) (rule list_all2_mono [OF assms(1)], auto)
  then show ?thesis
    using assms by (simp add: settled_def list_all_length depsOK_satisfied list_all2_conv_all_nth)
qed

section \<open>The invariant of a task list\<close>

definition runnable :: "task_state \<Rightarrow> bool" where
  "runnable s \<longleftrightarrow> s = StateReady \<or> s = StateLeased \<or> s = StateSucceeded"

definition deps_ok :: "task list \<Rightarrow> bool" where
  "deps_ok ts \<longleftrightarrow> list_all (\<lambda>t. runnable (tk_state t) \<longrightarrow> depsOK t (stateByPlan ts)) ts"

definition task_shape :: "task \<Rightarrow> bool" where
  "task_shape t \<longleftrightarrow> (tk_operator t \<longrightarrow> tk_state t = StateSkipped) \<and>
     (if tk_state t = StateLeased then trim_space (tk_worker t) \<noteq> [] else tk_worker t = [] \<and> tk_lease_until t = 0)"

definition tasks_ok :: "task list \<Rightarrow> bool" where
  "tasks_ok ts \<longleftrightarrow> settled ts \<and> deps_ok ts \<and> list_all task_shape ts"

lemma depsOK_mono: "tasks_evolve ts ts' \<Longrightarrow> tk_depends_on t' = tk_depends_on t \<Longrightarrow> depsOK t (stateByPlan ts) \<Longrightarrow> depsOK t' (stateByPlan ts')"
  by (simp add: depsOK_satisfied list_all_iff satisfied_mono)

lemma deps_ok_evolve:
  assumes "tasks_evolve ts ts'" and "deps_ok ts"
    and "list_all2 (\<lambda>t t'. runnable (tk_state t') \<longrightarrow> runnable (tk_state t) \<or> depsOK t (stateByPlan ts)) ts ts'"
  shows "deps_ok ts'"
proof -
  have "depsOK (ts' ! i) (stateByPlan ts')" if "i < length ts'" "runnable (tk_state (ts' ! i))" for i
    using assms that depsOK_mono [OF assms(1), of "ts' ! i" "ts ! i"]
    by (simp add: deps_ok_def list_all_length list_all2_conv_all_nth task_evolves_def) blast
  then show ?thesis by (simp add: deps_ok_def list_all_length)
qed

lemma settles_evolves: "settles t t' \<Longrightarrow> task_evolves t t'"
  using evolves_settles [OF task_evolves_refl] .

lemma deps_ok_settlePass: "deps_ok ts \<Longrightarrow> deps_ok (settlePass ts)"
proof (rule deps_ok_evolve)
  show "tasks_evolve ts (settlePass ts)"
    by (rule list_all2_mono [OF settlePass_settles settles_evolves])
  show "list_all2 (\<lambda>t t'. runnable (tk_state t') \<longrightarrow> runnable (tk_state t) \<or> depsOK t (stateByPlan ts)) ts (settlePass ts)"
    by (simp add: settlePass_def list.rel_map list_all2_same settleTask_def runnable_def)
qed

lemma deps_ok_settle: "deps_ok ts \<Longrightarrow> deps_ok (settle ts)"
proof -
  have "deps_ok ts \<Longrightarrow> deps_ok (settleLoop n ts)" for n
    by (induction n arbitrary: ts) (simp_all add: Let_def deps_ok_settlePass)
  then show "deps_ok ts \<Longrightarrow> deps_ok (settle ts)" by (simp add: settle_def)
qed

lemma list_all_transfer:
  "list_all2 R xs ys \<Longrightarrow> list_all P xs \<Longrightarrow> (\<And>x y. R x y \<Longrightarrow> P x \<Longrightarrow> Q y) \<Longrightarrow> list_all Q ys"
  by (induction rule: list_all2_induct) simp_all

lemma settles_shape: "settles t t' \<Longrightarrow> task_shape t \<Longrightarrow> task_shape t'"
  unfolding settles_def by (elim disjE conjE) (simp_all add: task_shape_def)

lemma shape_settle: "list_all task_shape ts \<Longrightarrow> list_all task_shape (settle ts)"
  by (rule list_all_transfer [OF settle_settles _ settles_shape])

lemma tasks_ok_settle: "deps_ok ts \<Longrightarrow> list_all task_shape ts \<Longrightarrow> tasks_ok (settle ts)"
  by (simp add: tasks_ok_def settle_settled deps_ok_settle shape_settle)

text \<open>A change of one task, and a change of every task, that starts nothing.\<close>

lemma tasks_ok_step:
  assumes "tasks_ok ts" and "tasks_evolve ts us"
    and "list_all2 (\<lambda>t u. runnable (tk_state u) \<longrightarrow> runnable (tk_state t)) ts us" and "list_all task_shape us"
  shows "tasks_ok (settle us)"
proof (rule tasks_ok_settle)
  have "list_all2 (\<lambda>t u. runnable (tk_state u) \<longrightarrow> runnable (tk_state t) \<or> depsOK t (stateByPlan ts)) ts us"
    by (rule list_all2_mono [OF assms(3)]) simp
  then show "deps_ok us" using deps_ok_evolve assms(1,2) by (simp add: tasks_ok_def)
qed (fact assms(4))

lemma list_all_update: "list_all P xs \<Longrightarrow> P x \<Longrightarrow> list_all P (xs[i := x])"
  by (cases "i < length xs") (auto simp: list_all_length nth_list_update)

lemma list_all2_update: "(\<And>x. R x x) \<Longrightarrow> R (xs ! i) y \<Longrightarrow> list_all2 R xs (xs[i := y])"
  by (cases "i < length xs") (auto simp: list_all2_conv_all_nth nth_list_update)

section \<open>The transitions on one task\<close>

lemma claim_evolves: "tk_state t = StateReady \<Longrightarrow> task_evolves t (claim attempt w now t)"
  by (simp add: claim_def task_evolves_def terminal_def)

lemma applyCommit_evolves: "applyCommit attempt result fail t = Inr t' \<Longrightarrow> task_evolves t t'"
  by (auto simp: applyCommit_def task_evolves_def terminal_def split: if_splits)

lemma applyHeartbeat_evolves: "applyHeartbeat attempt w now t = Inr t' \<Longrightarrow> task_evolves t t'"
  by (auto simp: applyHeartbeat_def task_evolves_def terminal_def split: if_splits)

lemma requeue_evolves: "task_evolves t (fst (requeue now c t))"
  by (simp add: requeue_def task_evolves_def terminal_def)

lemma cancelTask_evolves: "task_evolves t (cancelTask t)"
  by (simp add: cancelTask_def task_evolves_def terminal_def)

lemma deadlineTask_evolves: "task_evolves t (deadlineTask t)"
  by (simp add: deadlineTask_def task_evolves_def terminal_def)

lemmas evolves_intros =
  claim_evolves applyCommit_evolves applyHeartbeat_evolves requeue_evolves cancelTask_evolves deadlineTask_evolves

lemma requeue_shape: "task_shape t \<Longrightarrow> task_shape (fst (requeue now c t))"
  by (auto simp: requeue_def task_shape_def)

lemma cancelTask_shape: "task_shape t \<Longrightarrow> task_shape (cancelTask t)"
  by (auto simp: cancelTask_def task_shape_def split: if_splits)

lemma deadlineTask_shape: "task_shape t \<Longrightarrow> task_shape (deadlineTask t)"
  by (auto simp: deadlineTask_def task_shape_def split: if_splits)

lemma applyCommit_shape: "applyCommit attempt result fail t = Inr t' \<Longrightarrow> task_shape t \<Longrightarrow> task_shape t'"
  by (auto simp: applyCommit_def task_shape_def split: if_splits)

lemma applyHeartbeat_shape: "applyHeartbeat attempt w now t = Inr t' \<Longrightarrow> task_shape t \<Longrightarrow> task_shape t'"
  by (auto simp: applyHeartbeat_def task_shape_def split: if_splits)

section \<open>The invariant of a job\<close>

definition job_ok :: "net_env \<Rightarrow> job \<Rightarrow> bool" where
  "job_ok E j \<longleftrightarrow> jb_status j = (if jb_canceled j then StatusCanceled else jobStatus (jb_tasks j)) \<and>
     tasks_ok (jb_tasks j) \<and> decideJob E j = j \<and>
     rev_source (jb_baseline_rev j) = ''declared'' \<and> rev_source (jb_patch_rev j) = ''declared''"

text \<open>What identifies a job and never changes.\<close>

definition same_job :: "job \<Rightarrow> job \<Rightarrow> bool" where
  "same_job j j' \<longleftrightarrow> jb_id j' = jb_id j \<and> jb_created j' = jb_created j \<and> jb_service j' = jb_service j \<and>
     jb_baseline j' = jb_baseline j \<and> jb_patch j' = jb_patch j \<and> jb_baseline_rev j' = jb_baseline_rev j \<and>
     jb_patch_rev j' = jb_patch_rev j \<and> jb_deadline j' = jb_deadline j \<and> jb_plan j' = jb_plan j \<and>
     jb_workload j' = jb_workload j \<and> jb_impacted j' = jb_impacted j \<and> jb_changes j' = jb_changes j"

inductive job_step :: "net_env \<Rightarrow> job \<Rightarrow> job \<Rightarrow> bool" for E :: net_env where
  step_expire: "job_step E j (fst (expireJob E now j))"
| step_lease: "ti < length (jb_tasks j) \<Longrightarrow> tk_state (jb_tasks j ! ti) = StateReady \<Longrightarrow> \<not> jb_canceled j \<Longrightarrow>
     trim_space w \<noteq> [] \<Longrightarrow> job_step E j (leaseJob attempt w now ti j)"
| step_heartbeat: "i < length (jb_tasks j) \<Longrightarrow> applyHeartbeat attempt w now (jb_tasks j ! i) = Inr t \<Longrightarrow>
     job_step E j (j\<lparr>jb_tasks := (jb_tasks j)[i := t]\<rparr>)"
| step_commit: "i < length (jb_tasks j) \<Longrightarrow> applyCommit attempt result fail (jb_tasks j ! i) = Inr t \<Longrightarrow>
     job_step E j (refreshJob E (j\<lparr>jb_tasks := (jb_tasks j)[i := t]\<rparr>))"
| step_cancel: "job_step E j (applyCancel E j)"

lemma jobDecision_irrelevant [simp]:
  "jobDecision E (j\<lparr>jb_validated := v\<rparr>) = jobDecision E j"
  "jobDecision E (j\<lparr>jb_blockers := b\<rparr>) = jobDecision E j"
  by (simp_all add: jobDecision_def jobEvidence_def)

lemma decideJob_idem [simp]: "decideJob E (decideJob E j) = decideJob E j"
  by (simp add: decideJob_def Let_def)

lemma decideJob_fix: "decideJob E j = j \<longleftrightarrow> jb_validated j = dn_validated (jobDecision E j) \<and> jb_blockers j = dn_blockers (jobDecision E j)"
  by (cases j) (auto simp: decideJob_def Let_def)

lemma decideJob_simps [simp]:
  "jb_tasks (decideJob E j) = jb_tasks j" "jb_status (decideJob E j) = jb_status j" "jb_canceled (decideJob E j) = jb_canceled j"
  "jb_id (decideJob E j) = jb_id j" "jb_created (decideJob E j) = jb_created j" "jb_service (decideJob E j) = jb_service j"
  "jb_deadline (decideJob E j) = jb_deadline j" "jb_baseline (decideJob E j) = jb_baseline j" "jb_patch (decideJob E j) = jb_patch j"
  "jb_plan (decideJob E j) = jb_plan j" "jb_workload (decideJob E j) = jb_workload j" "jb_impacted (decideJob E j) = jb_impacted j"
  "jb_changes (decideJob E j) = jb_changes j"
  "jb_baseline_rev (decideJob E j) = jb_baseline_rev j" "jb_patch_rev (decideJob E j) = jb_patch_rev j"
  "same_job i (decideJob E j) = same_job i j"
  by (simp_all add: decideJob_def Let_def same_job_def)

lemma refreshJob_simps [simp]:
  "jb_tasks (refreshJob E j) = settle (jb_tasks j)" "jb_canceled (refreshJob E j) = jb_canceled j"
  "jb_status (refreshJob E j) = (if jb_canceled j then StatusCanceled else jobStatus (settle (jb_tasks j)))"
  "jb_id (refreshJob E j) = jb_id j" "jb_created (refreshJob E j) = jb_created j" "jb_service (refreshJob E j) = jb_service j"
  "jb_deadline (refreshJob E j) = jb_deadline j" "jb_baseline (refreshJob E j) = jb_baseline j" "jb_patch (refreshJob E j) = jb_patch j"
  "jb_plan (refreshJob E j) = jb_plan j" "jb_workload (refreshJob E j) = jb_workload j" "jb_impacted (refreshJob E j) = jb_impacted j"
  "jb_changes (refreshJob E j) = jb_changes j"
  "jb_baseline_rev (refreshJob E j) = jb_baseline_rev j" "jb_patch_rev (refreshJob E j) = jb_patch_rev j"
  "same_job i (refreshJob E j) = same_job i j" "decideJob E (refreshJob E j) = refreshJob E j"
  by (simp_all add: refreshJob_def Let_def same_job_def)

lemma refreshJob_ok:
  "tasks_ok (settle (jb_tasks j)) \<Longrightarrow> rev_source (jb_baseline_rev j) = ''declared'' \<Longrightarrow>
   rev_source (jb_patch_rev j) = ''declared'' \<Longrightarrow> job_ok E (refreshJob E j)"
  by (simp add: job_ok_def)

lemma jobStatus_unfinished:
  "jobStatus ts = StatusPending \<or> jobStatus ts = StatusRunning \<Longrightarrow>
   list_ex (\<lambda>t. tk_state t = StatePending \<or> tk_state t = StateReady \<or> tk_state t = StateLeased) ts"
  by (auto simp: jobStatus_def list_ex_iff split: if_splits)

lemma unfinished_cases:
  assumes "job_ok E j" and "\<not> finished j"
  shows "\<not> jb_canceled j" and "occupies j"
    and "list_ex (\<lambda>t. tk_state t = StatePending \<or> tk_state t = StateReady \<or> tk_state t = StateLeased) (jb_tasks j)"
proof -
  show c: "\<not> jb_canceled j" using assms by (simp add: finished_def)
  show o: "occupies j"
    using assms by (cases "jb_status j") (simp_all add: finished_def occupies_def)
  show "list_ex (\<lambda>t. tk_state t = StatePending \<or> tk_state t = StateReady \<or> tk_state t = StateLeased) (jb_tasks j)"
    using jobStatus_unfinished [of "jb_tasks j"] assms c o by (simp add: job_ok_def occupies_def)
qed

lemma list_ex_map_mono: "list_ex P xs \<Longrightarrow> (\<And>x. P x \<Longrightarrow> Q (f x)) \<Longrightarrow> list_ex Q (map f xs)"
  by (induction xs) auto

lemma failDeadline_ok:
  assumes "job_ok E j" and "failDeadline E now j = Some j'"
  shows "job_ok E j'" and "tasks_evolve (jb_tasks j) (jb_tasks j')" and "same_job j j'" and "\<not> occupies j'"
    and "jb_canceled j' = jb_canceled j"
proof -
  let ?ts = "map deadlineTask (jb_tasks j)"
  have j': "j' = decideJob E (j\<lparr>jb_tasks := ?ts, jb_status := StatusFailed\<rparr>)" and nf: "\<not> finished j"
    using assms(2) by (simp_all add: failDeadline_def split: option.splits if_splits)
  have ev: "tasks_evolve (jb_tasks j) ?ts"
    by (simp add: list.rel_map list_all2_same deadlineTask_evolves)
  have "list_ex (\<lambda>t. tk_state t = StateFailed) ?ts"
    by (rule list_ex_map_mono [OF unfinished_cases(3) [OF assms(1) nf]]) (simp add: deadlineTask_def)
  then have st: "jobStatus ?ts = StatusFailed" by (simp add: jobStatus_def)
  have "tk_state (deadlineTask t) \<noteq> StatePending" for t by (simp add: deadlineTask_def)
  then have "settled ?ts" by (simp add: settled_def list_all_iff)
  moreover have "deps_ok ?ts"
    by (rule deps_ok_evolve [OF ev])
      (use assms(1) in \<open>simp_all add: job_ok_def tasks_ok_def list.rel_map list_all2_same deadlineTask_def runnable_def\<close>)
  moreover have "list_all task_shape ?ts"
    using assms(1) by (simp add: job_ok_def tasks_ok_def list_all_iff deadlineTask_shape)
  ultimately show "job_ok E j'"
    using assms(1) unfinished_cases(1) [OF assms(1) nf] by (simp add: job_ok_def tasks_ok_def j' st)
  show "tasks_evolve (jb_tasks j) (jb_tasks j')" "same_job j j'" "\<not> occupies j'" "jb_canceled j' = jb_canceled j"
    using ev by (simp_all add: j' same_job_def occupies_def)
qed

lemma refresh_step:
  assumes "job_ok E j" and "tasks_evolve (jb_tasks j) us"
    and "list_all2 (\<lambda>t u. runnable (tk_state u) \<longrightarrow> runnable (tk_state t)) (jb_tasks j) us" and "list_all task_shape us"
  shows "job_ok E (refreshJob E (j\<lparr>jb_canceled := c, jb_tasks := us\<rparr>))"
  by (rule refreshJob_ok) (use tasks_ok_step [of "jb_tasks j" us] assms in \<open>simp_all add: job_ok_def\<close>)

lemma refresh_step':
  assumes "job_ok E j" and "tasks_evolve (jb_tasks j) us"
    and "list_all2 (\<lambda>t u. runnable (tk_state u) \<longrightarrow> runnable (tk_state t)) (jb_tasks j) us" and "list_all task_shape us"
  shows "job_ok E (refreshJob E (j\<lparr>jb_tasks := us\<rparr>))"
  using refresh_step [OF assms, of "jb_canceled j"] by simp

lemma fst_expireJob:
  "fst (expireJob E now j) =
     (case failDeadline E now j of Some j' \<Rightarrow> j'
      | None \<Rightarrow> if filter snd (map (requeue now (jb_canceled j)) (jb_tasks j)) = [] then j
                 else refreshJob E (j\<lparr>jb_tasks := map fst (map (requeue now (jb_canceled j)) (jb_tasks j))\<rparr>))"
  by (simp only: expireJob_def Let_def length_greater_0_conv split: option.split) simp

lemma expireJob_ok:
  assumes "job_ok E j"
  shows "job_ok E (fst (expireJob E now j))" and "tasks_evolve (jb_tasks j) (jb_tasks (fst (expireJob E now j)))"
    and "same_job j (fst (expireJob E now j))" and "jb_canceled (fst (expireJob E now j)) = jb_canceled j"
proof -
  let ?us = "map fst (map (requeue now (jb_canceled j)) (jb_tasks j))"
  have ev: "tasks_evolve (jb_tasks j) ?us"
    by (simp add: list.rel_map list_all2_same requeue_evolves)
  have ok: "job_ok E (refreshJob E (j\<lparr>jb_tasks := ?us\<rparr>))"
  proof (rule refresh_step' [OF assms ev])
    show "list_all2 (\<lambda>t u. runnable (tk_state u) \<longrightarrow> runnable (tk_state t)) (jb_tasks j) ?us"
      by (simp add: list.rel_map list_all2_same requeue_def runnable_def)
    show "list_all task_shape ?us"
      using assms by (simp add: list_all_iff requeue_shape job_ok_def tasks_ok_def)
  qed
  have "job_ok E (fst (expireJob E now j)) \<and> tasks_evolve (jb_tasks j) (jb_tasks (fst (expireJob E now j))) \<and>
      same_job j (fst (expireJob E now j)) \<and> jb_canceled (fst (expireJob E now j)) = jb_canceled j"
  proof (cases "failDeadline E now j")
    case None
    then have "fst (expireJob E now j) = j \<or> fst (expireJob E now j) = refreshJob E (j\<lparr>jb_tasks := ?us\<rparr>)"
      by (simp only: fst_expireJob option.simps split: if_split) blast
    then show ?thesis
    proof
      assume e: "fst (expireJob E now j) = refreshJob E (j\<lparr>jb_tasks := ?us\<rparr>)"
      show ?thesis unfolding e using ok tasks_evolve_settle [OF ev] by (simp add: same_job_def)
    qed (simp add: assms same_job_def)
  next
    case (Some j')
    then have e: "fst (expireJob E now j) = j'" by (simp add: fst_expireJob)
    show ?thesis unfolding e using failDeadline_ok [OF assms Some] by blast
  qed
  then show "job_ok E (fst (expireJob E now j))" "tasks_evolve (jb_tasks j) (jb_tasks (fst (expireJob E now j)))"
    "same_job j (fst (expireJob E now j))" "jb_canceled (fst (expireJob E now j)) = jb_canceled j"
    by blast+
qed

lemma settled_lease:
  assumes "settled ts" and "ti < length ts" and "tk_state (ts ! ti) = StateReady"
  shows "settled (ts[ti := claim a w now (ts ! ti)])"
  by (rule settled_cong [OF _ assms(1)], rule list_all2_update) (simp_all add: claim_def assms(3))

lemma jobStatus_lease:
  assumes "ti < length ts" and "tk_state (ts ! ti) = StateReady"
  shows "jobStatus (ts[ti := claim a w now (ts ! ti)]) = jobStatus ts"
proof -
  have ex: "list_ex P (ts[ti := u]) \<longleftrightarrow> P u \<or> list_ex P (take ti ts) \<or> list_ex P (drop (Suc ti) ts)" for P u
    by (simp add: upd_conv_take_nth_drop [OF assms(1)]) blast
  have ex0: "list_ex P ts \<longleftrightarrow> P (ts ! ti) \<or> list_ex P (take ti ts) \<or> list_ex P (drop (Suc ti) ts)" for P
    using ex [of P "ts ! ti"] by simp
  show ?thesis
    by (simp add: jobStatus_def ex ex0 claim_def assms(2))
qed

lemma leaseJob_ok:
  assumes "job_ok E j" and "ti < length (jb_tasks j)" and "tk_state (jb_tasks j ! ti) = StateReady"
    and "\<not> jb_canceled j" and "trim_space w \<noteq> []"
  shows "job_ok E (leaseJob a w now ti j)" and "tasks_evolve (jb_tasks j) (jb_tasks (leaseJob a w now ti j))"
    and "same_job j (leaseJob a w now ti j)" and "jb_canceled (leaseJob a w now ti j) = jb_canceled j"
    and "refreshJob E (j\<lparr>jb_tasks := (jb_tasks j)[ti := claim a w now (jb_tasks j ! ti)]\<rparr>) = leaseJob a w now ti j"
proof -
  let ?us = "(jb_tasks j)[ti := claim a w now (jb_tasks j ! ti)]"
  have st: "jobStatus ?us = jb_status j"
    using jobStatus_lease assms(1-4) by (simp add: job_ok_def)
  have l: "leaseJob a w now ti j = j\<lparr>jb_tasks := ?us\<rparr>"
    using st by (simp add: leaseJob_def Let_def)
  have ev: "tasks_evolve (jb_tasks j) ?us"
    by (intro tasks_evolve_update claim_evolves assms)
  have "jb_status j \<noteq> StatusComplete"
    using assms(1-4) by (auto simp: job_ok_def jobStatus_def list_ex_length)
  then have dec: "decideJob E (leaseJob a w now ti j) = leaseJob a w now ti j"
    using assms(1) by (simp add: job_ok_def decideJob_fix l jobDecision_def)
  have set: "settled ?us" using settled_lease assms(1-3) by (simp add: job_ok_def tasks_ok_def)
  have "deps_ok ?us"
    by (rule deps_ok_evolve [OF ev])
      (use assms in \<open>simp_all add: job_ok_def tasks_ok_def list_all2_update runnable_def\<close>)
  moreover have "list_all task_shape ?us"
  proof (rule list_all_update)
    show "list_all task_shape (jb_tasks j)" using assms(1) by (simp add: job_ok_def tasks_ok_def)
    then have "task_shape (jb_tasks j ! ti)" using assms(2) by (simp add: list_all_length)
    then show "task_shape (claim a w now (jb_tasks j ! ti))"
      using assms(3,5) by (simp add: task_shape_def claim_def)
  qed
  ultimately show "job_ok E (leaseJob a w now ti j)"
    using assms dec set st by (simp add: job_ok_def tasks_ok_def l)
  show "tasks_evolve (jb_tasks j) (jb_tasks (leaseJob a w now ti j))" "same_job j (leaseJob a w now ti j)"
    "jb_canceled (leaseJob a w now ti j) = jb_canceled j"
    using ev by (simp_all add: l same_job_def)
  show "refreshJob E (j\<lparr>jb_tasks := ?us\<rparr>) = leaseJob a w now ti j"
    using dec st assms(4) by (simp add: refreshJob_def Let_def settle_fix [OF set] l)
qed

lemma commit_step:
  assumes "job_ok E j" and "i < length (jb_tasks j)" and "applyCommit a result fail (jb_tasks j ! i) = Inr t"
  shows "job_ok E (refreshJob E (j\<lparr>jb_tasks := (jb_tasks j)[i := t]\<rparr>))"
    and "tasks_evolve (jb_tasks j) (settle ((jb_tasks j)[i := t]))"
proof -
  have ev: "tasks_evolve (jb_tasks j) ((jb_tasks j)[i := t])"
    by (intro tasks_evolve_update applyCommit_evolves [OF assms(3)])
  then show "tasks_evolve (jb_tasks j) (settle ((jb_tasks j)[i := t]))" by (rule tasks_evolve_settle)
  have sh: "list_all task_shape (jb_tasks j)" using assms(1) by (simp add: job_ok_def tasks_ok_def)
  have "tk_state (jb_tasks j ! i) = StateLeased"
    using assms(3) by (simp add: applyCommit_def split: if_splits)
  then show "job_ok E (refreshJob E (j\<lparr>jb_tasks := (jb_tasks j)[i := t]\<rparr>))"
    using sh assms(2) applyCommit_shape [OF assms(3)]
    by (intro refresh_step' [OF assms(1) ev] list_all2_update list_all_update) (simp_all add: runnable_def list_all_length)
qed

lemma evidenceStep_lease_until [simp]: "evidenceStep (t\<lparr>tk_lease_until := x\<rparr>) = evidenceStep t"
  by (cases "tk_state t") (simp_all add: evidenceStep_def Let_def)

lemma jobStatus_states: "map tk_state us = map tk_state vs \<Longrightarrow> jobStatus us = jobStatus vs"
proof -
  assume states: "map tk_state us = map tk_state vs"
  have ex: "list_ex (\<lambda>t. tk_state t = s) ts \<longleftrightarrow> s \<in> set (map tk_state ts)" for s and ts :: "task list"
    by (induction ts) auto
  show "jobStatus us = jobStatus vs" unfolding jobStatus_def ex states ..
qed

lemma heartbeat_step:
  assumes "job_ok E j" and "i < length (jb_tasks j)" and "applyHeartbeat a w now (jb_tasks j ! i) = Inr t"
  shows "job_ok E (j\<lparr>jb_tasks := (jb_tasks j)[i := t]\<rparr>)" and "tasks_evolve (jb_tasks j) ((jb_tasks j)[i := t])"
proof -
  let ?t0 = "jb_tasks j ! i" and ?us = "(jb_tasks j)[i := t]"
  have t: "t = ?t0\<lparr>tk_lease_until := now + leaseTTL\<rparr>" and leased: "tk_state ?t0 = StateLeased"
    using assms(3) by (simp_all add: applyHeartbeat_def split: if_splits)
  show ev: "tasks_evolve (jb_tasks j) ?us"
    by (intro tasks_evolve_update applyHeartbeat_evolves [OF assms(3)])
  have sh: "list_all task_shape (jb_tasks j)" and st: "settled (jb_tasks j)" and dp: "deps_ok (jb_tasks j)"
    using assms(1) by (simp_all add: job_ok_def tasks_ok_def)
  have "settled ?us"
    by (rule settled_cong [OF _ st], rule list_all2_update) (simp_all add: t)
  moreover have "deps_ok ?us"
    by (rule deps_ok_evolve [OF ev dp], rule list_all2_update) (simp_all add: t)
  moreover have "list_all task_shape ?us"
    using sh assms(2) applyHeartbeat_shape [OF assms(3)] by (intro list_all_update) (simp_all add: list_all_length)
  moreover have states: "map tk_state ?us = map tk_state (jb_tasks j)"
    using assms(2) by (simp add: t map_update list_update_same_conv)
  have ev_same: "map evidenceStep ?us = map evidenceStep (jb_tasks j)"
    using assms(2) by (simp add: t map_update list_update_same_conv)
  note jobStatus_states [OF states]
  ultimately show "job_ok E (j\<lparr>jb_tasks := ?us\<rparr>)"
    using assms(1) by (simp add: job_ok_def tasks_ok_def decideJob_fix jobDecision_def jobEvidence_def ev_same)
qed

lemma cancel_step:
  assumes "job_ok E j"
  shows "job_ok E (applyCancel E j)" and "tasks_evolve (jb_tasks j) (jb_tasks (applyCancel E j))"
    and "same_job j (applyCancel E j)" and "jb_canceled j \<Longrightarrow> jb_canceled (applyCancel E j)"
proof -
  let ?us = "map cancelTask (jb_tasks j)"
  have ev: "tasks_evolve (jb_tasks j) ?us"
    by (simp add: list.rel_map list_all2_same cancelTask_evolves)
  have "job_ok E (refreshJob E (j\<lparr>jb_canceled := True, jb_tasks := ?us\<rparr>))"
  proof (rule refresh_step [OF assms ev])
    show "list_all2 (\<lambda>t u. runnable (tk_state u) \<longrightarrow> runnable (tk_state t)) (jb_tasks j) ?us"
      by (simp add: list.rel_map list_all2_same cancelTask_def runnable_def)
    show "list_all task_shape ?us"
      using assms by (simp add: list_all_iff cancelTask_shape job_ok_def tasks_ok_def)
  qed
  then show "job_ok E (applyCancel E j)" "tasks_evolve (jb_tasks j) (jb_tasks (applyCancel E j))"
    "same_job j (applyCancel E j)" "jb_canceled j \<Longrightarrow> jb_canceled (applyCancel E j)"
    using assms tasks_evolve_settle [OF ev] by (simp_all add: applyCancel_def same_job_def)
qed

theorem job_step_ok:
  assumes "job_step E j j'" and "job_ok E j"
  shows "job_ok E j' \<and> tasks_evolve (jb_tasks j) (jb_tasks j') \<and> same_job j j' \<and> (jb_canceled j \<longrightarrow> jb_canceled j')"
  using assms
proof (cases rule: job_step.cases)
  case (step_expire now)
  then show ?thesis using expireJob_ok [OF assms(2), of now] by simp
next
  case (step_lease ti w attempt now)
  then show ?thesis using leaseJob_ok [OF assms(2)] by simp
next
  case (step_heartbeat i attempt w now t)
  then show ?thesis using heartbeat_step [OF assms(2)] by (simp add: same_job_def)
next
  case (step_commit i attempt result fail t)
  then show ?thesis using commit_step [OF assms(2)] by (simp add: same_job_def)
next
  case step_cancel
  then show ?thesis using cancel_step [OF assms(2)] by simp
qed

end
