(* ===== verification/Job_Lifecycle.thy ===== *)
theory Job_Lifecycle
  imports Job_Invariants
begin

text \<open>
  The life of a job: the job \<open>buildJob\<close> makes satisfies the invariant, a finished job never becomes active
  again, deadlines release jobs, a job is never called validated on declared revisions, jobs with a well-founded
  plan are never stuck, the next task is chosen fairly and within the quotas, and task ids identify tasks.
\<close>

section \<open>Enqueueing\<close>

lemma buildJob_Inr:
  assumes "buildJob E vnow now jid opts = Inr j"
  shows "jb_id j = jid" and "jb_canceled j = False"
    and "jb_tasks j = settle (map (\<lambda>(i, s). newTask jid i s) (enumerate 0 (dg_steps (co_plan opts))))"
    and "job_ok E j" and "jb_service j = clipService (co_service opts)"
    and "jb_baseline j = co_baseline opts" and "jb_patch j = co_patch opts" and "jb_plan j = co_plan opts"
    and "jb_created j = truncate_time millisecond now"
    and "jb_deadline j = (if co_deadline opts = 0 then truncate_time millisecond now + DefaultDeadline else co_deadline opts)"
    and "validateCreate E vnow opts = None"
proof -
  let ?ts = "map (\<lambda>(i, s). newTask jid i s) (enumerate 0 (dg_steps (co_plan opts)))"
  have v: "validateCreate E vnow opts = None"
    using assms by (simp add: buildJob_def split: option.splits)
  have deps: "deps_ok ?ts" and shape: "list_all task_shape ?ts"
    by (simp_all add: deps_ok_def list_all_iff split_beta newTask_def runnable_def task_shape_def)
  have ok: "tasks_ok (settle ?ts)" by (rule tasks_ok_settle [OF deps shape])
  have fp: "settle (settle ?ts) = settle ?ts" by (rule settle_fix [OF settle_settled])
  show "validateCreate E vnow opts = None" by (rule v)
  show "job_ok E j"
    using assms ok unfolding buildJob_def v option.case Let_def
    by (auto simp: fp intro!: refreshJob_ok)
  show "jb_id j = jid" "jb_canceled j = False" "jb_tasks j = settle ?ts" "jb_service j = clipService (co_service opts)"
    "jb_baseline j = co_baseline opts" "jb_patch j = co_patch opts" "jb_plan j = co_plan opts"
    "jb_created j = truncate_time millisecond now"
    "jb_deadline j = (if co_deadline opts = 0 then truncate_time millisecond now + DefaultDeadline else co_deadline opts)"
    using assms unfolding buildJob_def v option.case Let_def by (auto simp: fp)
qed

section \<open>Never validated on declared revisions\<close>

lemma Decide_unbuilt: "rev_source (in_baseline_rev i) \<noteq> ''built'' \<Longrightarrow> \<not> dn_validated (Decide E i)"
  using revisionBlockers_Nil [of i] by (simp add: Decide_def Let_def)

lemma job_ok_not_validated: "job_ok E j \<Longrightarrow> \<not> jb_validated j"
  using Decide_unbuilt by (simp add: job_ok_def decideJob_fix jobDecision_def)

section \<open>Finished jobs stay finished\<close>

lemma jobStatus_Failed_mono:
  "jobStatus ts = StatusFailed \<Longrightarrow> tasks_evolve ts us \<Longrightarrow> jobStatus us = StatusFailed"
proof -
  assume st: "jobStatus ts = StatusFailed" and ev: "tasks_evolve ts us"
  have "list_ex (\<lambda>t. tk_state t = StateFailed) ts" using st by (simp add: jobStatus_def split: if_splits)
  with ev have "list_ex (\<lambda>t. tk_state t = StateFailed) us"
    by (induction rule: list_all2_induct) (auto simp: task_evolves_def)
  then show "jobStatus us = StatusFailed" by (simp add: jobStatus_def)
qed

lemma jobStatus_Complete: "jobStatus ts = StatusComplete \<longleftrightarrow> list_all (\<lambda>t. tk_state t = StateSucceeded \<or> tk_state t = StateSkipped) ts"
proof
  assume "jobStatus ts = StatusComplete"
  then have "\<not> list_ex (\<lambda>t. tk_state t = s) ts" if "s \<in> {StateFailed, StateLeased, StateReady, StatePending}" for s
    using that by (auto simp: jobStatus_def split: if_splits)
  then show "list_all (\<lambda>t. tk_state t = StateSucceeded \<or> tk_state t = StateSkipped) ts"
    by (auto simp: list_all_iff list_ex_iff) (metis task_state.exhaust)
qed (auto simp: jobStatus_def list_all_iff list_ex_iff)

lemma terminal_frozen:
  "tasks_evolve ts us \<Longrightarrow> list_all (\<lambda>t. terminal (tk_state t)) ts \<Longrightarrow> us = ts"
  by (induction rule: list_all2_induct) (simp_all add: task_evolves_def)

lemma job_step_finished:
  assumes "job_step E j j'" and "job_ok E j" and "\<not> occupies j"
  shows "\<not> occupies j'"
proof -
  have ok: "job_ok E j'" and ev: "tasks_evolve (jb_tasks j) (jb_tasks j')" and c: "jb_canceled j \<longrightarrow> jb_canceled j'"
    using job_step_ok [OF assms(1,2)] by blast+
  have st: "jb_status j = (if jb_canceled j then StatusCanceled else jobStatus (jb_tasks j))"
    and st': "jb_status j' = (if jb_canceled j' then StatusCanceled else jobStatus (jb_tasks j'))"
    using assms(2) ok by (simp_all add: job_ok_def)
  show ?thesis
  proof (cases "jb_canceled j'")
    case False
    then have "jb_status j = jobStatus (jb_tasks j)" and s': "jb_status j' = jobStatus (jb_tasks j')" using c st st' by auto
    then consider "jobStatus (jb_tasks j) = StatusFailed" | "jobStatus (jb_tasks j) = StatusComplete"
      using assms(3) by (simp add: occupies_def jobStatus_def split: if_splits)
    then show ?thesis
    proof cases
      case 1
      then show ?thesis using jobStatus_Failed_mono ev s' by (simp add: occupies_def)
    next
      case 2
      then have "list_all (\<lambda>t. terminal (tk_state t)) (jb_tasks j)"
        unfolding jobStatus_Complete by (rule list.pred_mono_strong) (auto simp: terminal_def)
      then show ?thesis using terminal_frozen [OF ev] 2 s' by (simp add: occupies_def)
    qed
  qed (simp add: st' occupies_def)
qed

section \<open>Deadlines release jobs\<close>

lemma expireJob_deadline:
  assumes "job_ok E j" and "effectiveDeadline j = Some d" and "d < now"
  shows "\<not> occupies (fst (expireJob E now j))"
proof (cases "finished j")
  case True
  then have "\<not> occupies j" using assms(1) by (auto simp: finished_def occupies_def job_ok_def)
  then show ?thesis using job_step_finished [OF step_expire assms(1)] by blast
next
  case False
  then obtain j' where "failDeadline E now j = Some j'"
    using assms(2,3) by (simp add: failDeadline_def)
  then show ?thesis
    using failDeadline_ok(4) [OF assms(1)] by (simp add: fst_expireJob)
qed

section \<open>The choice of the next task\<close>

lemma readyIndex_Some:
  "readyIndex k ts = Some ti \<Longrightarrow> k \<le> ti \<and> ti - k < length ts \<and>
     tk_state (ts ! (ti - k)) = StateReady \<and> \<not> tk_operator (ts ! (ti - k)) \<and>
     list_all (\<lambda>t. \<not> (tk_state t = StateReady \<and> \<not> tk_operator t)) (take (ti - k) ts)"
proof (induction k ts rule: readyIndex.induct)
  case (2 k t ts)
  show ?case
  proof (cases "tk_state t = StateReady \<and> \<not> tk_operator t")
    case False
    then have "readyIndex (Suc k) ts = Some ti" using "2.prems" by (simp add: if_split_eq1)
    from "2.IH" [OF False this] have *: "Suc k \<le> ti" "ti - Suc k < length ts" "tk_state (ts ! (ti - Suc k)) = StateReady"
      "\<not> tk_operator (ts ! (ti - Suc k))"
      "list_all (\<lambda>t. \<not> (tk_state t = StateReady \<and> \<not> tk_operator t)) (take (ti - Suc k) ts)" by blast+
    have "ti - k = Suc (ti - Suc k)" using *(1) by simp
    then show ?thesis using * False by simp
  qed (use "2.prems" in simp)
qed simp

lemma readyIndex_None:
  "readyIndex k ts = None \<longleftrightarrow> list_all (\<lambda>t. \<not> (tk_state t = StateReady \<and> \<not> tk_operator t)) ts"
  by (induction k ts rule: readyIndex.induct) simp_all

text \<open>The jobs \<open>pickReady\<close> may take a task from.\<close>

definition pickable :: "(string \<Rightarrow> int) \<Rightarrow> string \<Rightarrow> int \<Rightarrow> job \<Rightarrow> bool" where
  "pickable leased wantJob cap j \<longleftrightarrow> (wantJob = [] \<or> jb_id j = wantJob) \<and> \<not> jb_canceled j \<and>
     jb_status j \<noteq> StatusCanceled \<and> leased (jb_service j) < cap \<and>
     list_ex (\<lambda>t. tk_state t = StateReady \<and> \<not> tk_operator t) (jb_tasks j)"

lemma pickLoop_Cons:
  "pickLoop leased want cap k (j # js) best =
     pickLoop leased want cap (Suc k) js
       (if pickable leased want cap j \<and> (case best of None \<Rightarrow> True | Some (_, _, b) \<Rightarrow> leased (jb_service j) < b)
        then Some (k, the (readyIndex 0 (jb_tasks j)), leased (jb_service j)) else best)"
  using readyIndex_None [of 0 "jb_tasks j"]
  by (auto simp: pickable_def Let_def list_ex_iff list_all_iff split: option.splits)

lemma pickLoop_spec:
  assumes "pickLoop f want cap k js best = r"
  shows "(case r of
      None \<Rightarrow> best = None \<and> list_all (\<lambda>j. \<not> pickable f want cap j) js
    | Some (ji, ti, n) \<Rightarrow>
        list_all (\<lambda>j. pickable f want cap j \<longrightarrow> n \<le> f (jb_service j)) js \<and>
        (best = r \<or>
          k \<le> ji \<and> ji - k < length js \<and> pickable f want cap (js ! (ji - k)) \<and> n = f (jb_service (js ! (ji - k))) \<and>
          readyIndex 0 (jb_tasks (js ! (ji - k))) = Some ti \<and>
          (case best of None \<Rightarrow> True | Some (_, _, b) \<Rightarrow> n < b) \<and>
          list_all (\<lambda>j. pickable f want cap j \<longrightarrow> n < f (jb_service j)) (take (ji - k) js)) \<and>
        (case best of None \<Rightarrow> True | Some (_, _, b) \<Rightarrow> n \<le> b))"
  using assms
proof (induction js arbitrary: k best)
  case Nil
  then show ?case by (auto split: option.splits)
next
  case (Cons j js)
  let ?take = "pickable f want cap j \<and> (case best of None \<Rightarrow> True | Some (_, _, b) \<Rightarrow> f (jb_service j) < b)"
  let ?best = "if ?take then Some (k, the (readyIndex 0 (jb_tasks j)), f (jb_service j)) else best"
  have "pickLoop f want cap (Suc k) js ?best = r"
    using Cons.prems by (simp only: pickLoop_Cons)
  note IH = Cons.IH [OF this]
  have ready: "readyIndex 0 (jb_tasks j) = Some (the (readyIndex 0 (jb_tasks j)))" if "pickable f want cap j"
    using that readyIndex_None [of 0 "jb_tasks j"]
    by (cases "readyIndex 0 (jb_tasks j)") (auto simp: pickable_def list_ex_iff list_all_iff)
  show ?case
  proof (cases r)
    case None
    then show ?thesis using IH by (auto split: if_splits option.splits)
  next
    case (Some p)
    obtain ji ti n where r: "r = Some (ji, ti, n)" using Some by (cases p) auto
    have idx: "Suc k \<le> ji \<Longrightarrow> ji - k = Suc (ji - Suc k)" by simp
    show ?thesis
    proof (cases ?take)
      case True
      then show ?thesis using IH ready unfolding r
        by (cases best) (auto simp: idx)
    next
      case False
      then show ?thesis using IH unfolding r
        by (cases best) (auto simp: idx)
    qed
  qed
qed

lemma pickReady_cases:
  "case pickReady all want q of
     None \<Rightarrow> list_all (\<lambda>j. \<not> pickable (leasedOf all) want (qt_leased_tasks (normalized q)) j) all
   | Some (ji, ti) \<Rightarrow>
       ji < length all \<and> pickable (leasedOf all) want (qt_leased_tasks (normalized q)) (all ! ji) \<and>
       readyIndex 0 (jb_tasks (all ! ji)) = Some ti \<and>
       list_all (\<lambda>j. pickable (leasedOf all) want (qt_leased_tasks (normalized q)) j \<longrightarrow>
                     leasedOf all (jb_service (all ! ji)) \<le> leasedOf all (jb_service j)) all \<and>
       list_all (\<lambda>j. pickable (leasedOf all) want (qt_leased_tasks (normalized q)) j \<longrightarrow>
                     leasedOf all (jb_service (all ! ji)) < leasedOf all (jb_service j)) (take ji all)"
  using pickLoop_spec [OF refl, where f = "leasedOf all" and want = want and cap = "qt_leased_tasks (normalized q)"
      and k = 0 and js = all and best = None]
  by (auto simp: pickReady_def split: option.splits)

section \<open>No job is stuck\<close>

text \<open>A plan whose ids are distinct and whose dependencies name earlier steps.\<close>

fun plan_ordered :: "string list \<Rightarrow> plan_step list \<Rightarrow> bool" where
  "plan_ordered seen [] = True"
| "plan_ordered seen (s # ss) =
     (ps_id s \<notin> set seen \<and> list_all (\<lambda>d. d \<in> set seen) (ps_depends_on s) \<and> plan_ordered (seen @ [ps_id s]) ss)"

text \<open>The same for tasks.\<close>

definition tasks_ordered :: "task list \<Rightarrow> bool" where
  "tasks_ordered ts \<longleftrightarrow> distinct (map tk_plan_id ts) \<and>
     (\<forall>i < length ts. set (tk_depends_on (ts ! i)) \<subseteq> set (map tk_plan_id (take i ts)))"

lemma plan_ordered_nth:
  "plan_ordered seen ss \<Longrightarrow> distinct (map ps_id ss) \<and> set (map ps_id ss) \<inter> set seen = {} \<and>
     (\<forall>i < length ss. set (ps_depends_on (ss ! i)) \<subseteq> set seen \<union> set (map ps_id (take i ss)))"
proof (induction seen ss rule: plan_ordered.induct)
  case (2 seen s ss)
  then have IH: "distinct (map ps_id ss)" "set (map ps_id ss) \<inter> set (seen @ [ps_id s]) = {}"
    "\<forall>i < length ss. set (ps_depends_on (ss ! i)) \<subseteq> set (seen @ [ps_id s]) \<union> set (map ps_id (take i ss))" by auto
  have "set (ps_depends_on ((s # ss) ! i)) \<subseteq> set seen \<union> set (map ps_id (take i (s # ss)))" if "i < length (s # ss)" for i
  proof (cases i)
    case 0
    then show ?thesis using "2.prems" by (auto simp: list_all_iff)
  next
    case (Suc k)
    then show ?thesis using IH(3) that by auto
  qed
  then show ?case using IH "2.prems" by auto
qed simp

lemma stateByPlan_distinct:
  "distinct (map tk_plan_id ts) \<Longrightarrow> i < length ts \<Longrightarrow> stateByPlan ts (tk_plan_id (ts ! i)) = Some (tk_state (ts ! i))"
proof -
  assume d: "distinct (map tk_plan_id ts)" and i: "i < length ts"
  have "distinct (map fst (rev (map (\<lambda>t. (tk_plan_id t, tk_state t)) ts)))"
    using d by (simp add: rev_map [symmetric] comp_def)
  moreover have "(tk_plan_id (ts ! i), tk_state (ts ! i)) \<in> set (rev (map (\<lambda>t. (tk_plan_id t, tk_state t)) ts))"
    using i by simp
  ultimately show ?thesis unfolding stateByPlan_map_of by (rule map_of_is_SomeI)
qed

lemma not_stuck:
  assumes "tasks_ordered ts" and "settled ts" and "\<not> list_ex (\<lambda>t. tk_state t = StateFailed) ts"
    and "list_ex (\<lambda>t. tk_state t = StatePending) ts"
  shows "list_ex (\<lambda>t. tk_state t = StateReady \<or> tk_state t = StateLeased) ts"
proof -
  let ?P = "\<lambda>i. i < length ts \<and> tk_state (ts ! i) = StatePending"
  have "\<exists>i. ?P i" using assms(4) unfolding list_ex_length by blast
  then have i: "?P (LEAST i. ?P i)" by (rule LeastI_ex)
  define i where "i = (LEAST i. ?P i)"
  have i: "?P i" and least: "\<And>k. k < i \<Longrightarrow> \<not> ?P k"
    using i not_less_Least [of _ ?P] unfolding i_def by blast+
  have "\<not> depsOK (ts ! i) (stateByPlan ts)"
    using assms(2) i by (simp add: settled_def list_all_length)
  then obtain d where d: "d \<in> set (tk_depends_on (ts ! i))" "\<not> satisfied (stateByPlan ts) d"
    by (auto simp: depsOK_satisfied list_all_iff)
  have "d \<in> set (map tk_plan_id (take i ts))"
    using assms(1) i d(1) unfolding tasks_ordered_def by blast
  then obtain k where k: "k < i" "d = tk_plan_id (ts ! k)"
    using i by (auto simp: in_set_conv_nth)
  have "k < length ts" using k i by simp
  have "stateByPlan ts d = Some (tk_state (ts ! k))"
    using stateByPlan_distinct assms(1) \<open>k < length ts\<close> k by (simp add: tasks_ordered_def)
  then have "tk_state (ts ! k) = StateReady \<or> tk_state (ts ! k) = StateLeased"
    using d(2) least [OF k(1)] \<open>k < length ts\<close> assms(3) by (cases "tk_state (ts ! k)") (simp_all add: satisfied_def list_ex_length)
  then show ?thesis using \<open>k < length ts\<close> unfolding list_ex_length by blast
qed

lemma tasks_ordered_evolve: "tasks_evolve ts us \<Longrightarrow> tasks_ordered ts \<Longrightarrow> tasks_ordered us"
proof -
  assume ev: "tasks_evolve ts us" and o: "tasks_ordered ts"
  have ids: "map tk_plan_id us = map tk_plan_id ts"
    using ev by (induction rule: list_all2_induct) (simp_all add: task_evolves_def)
  have "tk_depends_on (us ! i) = tk_depends_on (ts ! i)" if "i < length us" for i
    using ev that by (simp add: list_all2_conv_all_nth task_evolves_def)
  then show "tasks_ordered us"
    using o list_all2_lengthD [OF ev] by (simp add: tasks_ordered_def ids flip: take_map)
qed

lemma buildJob_ordered:
  assumes "buildJob E vnow now jid opts = Inr j" and "plan_ordered [] (dg_steps (co_plan opts))"
  shows "tasks_ordered (jb_tasks j)"
proof -
  let ?ss = "dg_steps (co_plan opts)"
  let ?ts = "map (\<lambda>(i, s). newTask jid i s) (enumerate 0 ?ss)"
  have ids: "map tk_plan_id ?ts = map ps_id ?ss"
    by (rule nth_equalityI) (simp_all add: nth_enumerate_eq newTask_def)
  have "tasks_ordered ?ts"
    unfolding tasks_ordered_def take_map [symmetric] ids
    using plan_ordered_nth [OF assms(2)] by (auto simp: nth_enumerate_eq newTask_def take_map)
  then have "tasks_ordered (settle ?ts)"
    by (rule tasks_ordered_evolve [OF tasks_evolve_settle [OF tasks_evolve_refl]])
  then show ?thesis using buildJob_Inr(3) [OF assms(1)] by simp
qed

section \<open>Identifiers\<close>

lemma of_char_hex_digit: "n < 16 \<Longrightarrow> of_char (hex_digit n) = (if n < 10 then 48 + n else 87 + n)"
  by (simp add: hex_digit_def)

lemma hex_digit_inj: "n < 16 \<Longrightarrow> m < 16 \<Longrightarrow> hex_digit n = hex_digit m \<longleftrightarrow> n = m"
proof
  assume n: "n < 16" and m: "m < 16" and "hex_digit n = hex_digit m"
  then have "(if n < 10 then 48 + n else 87 + n) = (if m < 10 then 48 + m else 87 + m)"
    by (simp only: of_char_hex_digit [OF n, symmetric] of_char_hex_digit [OF m, symmetric])
  with n m show "n = m" by presburger
qed simp

lemma is_hex_hex_digit: "n < 16 \<Longrightarrow> is_hex (hex_digit n)"
  by (simp add: is_hex_def is_digit_def of_char_hex_digit)

lemma hex4_digits:
  "i < 65536 \<Longrightarrow> hex4 i = [hex_digit (i div 4096), hex_digit (i div 256 mod 16), hex_digit (i div 16 mod 16), hex_digit (i mod 16)]"
proof -
  assume i: "i < 65536"
  have z: "CHR ''0'' = hex_digit 0" by code_simp
  have rep: "replicate 3 c = [c, c, c]" "replicate 2 c = [c, c]" "replicate (Suc 0) c = [c]" for c :: char
    by (simp_all add: numeral_3_eq_3 numeral_2_eq_2)
  have d: "i div 16 div 16 = i div 256" "i div 256 div 16 = i div 4096" by (simp_all add: div_mult2_eq [symmetric])
  consider "i < 16" | "16 \<le> i" "i < 256" | "256 \<le> i" "i < 4096" | "4096 \<le> i" by linarith
  then show ?thesis
  proof cases
    case 1
    then show ?thesis by (simp add: hex4_def hex_str.simps [of i] z rep)
  next
    case 2
    then have "i div 16 < 16" "i div 256 = 0" "i div 4096 = 0" by (simp_all add: div_less_iff_less_mult)
    then show ?thesis using 2
      by (simp add: hex4_def hex_str.simps [of i] hex_str.simps [of "i div 16"] z rep Let_def)
  next
    case 3
    then have "\<not> i div 16 < 16" "i div 256 < 16" "i div 4096 = 0" by (simp_all add: div_less_iff_less_mult not_less less_eq_div_iff_mult_less_eq)
    then show ?thesis using 3
      by (simp add: hex4_def hex_str.simps [of i] hex_str.simps [of "i div 16"] hex_str.simps [of "i div 256"] d z rep Let_def)
  next
    case 4
    then have "\<not> i div 16 < 16" "\<not> i div 256 < 16" "i div 4096 < 16" using i
      by (simp_all add: div_less_iff_less_mult not_less less_eq_div_iff_mult_less_eq)
    then show ?thesis using 4
      by (simp add: hex4_def hex_str.simps [of i] hex_str.simps [of "i div 16"] hex_str.simps [of "i div 256"]
          hex_str.simps [of "i div 4096"] d z rep Let_def)
  qed
qed

lemma hex4_inj: "i < 65536 \<Longrightarrow> k < 65536 \<Longrightarrow> hex4 i = hex4 k \<Longrightarrow> i = k"
proof -
  assume i: "i < 65536" and k: "k < 65536" and "hex4 i = hex4 k"
  moreover have "i div 4096 < 16" "k div 4096 < 16" using i k by (simp_all add: div_less_iff_less_mult)
  ultimately have e: "i div 4096 = k div 4096" "i div 256 mod 16 = k div 256 mod 16" "i div 16 mod 16 = k div 16 mod 16" "i mod 16 = k mod 16"
    by (simp_all add: hex4_digits hex_digit_inj)
  have v: "n = 16 * (n div 16) + n mod 16" "n div 16 = 16 * (n div 256) + n div 16 mod 16"
    "n div 256 = 16 * (n div 4096) + n div 256 mod 16" for n :: nat
    using mult_div_mod_eq [of 16 "n div 16"] mult_div_mod_eq [of 16 "n div 256"] by (simp_all add: div_mult2_eq [symmetric])
  show "i = k" using v [of i] v [of k] e by linarith
qed

lemma normalizeID_hex:
  assumes "list_all is_hex s" and "8 \<le> length s" and "length s \<le> 16"
  shows "normalizeID s = Some s"
proof -
  have "trim_space s = s"
    using assms(1) by (intro trim_space_id) (auto simp: list_all_iff is_hex_def is_digit_def)
  then show ?thesis
    using assms to_lower_hex [OF assms(1)] by (simp add: normalizeID_def Let_def idLen_def)
qed

lemma length_normalizeID: "normalizeID raw = Some s \<Longrightarrow> list_all is_hex s \<and> 8 \<le> length s \<and> length s \<le> 16"
  by (auto simp: normalizeID_def Let_def idLen_def list_all_iff dest: in_set_takeD split: if_splits)

lemma taskID_hex:
  assumes "list_all is_hex jid" and "12 \<le> length jid" and "i < 65536"
  shows "list_all is_hex (taskID jid i)" and "length (taskID jid i) = 16"
  using assms hex4_digits [OF assms(3)] is_hex_hex_digit
  by (auto simp: taskID_def list_all_iff div_less_iff_less_mult dest: in_set_takeD)

section \<open>Examples for witnesses\<close>

definition demo_opts :: create_opts where
  "demo_opts = \<lparr>
     co_baseline_rev = \<lparr>rev_commit = ''c1'', rev_tree = ''t1'', rev_path = ''.'', rev_dirty = False, rev_source = ''built''\<rparr>,
     co_patch_rev = \<lparr>rev_commit = ''c2'', rev_tree = ''t2'', rev_path = ''.'', rev_dirty = False, rev_source = ''built''\<rparr>,
     co_baseline = ''http://a:1'', co_patch = ''http://b:2'', co_service = ''shop'', co_deadline = 0,
     co_workload = [\<lparr>st_method = ''GET'', st_path = ''/cart'', st_body = [], st_headers = [], st_provenance = [], st_service = []\<rparr>],
     co_plan = \<lparr>dg_steps =
        [\<lparr>ps_id = ''env'', ps_kind = ''env'', ps_required = True, ps_operator = False, ps_n = 0, ps_status = 0,
          ps_depends_on = [], ps_reason = []\<rparr>,
         \<lparr>ps_id = ''behavior'', ps_kind = ''behavior'', ps_required = True, ps_operator = False, ps_n = 0, ps_status = 0,
          ps_depends_on = [''env''], ps_reason = []\<rparr>],
       dg_notes = [], dg_module = [], dg_test_packages = [], dg_health_path = []\<rparr>,
     co_impacted = [''GET /cart''], co_changes = \<lparr>ch_bound = [''cart.go''], ch_unanalyzed = []\<rparr>\<rparr>"

definition demo_id :: string where
  "demo_id = ''0123456789abcdef''"

definition demo_task :: "nat \<Rightarrow> task_state \<Rightarrow> task" where
  "demo_task i st = (newTask demo_id i (dg_steps (co_plan demo_opts) ! i))\<lparr>tk_state := st\<rparr>"

definition demo_job :: job where
  "demo_job = \<lparr>jb_baseline_rev = (co_baseline_rev demo_opts)\<lparr>rev_source := ''declared''\<rparr>,
     jb_patch_rev = (co_patch_rev demo_opts)\<lparr>rev_source := ''declared''\<rparr>,
     jb_impact_source = ''client'', jb_id = demo_id, jb_created = 0, jb_status = StatusRunning, jb_service = ''shop'',
     jb_baseline = ''http://a:1'', jb_patch = ''http://b:2'', jb_baseline_sha = ''c1'', jb_dirty = False,
     jb_deadline = 600000000000, jb_canceled = False, jb_impacted = [''GET /cart''], jb_changes = co_changes demo_opts,
     jb_workload = workloadOf (co_workload demo_opts), jb_plan = co_plan demo_opts,
     jb_tasks = [demo_task 0 StateReady, demo_task 1 StatePending],
     jb_blockers = [mk_blocker ''step_failed'' ''job:running''], jb_validated = False\<rparr>"

definition demo_leased :: job where
  "demo_leased = leaseJob ''aaaaaaaaaaaaaaaa'' ''w1'' 5 0 demo_job"

definition demo_committed :: job where
  "demo_committed = refreshJob demo_net (demo_leased\<lparr>jb_tasks :=
     (jb_tasks demo_leased)[0 := projr (applyCommit ''aaaaaaaaaaaaaaaa'' (mk_result ''env'' ''env'' ''prepared'' []) []
        (jb_tasks demo_leased ! 0))]\<rparr>)"

lemma demo_job_built: "buildJob demo_net 0 0 demo_id demo_opts = Inr demo_job"
  by code_simp

lemma demo_lease_step: "job_step demo_net demo_job demo_leased"
  unfolding demo_leased_def by (rule step_lease) (code_simp+)

lemma demo_commit_step: "job_step demo_net demo_leased demo_committed"
  unfolding demo_committed_def
proof (rule step_commit)
  show "0 < length (jb_tasks demo_leased)" by code_simp
  have "\<not> isl (applyCommit ''aaaaaaaaaaaaaaaa'' (mk_result ''env'' ''env'' ''prepared'' []) [] (jb_tasks demo_leased ! 0))"
    by code_simp
  then show "applyCommit ''aaaaaaaaaaaaaaaa'' (mk_result ''env'' ''env'' ''prepared'' []) [] (jb_tasks demo_leased ! 0) =
    Inr (projr (applyCommit ''aaaaaaaaaaaaaaaa'' (mk_result ''env'' ''env'' ''prepared'' []) [] (jb_tasks demo_leased ! 0)))"
    by simp
qed

section \<open>Runs of a job\<close>

lemma job_run_ok:
  "(job_step E)\<^sup>*\<^sup>* j j' \<Longrightarrow> job_ok E j \<Longrightarrow> job_ok E j' \<and> same_job j j'"
proof (induction rule: rtranclp_induct)
  case (step y z)
  then show ?case using job_step_ok [OF step.hyps(2)] by (simp add: same_job_def)
qed (simp add: same_job_def)

lemma job_run_terminal:
  assumes "(job_step E)\<^sup>*\<^sup>* j j'" and "job_ok E j"
  shows "list_all2 (\<lambda>t t'. tk_id t' = tk_id t \<and> tk_plan_id t' = tk_plan_id t \<and> tk_depends_on t' = tk_depends_on t \<and>
     (terminal (tk_state t) \<longrightarrow> t' = t)) (jb_tasks j) (jb_tasks j')"
  using assms
proof (induction rule: rtranclp_induct)
  case (step y z)
  have "tasks_evolve (jb_tasks y) (jb_tasks z)"
    using job_step_ok [OF step.hyps(2)] job_run_ok [OF step.hyps(1)] step.prems by blast
  with step.IH [OF step.prems] show ?case
    by (rule list_all2_trans [rotated]) (simp add: task_evolves_def)
qed (simp add: list.rel_refl)

lemma job_run_finished:
  assumes "(job_step E)\<^sup>*\<^sup>* j j'" and "job_ok E j" and "\<not> occupies j"
  shows "\<not> occupies j'"
  using assms
proof (induction rule: rtranclp_induct)
  case (step y z)
  then show ?case using job_step_finished job_run_ok by blast
qed simp

lemma job_run_ordered:
  assumes "(job_step E)\<^sup>*\<^sup>* j j'" and "job_ok E j" and "tasks_ordered (jb_tasks j)"
  shows "tasks_ordered (jb_tasks j')"
  using assms
proof (induction rule: rtranclp_induct)
  case (step y z)
  then show ?case using job_step_ok job_run_ok tasks_ordered_evolve by blast
qed simp

text \<open>
  C6: Whatever sequence of expiries, leases, heartbeats, commits and cancellations a built job goes through, its
  status is the one its tasks determine (or canceled), no pending task has met dependencies, operator tasks are
  skipped and never leased, only leased tasks name a worker, and identity, targets, plan and deadline are unchanged.
\<close>

theorem job_run_invariant:
  assumes "buildJob E vnow now jid opts = Inr j0" and "(job_step E)\<^sup>*\<^sup>* j0 j"
  shows "jb_status j = (if jb_canceled j then StatusCanceled else jobStatus (jb_tasks j)) \<and>
    settled (jb_tasks j) \<and> list_all task_shape (jb_tasks j) \<and> same_job j0 j"
  using job_run_ok [OF assms(2) buildJob_Inr(4) [OF assms(1)]] by (simp add: job_ok_def tasks_ok_def)

theorem job_run_invariant_witness:
  "jb_status demo_committed = (if jb_canceled demo_committed then StatusCanceled else jobStatus (jb_tasks demo_committed)) \<and>
   settled (jb_tasks demo_committed) \<and> list_all task_shape (jb_tasks demo_committed) \<and> same_job demo_job demo_committed"
  by (rule job_run_invariant [OF demo_job_built])
    (meson demo_lease_step demo_commit_step rtranclp.rtrancl_into_rtrancl rtranclp.rtrancl_refl)

text \<open>
  C7: A task that is ready, leased or succeeded at any point of a job's life has every dependency satisfied there:
  the step it names has succeeded or was skipped.
\<close>

theorem job_run_dependencies:
  assumes "buildJob E vnow now jid opts = Inr j0" and "(job_step E)\<^sup>*\<^sup>* j0 j" and "t \<in> set (jb_tasks j)"
    and "tk_state t \<in> {StateReady, StateLeased, StateSucceeded}" and "d \<in> set (tk_depends_on t)"
  shows "stateByPlan (jb_tasks j) d \<in> {Some StateSucceeded, Some StateSkipped}"
proof -
  have "deps_ok (jb_tasks j)"
    using job_run_ok [OF assms(2) buildJob_Inr(4) [OF assms(1)]] by (simp add: job_ok_def tasks_ok_def)
  then have "depsOK t (stateByPlan (jb_tasks j))"
    using assms(3,4) by (auto simp: deps_ok_def list_all_iff runnable_def)
  then show ?thesis using assms(5) by (auto simp: depsOK_def list_all_iff)
qed

theorem job_run_dependencies_witness:
  "stateByPlan (jb_tasks demo_committed) ''env'' \<in> {Some StateSucceeded, Some StateSkipped}"
proof (rule job_run_dependencies [OF demo_job_built])
  show "(job_step demo_net)\<^sup>*\<^sup>* demo_job demo_committed"
    by (meson demo_lease_step demo_commit_step rtranclp.rtrancl_into_rtrancl rtranclp.rtrancl_refl)
  show "jb_tasks demo_committed ! 1 \<in> set (jb_tasks demo_committed)"
    by (rule nth_mem) code_simp
  show "tk_state (jb_tasks demo_committed ! 1) \<in> {StateReady, StateLeased, StateSucceeded}" by code_simp
  show "''env'' \<in> set (tk_depends_on (jb_tasks demo_committed ! 1))" by code_simp
qed

text \<open>
  C8: A task that has succeeded, failed or been skipped never changes again: no later expiry, lease, heartbeat,
  commit or cancellation alters its state, result, attempt or fence. In particular a task is committed at most once.
\<close>

theorem terminal_tasks_frozen:
  assumes "buildJob E vnow now jid opts = Inr j0" and "(job_step E)\<^sup>*\<^sup>* j0 j" and "(job_step E)\<^sup>*\<^sup>* j j'"
    and "i < length (jb_tasks j)" and "tk_state (jb_tasks j ! i) \<in> {StateSucceeded, StateFailed, StateSkipped}"
  shows "jb_tasks j' ! i = jb_tasks j ! i"
proof -
  have "job_ok E j" using job_run_ok [OF assms(2) buildJob_Inr(4) [OF assms(1)]] by simp
  from list_all2_nthD [OF job_run_terminal [OF assms(3) this] assms(4)] show ?thesis
    using assms(5) by (auto simp: terminal_def)
qed

theorem terminal_tasks_frozen_witness:
  "jb_tasks (applyCancel demo_net demo_committed) ! 0 = jb_tasks demo_committed ! 0"
proof (rule terminal_tasks_frozen [OF demo_job_built])
  show "(job_step demo_net)\<^sup>*\<^sup>* demo_job demo_committed"
    by (meson demo_lease_step demo_commit_step rtranclp.rtrancl_into_rtrancl rtranclp.rtrancl_refl)
  show "(job_step demo_net)\<^sup>*\<^sup>* demo_committed (applyCancel demo_net demo_committed)"
    by (meson step_cancel r_into_rtranclp)
  show "0 < length (jb_tasks demo_committed)" by code_simp
  show "tk_state (jb_tasks demo_committed ! 0) \<in> {StateSucceeded, StateFailed, StateSkipped}" by code_simp
qed

text \<open>
  C9: A job stored by a client is never marked validated: its revisions are recorded as declared, whatever the
  client claims, so the policy always blocks it.
\<close>

theorem job_never_validated:
  assumes "buildJob E vnow now jid opts = Inr j0" and "(job_step E)\<^sup>*\<^sup>* j0 j"
  shows "\<not> jb_validated j \<and> rev_source (jb_baseline_rev j) = ''declared'' \<and> rev_source (jb_patch_rev j) = ''declared''"
  using job_run_ok [OF assms(2) buildJob_Inr(4) [OF assms(1)]] job_ok_not_validated [of E j]
  unfolding job_ok_def by blast

theorem job_never_validated_witness:
  "\<not> jb_validated demo_committed \<and> rev_source (jb_baseline_rev demo_committed) = ''declared'' \<and>
   rev_source (jb_patch_rev demo_committed) = ''declared''"
  by (rule job_never_validated [OF demo_job_built])
    (meson demo_lease_step demo_commit_step rtranclp.rtrancl_into_rtrancl rtranclp.rtrancl_refl)

text \<open>
  C10: Deadlines release gateways: once the clock is past a job's deadline, the next expiry leaves the job in a
  final status, and nothing that happens later makes it occupy its gateways again.
\<close>

theorem deadline_releases_job:
  assumes "buildJob E vnow now jid opts = Inr j0" and "(job_step E)\<^sup>*\<^sup>* j0 j"
    and "jb_deadline j0 \<noteq> 0" and "jb_deadline j0 < t" and "(job_step E)\<^sup>*\<^sup>* (fst (expireJob E t j)) j'"
  shows "\<not> occupies j'"
proof -
  have ok: "job_ok E j" and "same_job j0 j" using job_run_ok [OF assms(2) buildJob_Inr(4) [OF assms(1)]] by blast+
  then have "effectiveDeadline j = Some (jb_deadline j0)" using assms(3) by (simp add: effectiveDeadline_def same_job_def)
  from expireJob_deadline [OF ok this assms(4)] show ?thesis
    by (rule job_run_finished [OF assms(5) expireJob_ok(1) [OF ok]])
qed

theorem deadline_releases_job_witness: "\<not> occupies (fst (expireJob demo_net 600000000001 demo_leased))"
  by (rule deadline_releases_job [OF demo_job_built r_into_rtranclp [of "job_step demo_net", OF demo_lease_step] _ _
      rtranclp.rtrancl_refl]) (simp_all add: demo_job_def)

text \<open>
  The in-memory store recomputes only the status when it leases a task, the database store refreshes the
  whole job; on every job a client can have built the two give the same job.
\<close>

lemma lease_same_in_both_stores:
  assumes "buildJob E vnow now jid opts = Inr j0" and "(job_step E)\<^sup>*\<^sup>* j0 j" and "ti < length (jb_tasks j)"
    and "tk_state (jb_tasks j ! ti) = StateReady" and "\<not> jb_canceled j" and "trim_space w \<noteq> []"
  shows "refreshJob E (j\<lparr>jb_tasks := (jb_tasks j)[ti := claim a w t (jb_tasks j ! ti)]\<rparr>) = leaseJob a w t ti j"
  using job_run_ok [OF assms(2) buildJob_Inr(4) [OF assms(1)]] leaseJob_ok(5) assms(3-) by blast

lemma job_not_stuck:
  assumes "buildJob E vnow now jid opts = Inr j0" and "(job_step E)\<^sup>*\<^sup>* j0 j"
    and "plan_ordered [] (dg_steps (co_plan opts))" and "occupies j"
  shows "list_ex (\<lambda>t. tk_state t = StateReady \<or> tk_state t = StateLeased) (jb_tasks j)"
proof -
  have ok0: "job_ok E j0" by (rule buildJob_Inr(4) [OF assms(1)])
  have ok: "job_ok E j" using job_run_ok [OF assms(2) ok0] by simp
  have ord: "tasks_ordered (jb_tasks j)"
    by (rule job_run_ordered [OF assms(2) ok0 buildJob_ordered [OF assms(1,3)]])
  have st: "jobStatus (jb_tasks j) = StatusPending \<or> jobStatus (jb_tasks j) = StatusRunning"
    using ok assms(4) by (auto simp: job_ok_def occupies_def split: if_splits)
  have "\<not> list_ex (\<lambda>t. tk_state t = StateFailed) (jb_tasks j)"
    using st by (auto simp: jobStatus_def split: if_splits)
  then show ?thesis
    using not_stuck [OF ord] ok jobStatus_unfinished [OF st] by (auto simp: job_ok_def tasks_ok_def list_ex_iff)
qed

text \<open>
  C11: No deadlock: a job whose plan names only earlier steps as dependencies, under distinct ids, and that still
  occupies its gateways, has a ready or a leased task at every point of its life.
\<close>

theorem job_never_stuck:
  assumes "buildJob E vnow now jid opts = Inr j0" and "(job_step E)\<^sup>*\<^sup>* j0 j"
    and "plan_ordered [] (dg_steps (co_plan opts))" and "occupies j"
  shows "list_ex (\<lambda>t. tk_state t = StateReady \<or> tk_state t = StateLeased) (jb_tasks j)"
  by (rule job_not_stuck [OF assms])

theorem job_never_stuck_witness:
  "list_ex (\<lambda>t. tk_state t = StateReady \<or> tk_state t = StateLeased) (jb_tasks demo_committed)"
proof (rule job_never_stuck [OF demo_job_built])
  show "(job_step demo_net)\<^sup>*\<^sup>* demo_job demo_committed"
    by (meson demo_lease_step demo_commit_step rtranclp.rtrancl_into_rtrancl rtranclp.rtrancl_refl)
  show "plan_ordered [] (dg_steps (co_plan demo_opts))" by code_simp
  show "occupies demo_committed" by code_simp
qed

text \<open>
  \<open>pickReady\<close> is fair: it returns no task only if no admissible job has a ready task; otherwise it returns the
  first ready task of an admissible job whose service holds the fewest leased tasks, the earliest such job; a
  service at its cap and a canceled job are never served.
\<close>

lemma pickReady_fair:
  "case pickReady all want q of
     None \<Rightarrow> list_all (\<lambda>j. \<not> pickable (leasedOf all) want (qt_leased_tasks (normalized q)) j) all
   | Some (ji, ti) \<Rightarrow>
       ji < length all \<and> pickable (leasedOf all) want (qt_leased_tasks (normalized q)) (all ! ji) \<and>
       ti < length (jb_tasks (all ! ji)) \<and> tk_state (jb_tasks (all ! ji) ! ti) = StateReady \<and>
       \<not> tk_operator (jb_tasks (all ! ji) ! ti) \<and>
       list_all (\<lambda>t. \<not> (tk_state t = StateReady \<and> \<not> tk_operator t)) (take ti (jb_tasks (all ! ji))) \<and>
       list_all (\<lambda>j. pickable (leasedOf all) want (qt_leased_tasks (normalized q)) j \<longrightarrow>
                     leasedOf all (jb_service (all ! ji)) \<le> leasedOf all (jb_service j)) all \<and>
       list_all (\<lambda>j. pickable (leasedOf all) want (qt_leased_tasks (normalized q)) j \<longrightarrow>
                     leasedOf all (jb_service (all ! ji)) < leasedOf all (jb_service j)) (take ji all)"
  using pickReady_cases [of all want q] readyIndex_Some [of 0]
  by (cases "pickReady all want q") auto

text \<open>
  The task ids of a job with a hexadecimal id and at most 65536 steps identify the steps, and the id
  normalisation of the store interface accepts each of them unchanged.
\<close>

lemma taskID_identifies:
  assumes "list_all is_hex jid" and "12 \<le> length jid" and "i < 65536" and "k < 65536"
  shows "(taskID jid i = taskID jid k \<longleftrightarrow> i = k) \<and> normalizeID (taskID jid i) = Some (taskID jid i)"
proof -
  have "normalizeID (taskID jid i) = Some (taskID jid i)"
    using taskID_hex [OF assms(1-3)] by (intro normalizeID_hex) simp_all
  moreover have "taskID jid i = taskID jid k \<longleftrightarrow> hex4 i = hex4 k"
    using assms(2) by (simp add: taskID_def)
  ultimately show ?thesis using hex4_inj [OF assms(3,4)] by auto
qed

text \<open>
  Sending creation options to a server loses only what is never meant to leave the client: the decoded options
  are the sent ones with the request headers and the service labels of the workload removed.
\<close>

lemma createOpts_roundtrip:
  "fromWire (toWire opts) = opts\<lparr>co_workload := map (\<lambda>s. s\<lparr>st_headers := [], st_service := []\<rparr>) (co_workload opts)\<rparr>"
  by (simp add: fromWire_def toWire_def workloadOf_def replayWorkload_def)

section \<open>Generated plans are ordered\<close>

lemma plan_ordered_map:
  assumes "\<And>s. ps_id (f s) = ps_id s" and "\<And>s. ps_depends_on (f s) = ps_depends_on s"
  shows "plan_ordered seen (map f ss) = plan_ordered seen ss"
  by (induction seen ss rule: plan_ordered.induct) (simp_all add: assms)

lemma plan_ordered_append:
  "plan_ordered seen (xs @ ys) = (plan_ordered seen xs \<and> plan_ordered (seen @ map ps_id xs) ys)"
  by (induction seen xs rule: plan_ordered.induct) simp_all

lemma FromImpact_ordered:
  assumes "FromImpact rep = Inr d"
  shows "plan_ordered [] (dg_steps d) \<and> ''tests'' \<notin> set (map ps_id (dg_steps d))"
  using assms by (cases "hasRuntime rep") (simp_all add: FromImpact_def Let_def split: if_splits, (drule sym, simp)+)

lemma WithLatencyN_ordered:
  "plan_ordered [] (dg_steps (WithLatencyN d n)) = plan_ordered [] (dg_steps d) \<and>
   map ps_id (dg_steps (WithLatencyN d n)) = map ps_id (dg_steps d)"
  by (simp add: WithLatencyN_def plan_ordered_map)

lemma WithHealthPath_ordered:
  "plan_ordered [] (dg_steps (WithHealthPath d p)) = plan_ordered [] (dg_steps d) \<and>
   map ps_id (dg_steps (WithHealthPath d p)) = map ps_id (dg_steps d)"
  by (simp add: WithHealthPath_def plan_ordered_map Let_def)

lemma WithTests_ordered:
  assumes "plan_ordered [] (dg_steps d)" and "''tests'' \<notin> set (map ps_id (dg_steps d))"
  shows "plan_ordered [] (dg_steps (WithTests d root gomod hasGo files))"
  using assms by (simp add: WithTests_def Let_def plan_ordered_append split: option.split)

end
