(* ===== verification/Job_Stores.thy ===== *)
theory Job_Stores
  imports Job_Lifecycle
begin

text \<open>
  The two implementations of the \<open>Store\<close> interface of \<open>internal/jobs\<close>: \<open>Memory\<close> (\<open>memory.go\<close>) and \<open>Postgres\<close>
  (\<open>postgres.go\<close>). Every operation is a function from the store to its result and the new store; the mutex of
  \<open>Memory\<close> and the transactions of \<open>Postgres\<close> make the operations atomic. The iteration order of a Go map is an
  argument \<open>ks\<close>. The payload column holds the job value itself (the JSON text is its encoding). The locale
  \<open>job_store\<close> states what the rest of the system relies on and is interpreted on both stores.
\<close>

section \<open>The in-memory store\<close>

record mem_store =
  ms_by_id :: "string \<rightharpoonup> job"
  ms_order :: "string list"
  ms_quota :: quota

record lease =
  le_job :: job
  le_task :: task
  le_n :: int
  le_fence :: int64
  le_attempt :: string

definition NewMemory :: "quota \<Rightarrow> mem_store" where
  "NewMemory q = \<lparr>ms_by_id = Map.empty, ms_order = [], ms_quota = q\<rparr>"

text \<open>\<open>Memory.jobs\<close>: every id of \<open>order\<close> is a key of \<open>byID\<close>.\<close>

definition mem_jobs :: "mem_store \<Rightarrow> job list" where
  "mem_jobs m = List.map_filter (ms_by_id m) (ms_order m)"

definition requeueExpiredLocked :: "net_env \<Rightarrow> time \<Rightarrow> string list \<Rightarrow> mem_store \<Rightarrow> mem_store \<times> nat" where
  "requeueExpiredLocked E now ks m =
     fold (\<lambda>k (m, n). case ms_by_id m k of
              None \<Rightarrow> (m, n)
            | Some job \<Rightarrow> (let (job', d) = expireJob E now job in (m\<lparr>ms_by_id := (ms_by_id m)(k \<mapsto> job')\<rparr>, n + d)))
       ks (m, 0)"

text \<open>\<open>Memory.Create\<close> with its three readings of the clock and the random id.\<close>

definition mem_create :: "net_env \<Rightarrow> time \<Rightarrow> time \<Rightarrow> time \<Rightarrow> string \<Rightarrow> string list \<Rightarrow> create_opts \<Rightarrow> mem_store \<Rightarrow> (job_error + job) \<times> mem_store" where
  "mem_create E vnow bnow now jid ks opts m =
     (case buildJob E vnow bnow jid opts of
        Inl e \<Rightarrow> (Inl e, m)
      | Inr job \<Rightarrow>
          (let m1 = fst (requeueExpiredLocked E now ks m)
           in if gatewayBusy E (mem_jobs m1) job then (Inl ErrBusy, m1)
              else if overActive (mem_jobs m1) job (ms_quota m1) then (Inl ErrQuota, m1)
              else (Inr job, m1\<lparr>ms_by_id := (ms_by_id m1)(jb_id job \<mapsto> job), ms_order := ms_order m1 @ [jb_id job]\<rparr>)))"

definition mem_get :: "string \<Rightarrow> mem_store \<Rightarrow> job_error + job" where
  "mem_get raw m =
     (case normalizeID raw of
        None \<Rightarrow> Inl (JobErrorf ''jobs: invalid id'')
      | Some jid \<Rightarrow> (case ms_by_id m jid of None \<Rightarrow> Inl ErrNotFound | Some job \<Rightarrow> Inr job))"

definition mem_list :: "int \<Rightarrow> string \<Rightarrow> mem_store \<Rightarrow> job list" where
  "mem_list limit service m =
     (let want = clipService service;
          out = filter (\<lambda>j. \<not> (want \<noteq> [] \<and> jb_service j \<noteq> want)) (mem_jobs m)
      in take (clipLimit limit) (rev (sort_key (\<lambda>j. (jb_created j, jb_id j)) out)))"

definition wantedJob :: "worker \<Rightarrow> job_error + string" where
  "wantedJob w =
     (if trim_space (wk_job_id w) = [] then Inr []
      else (case normalizeID (wk_job_id w) of None \<Rightarrow> Inl ErrInvalidID | Some jid \<Rightarrow> Inr jid))"

definition mk_lease :: "job \<Rightarrow> nat \<Rightarrow> lease" where
  "mk_lease job ti =
     (let t = jb_tasks job ! ti
      in \<lparr>le_job = job, le_task = t, le_n = tk_n t, le_fence = tk_fence t, le_attempt = tk_attempt t\<rparr>)"

definition mem_lease :: "net_env \<Rightarrow> worker \<Rightarrow> time \<Rightarrow> string \<Rightarrow> string list \<Rightarrow> mem_store \<Rightarrow> (job_error + lease) \<times> mem_store" where
  "mem_lease E w now attempt ks m =
     (case worker_id w of
        Inl e \<Rightarrow> (Inl e, m)
      | Inr workerID \<Rightarrow>
          (let m1 = fst (requeueExpiredLocked E now ks m); all = mem_jobs m1
           in if countLeased all workerID \<ge> worker_slots w then (Inl ErrCapacity, m1)
              else (case wantedJob w of
                      Inl e \<Rightarrow> (Inl e, m1)
                    | Inr wantJob \<Rightarrow>
                        (case pickReady all wantJob (ms_quota m1) of
                           None \<Rightarrow> (Inl ErrNoReady, m1)
                         | Some (ji, ti) \<Rightarrow>
                             (let job = leaseJob attempt workerID now ti (all ! ji)
                              in (Inr (mk_lease job ti), m1\<lparr>ms_by_id := (ms_by_id m1)(jb_id job \<mapsto> job)\<rparr>))))))"

text \<open>The index of the first task with the given id, and the first job (in iteration order) that has one.\<close>

fun taskIndex :: "string \<Rightarrow> nat \<Rightarrow> task list \<Rightarrow> nat option" where
  "taskIndex tid i [] = None"
| "taskIndex tid i (t # ts) = (if tk_id t = tid then Some i else taskIndex tid (Suc i) ts)"

fun findTask :: "(string \<Rightarrow> job option) \<Rightarrow> string \<Rightarrow> string list \<Rightarrow> (string \<times> job \<times> nat) option" where
  "findTask look tid [] = None"
| "findTask look tid (k # ks) =
     (case look k of
        None \<Rightarrow> findTask look tid ks
      | Some job \<Rightarrow> (case taskIndex tid 0 (jb_tasks job) of
                       Some i \<Rightarrow> Some (k, job, i)
                     | None \<Rightarrow> findTask look tid ks))"

definition parseTaskIDs :: "string \<Rightarrow> string \<Rightarrow> job_error + string \<times> string" where
  "parseTaskIDs rawTask rawAttempt =
     (case normalizeID rawTask of
        None \<Rightarrow> Inl (JobErrorf ''jobs: invalid id'')
      | Some tid \<Rightarrow> (case normalizeID rawAttempt of
                       None \<Rightarrow> Inl (JobErrorf ''jobs: invalid attempt'')
                     | Some aid \<Rightarrow> Inr (tid, aid)))"

definition mem_heartbeat :: "string \<Rightarrow> string \<Rightarrow> string \<Rightarrow> time \<Rightarrow> string list \<Rightarrow> mem_store \<Rightarrow> job_error option \<times> mem_store" where
  "mem_heartbeat rawTask rawAttempt workerID now ks m =
     (case parseTaskIDs rawTask rawAttempt of
        Inl e \<Rightarrow> (Some e, m)
      | Inr (tid, aid) \<Rightarrow>
          (case findTask (ms_by_id m) tid ks of
             None \<Rightarrow> (Some ErrNotFound, m)
           | Some (k, job, i) \<Rightarrow>
               (case applyHeartbeat aid workerID now (jb_tasks job ! i) of
                  Inl e \<Rightarrow> (Some e, m)
                | Inr t \<Rightarrow> (None, m\<lparr>ms_by_id := (ms_by_id m)(k \<mapsto> job\<lparr>jb_tasks := (jb_tasks job)[i := t]\<rparr>)\<rparr>))))"

definition mem_commit :: "net_env \<Rightarrow> string \<Rightarrow> string \<Rightarrow> step_result \<Rightarrow> string \<Rightarrow> string list \<Rightarrow> mem_store \<Rightarrow> (job_error + task) \<times> mem_store" where
  "mem_commit E rawTask rawAttempt result fail ks m =
     (case parseTaskIDs rawTask rawAttempt of
        Inl e \<Rightarrow> (Inl e, m)
      | Inr (tid, aid) \<Rightarrow>
          (case findTask (ms_by_id m) tid ks of
             None \<Rightarrow> (Inl ErrNotFound, m)
           | Some (k, job, i) \<Rightarrow>
               (case applyCommit aid result fail (jb_tasks job ! i) of
                  Inl e \<Rightarrow> (Inl e, m)
                | Inr t \<Rightarrow>
                    (let job' = refreshJob E (job\<lparr>jb_tasks := (jb_tasks job)[i := t]\<rparr>)
                     in (Inr (jb_tasks job' ! i), m\<lparr>ms_by_id := (ms_by_id m)(k \<mapsto> job')\<rparr>)))))"

definition mem_cancel :: "net_env \<Rightarrow> string \<Rightarrow> mem_store \<Rightarrow> (job_error + job) \<times> mem_store" where
  "mem_cancel E raw m =
     (case normalizeID raw of
        None \<Rightarrow> (Inl (JobErrorf ''jobs: invalid id''), m)
      | Some jid \<Rightarrow>
          (case ms_by_id m jid of
             None \<Rightarrow> (Inl ErrNotFound, m)
           | Some job \<Rightarrow> (let job' = applyCancel E job in (Inr job', m\<lparr>ms_by_id := (ms_by_id m)(jid \<mapsto> job')\<rparr>))))"

section \<open>The database store\<close>

record pg_row =
  pr_id :: string
  pr_created :: time
  pr_status :: job_status
  pr_validated :: bool
  pr_payload :: job

record pg_store =
  pg_rows :: "pg_row list"
  pg_quota :: quota

definition NewPostgres :: "quota \<Rightarrow> pg_store" where
  "NewPostgres q = \<lparr>pg_rows = [], pg_quota = q\<rparr>"

definition decodeJob :: "net_env \<Rightarrow> pg_row \<Rightarrow> job" where
  "decodeJob E r = decideJob E (pr_payload r)"

text \<open>\<open>lockJobsSQL\<close> with \<open>lockJobs\<close>, and \<open>updateJobSQL\<close>.\<close>

definition lockJobs :: "net_env \<Rightarrow> pg_row list \<Rightarrow> job list" where
  "lockJobs E rows =
     map (decodeJob E) (sort_key (\<lambda>r. (pr_created r, pr_id r))
       (filter (\<lambda>r. pr_status r = StatusPending \<or> pr_status r = StatusRunning) rows))"

definition updateJob :: "job \<Rightarrow> pg_row list \<Rightarrow> pg_row list" where
  "updateJob job rows =
     map (\<lambda>r. if pr_id r = jb_id job
              then r\<lparr>pr_status := jb_status job, pr_payload := job, pr_validated := jb_validated job\<rparr> else r) rows"

definition expireTx :: "net_env \<Rightarrow> time \<Rightarrow> pg_row list \<Rightarrow> pg_row list \<times> nat" where
  "expireTx E now rows =
     (let found = map (expireJob E now) (lockJobs E rows);
          changed = map fst (filter (\<lambda>(_, n). n > 0) found)
      in (fold updateJob changed rows, sum_list (map snd found)))"

definition pg_create :: "net_env \<Rightarrow> time \<Rightarrow> time \<Rightarrow> time \<Rightarrow> string \<Rightarrow> create_opts \<Rightarrow> pg_store \<Rightarrow> (job_error + job) \<times> pg_store" where
  "pg_create E vnow bnow now jid opts p =
     (case buildJob E vnow bnow jid opts of
        Inl e \<Rightarrow> (Inl e, p)
      | Inr job \<Rightarrow>
          (let rows = fst (expireTx E now (pg_rows p)); existing = lockJobs E rows
           in if gatewayBusy E existing job then (Inl ErrBusy, p)
              else if overActive existing job (pg_quota p) then (Inl ErrQuota, p)
              else if jb_id job \<in> set (map pr_id rows) then (Inl (JobErrorf ''insert job''), p)
              else (Inr job, p\<lparr>pg_rows := rows @ [\<lparr>pr_id = jb_id job, pr_created = jb_created job, pr_status = jb_status job,
                                                 pr_validated = jb_validated job, pr_payload = job\<rparr>]\<rparr>)))"

definition pg_get :: "net_env \<Rightarrow> string \<Rightarrow> pg_store \<Rightarrow> job_error + job" where
  "pg_get E raw p =
     (case normalizeID raw of
        None \<Rightarrow> Inl (JobErrorf ''jobs: invalid id'')
      | Some jid \<Rightarrow> (case find (\<lambda>r. pr_id r = jid) (pg_rows p) of None \<Rightarrow> Inl ErrNotFound | Some r \<Rightarrow> Inr (decodeJob E r)))"

text \<open>\<open>listJobSQL\<close>.\<close>

definition pg_list :: "net_env \<Rightarrow> int \<Rightarrow> string \<Rightarrow> pg_store \<Rightarrow> job list" where
  "pg_list E limit service p =
     (let want = clipService service
      in map (decodeJob E) (take (clipLimit limit) (rev (sort_key (\<lambda>r. (pr_created r, pr_id r))
           (filter (\<lambda>r. want = [] \<or> jb_service (pr_payload r) = want) (pg_rows p))))))"

definition pg_requeue :: "net_env \<Rightarrow> time \<Rightarrow> pg_store \<Rightarrow> nat \<times> pg_store" where
  "pg_requeue E now p = (let (rows, n) = expireTx E now (pg_rows p) in (n, p\<lparr>pg_rows := rows\<rparr>))"

definition pg_lease :: "net_env \<Rightarrow> worker \<Rightarrow> time \<Rightarrow> string \<Rightarrow> pg_store \<Rightarrow> (job_error + lease) \<times> pg_store" where
  "pg_lease E w now attempt p =
     (case worker_id w of
        Inl e \<Rightarrow> (Inl e, p)
      | Inr workerID \<Rightarrow>
          (case wantedJob w of
             Inl e \<Rightarrow> (Inl e, p)
           | Inr wantJob \<Rightarrow>
               (let rows = fst (expireTx E now (pg_rows p)); all = lockJobs E rows; p1 = p\<lparr>pg_rows := rows\<rparr>
                in if countLeased all workerID \<ge> worker_slots w then (Inl ErrCapacity, p1)
                   else (case pickReady all wantJob (pg_quota p) of
                           None \<Rightarrow> (Inl ErrNoReady, p1)
                         | Some (ji, ti) \<Rightarrow>
                             (let job0 = all ! ji;
                                  job = refreshJob E (job0\<lparr>jb_tasks := (jb_tasks job0)[ti := claim attempt workerID now (jb_tasks job0 ! ti)]\<rparr>)
                              in (Inr (mk_lease job ti), p1\<lparr>pg_rows := updateJob job rows\<rparr>))))))"

text \<open>The loop over the locked jobs that finds a task.\<close>

fun findLocked :: "string \<Rightarrow> job list \<Rightarrow> (job \<times> nat) option" where
  "findLocked tid [] = None"
| "findLocked tid (job # js) =
     (case taskIndex tid 0 (jb_tasks job) of Some i \<Rightarrow> Some (job, i) | None \<Rightarrow> findLocked tid js)"

definition pg_heartbeat :: "net_env \<Rightarrow> string \<Rightarrow> string \<Rightarrow> string \<Rightarrow> time \<Rightarrow> pg_store \<Rightarrow> job_error option \<times> pg_store" where
  "pg_heartbeat E rawTask rawAttempt workerID now p =
     (case parseTaskIDs rawTask rawAttempt of
        Inl e \<Rightarrow> (Some e, p)
      | Inr (tid, aid) \<Rightarrow>
          (case findLocked tid (lockJobs E (pg_rows p)) of
             None \<Rightarrow> (Some ErrNotFound, p)
           | Some (job, i) \<Rightarrow>
               (case applyHeartbeat aid workerID now (jb_tasks job ! i) of
                  Inl e \<Rightarrow> (Some e, p)
                | Inr t \<Rightarrow> (None, p\<lparr>pg_rows := updateJob (job\<lparr>jb_tasks := (jb_tasks job)[i := t]\<rparr>) (pg_rows p)\<rparr>))))"

definition pg_commit :: "net_env \<Rightarrow> string \<Rightarrow> string \<Rightarrow> step_result \<Rightarrow> string \<Rightarrow> pg_store \<Rightarrow> (job_error + task) \<times> pg_store" where
  "pg_commit E rawTask rawAttempt result fail p =
     (case parseTaskIDs rawTask rawAttempt of
        Inl e \<Rightarrow> (Inl e, p)
      | Inr (tid, aid) \<Rightarrow>
          (case findLocked tid (lockJobs E (pg_rows p)) of
             None \<Rightarrow> (Inl ErrNotFound, p)
           | Some (job, i) \<Rightarrow>
               (case applyCommit aid result fail (jb_tasks job ! i) of
                  Inl e \<Rightarrow> (Inl e, p)
                | Inr t \<Rightarrow>
                    (let job' = refreshJob E (job\<lparr>jb_tasks := (jb_tasks job)[i := t]\<rparr>)
                     in (Inr (jb_tasks job' ! i), p\<lparr>pg_rows := updateJob job' (pg_rows p)\<rparr>)))))"

definition pg_cancel :: "net_env \<Rightarrow> string \<Rightarrow> pg_store \<Rightarrow> (job_error + job) \<times> pg_store" where
  "pg_cancel E raw p =
     (case normalizeID raw of
        None \<Rightarrow> (Inl (JobErrorf ''jobs: invalid id''), p)
      | Some jid \<Rightarrow>
          (case find (\<lambda>r. pr_id r = jid) (pg_rows p) of
             None \<Rightarrow> (Inl ErrNotFound, p)
           | Some r \<Rightarrow> (let job = applyCancel E (decodeJob E r) in (Inr job, p\<lparr>pg_rows := updateJob job (pg_rows p)\<rparr>))))"

section \<open>Operations as data\<close>

text \<open>The state-changing operations of the \<open>Store\<close> interface with everything they read from outside.\<close>

datatype store_op =
    OpCreate time time time string "string list" create_opts
  | OpLease worker time string "string list"
  | OpHeartbeat string string string time "string list"
  | OpCommit string string step_result string "string list"
  | OpRequeue time "string list"
  | OpCancel string

fun mem_step :: "net_env \<Rightarrow> store_op \<Rightarrow> mem_store \<Rightarrow> mem_store" where
  "mem_step E (OpCreate v b now jid ks opts) m = snd (mem_create E v b now jid ks opts m)"
| "mem_step E (OpLease w now attempt ks) m = snd (mem_lease E w now attempt ks m)"
| "mem_step E (OpHeartbeat t a w now ks) m = snd (mem_heartbeat t a w now ks m)"
| "mem_step E (OpCommit t a result fail ks) m = snd (mem_commit E t a result fail ks m)"
| "mem_step E (OpRequeue now ks) m = fst (requeueExpiredLocked E now ks m)"
| "mem_step E (OpCancel raw) m = snd (mem_cancel E raw m)"

fun pg_step :: "net_env \<Rightarrow> store_op \<Rightarrow> pg_store \<Rightarrow> pg_store" where
  "pg_step E (OpCreate v b now jid ks opts) p = snd (pg_create E v b now jid opts p)"
| "pg_step E (OpLease w now attempt ks) p = snd (pg_lease E w now attempt p)"
| "pg_step E (OpHeartbeat t a w now ks) p = snd (pg_heartbeat E t a w now p)"
| "pg_step E (OpCommit t a result fail ks) p = snd (pg_commit E t a result fail p)"
| "pg_step E (OpRequeue now ks) p = snd (pg_requeue E now p)"
| "pg_step E (OpCancel raw) p = snd (pg_cancel E raw p)"

end
