(* ===== verification/Go_Text.thy ===== *)
theory Go_Text
  imports Go_Prelude
begin

text \<open>
  The text functions of the Go library that the diff, source and configuration code calls: UTF-8 validity,
  line scanning (\<open>bufio.Scanner\<close> with \<open>ScanLines\<close>), \<open>path.Clean\<close>, \<open>strings.Fields\<close>, \<open>strings.Index\<close> and
  \<open>strconv.Atoi\<close>, with the lemmas on clean paths and on lines that the components use.
\<close>

section \<open>UTF-8\<close>

definition byte_in :: "nat \<Rightarrow> nat \<Rightarrow> char \<Rightarrow> bool" where
  "byte_in lo hi c = (lo \<le> of_char c \<and> of_char c \<le> (hi :: nat))"

definition utf8_tail :: "char \<Rightarrow> bool" where
  "utf8_tail = byte_in 0x80 0xBF"

text \<open>\<open>utf8.Valid\<close>: the byte ranges of well-formed sequences, without surrogates and overlong forms.\<close>

fun utf8_valid :: "string \<Rightarrow> bool" where
  "utf8_valid [] = True"
| "utf8_valid (a # s) =
     (if byte_in 0 0x7F a then utf8_valid s
      else (case s of
        [] \<Rightarrow> False
      | b # t \<Rightarrow>
          if byte_in 0xC2 0xDF a then utf8_tail b \<and> utf8_valid t
          else (case t of
            [] \<Rightarrow> False
          | c # u \<Rightarrow>
              if byte_in 0xE0 0xEF a
              then byte_in (if a = CHR 0xE0 then 0xA0 else 0x80) (if a = CHR 0xED then 0x9F else 0xBF) b \<and>
                   utf8_tail c \<and> utf8_valid u
              else (case u of
                [] \<Rightarrow> False
              | d # v \<Rightarrow>
                  byte_in 0xF0 0xF4 a \<and>
                  byte_in (if a = CHR 0xF0 then 0x90 else 0x80) (if a = CHR 0xF4 then 0x8F else 0xBF) b \<and>
                  utf8_tail c \<and> utf8_tail d \<and> utf8_valid v))))"

section \<open>Lines and fields\<close>

text \<open>\<open>bufio.ScanLines\<close>: the lines without their end, a final carriage return of a line dropped.\<close>

definition newline :: char where
  "newline = CHR 0x0A"

definition drop_cr :: "string \<Rightarrow> string" where
  "drop_cr l = trim_suffix [CHR 0x0D] l"

definition scan_lines :: "string \<Rightarrow> string list" where
  "scan_lines data =
     (let ls = split_on newline data
      in map drop_cr (if last ls = [] then butlast ls else ls))"

text \<open>
  A scanner with a buffer of at most \<open>cap\<close> bytes fails on a line that does not fit. For an input of at most \<open>cap\<close>
  bytes this happens only when the input is one unterminated line of exactly \<open>cap\<close> bytes.
\<close>

definition scanner_lines :: "nat \<Rightarrow> string \<Rightarrow> (string list) option" where
  "scanner_lines cap data = (if length data \<ge> cap \<and> newline \<notin> set data then None else Some (scan_lines data))"

text \<open>\<open>strings.Fields\<close>; \<open>acc\<close> holds the field being read, reversed.\<close>

fun str_fields_loop :: "string \<Rightarrow> string \<Rightarrow> string list" where
  "str_fields_loop acc [] = (if acc = [] then [] else [rev acc])"
| "str_fields_loop acc (c # s) =
     (case find (\<lambda>p. p \<noteq> [] \<and> prefix p (c # s)) ws_runes of
        None \<Rightarrow> str_fields_loop (c # acc) s
      | Some p \<Rightarrow> (if acc = [] then [] else [rev acc]) @ str_fields_loop [] (drop (length p - 1) s))"

definition str_fields :: "string \<Rightarrow> string list" where
  "str_fields s = str_fields_loop [] s"

text \<open>\<open>strings.Index\<close>.\<close>

fun index_of :: "string \<Rightarrow> string \<Rightarrow> nat option" where
  "index_of p [] = (if p = [] then Some 0 else None)"
| "index_of p (c # s) = (if prefix p (c # s) then Some 0 else map_option Suc (index_of p s))"

text \<open>\<open>strconv.Atoi\<close>: an optional sign, decimal digits, a 64-bit result.\<close>

definition digits_val :: "string \<Rightarrow> nat" where
  "digits_val ds = fold (\<lambda>c n. 10 * n + (of_char c - 48)) ds 0"

definition atoi :: "string \<Rightarrow> int option" where
  "atoi s =
     (let neg = (s \<noteq> [] \<and> hd s = CHR ''-'');
          ds = (if s \<noteq> [] \<and> (hd s = CHR ''-'' \<or> hd s = CHR ''+'') then tl s else s);
          n = int (digits_val ds)
      in if ds = [] \<or> \<not> list_all is_digit ds then None
         else if neg then (if n \<le> 2 ^ 63 then Some (- n) else None)
         else (if n < 2 ^ 63 then Some n else None))"

text \<open>\<open>n + 1\<close> on a 64-bit \<open>int\<close>.\<close>

definition inc64 :: "int \<Rightarrow> int" where
  "inc64 n = (if n = 2 ^ 63 - 1 then - (2 ^ 63) else n + 1)"

section \<open>Paths\<close>

text \<open>\<open>path.Clean\<close>, segment by segment; \<open>out\<close> holds the segments kept so far, reversed.\<close>

fun clean_segs :: "bool \<Rightarrow> string list \<Rightarrow> string list \<Rightarrow> string list" where
  "clean_segs rooted out [] = rev out"
| "clean_segs rooted out (s # ss) =
     (if s = [] \<or> s = ''.'' then clean_segs rooted out ss
      else if s = ''..''
      then (case out of
              [] \<Rightarrow> clean_segs rooted (if rooted then [] else [''..'']) ss
            | t # out' \<Rightarrow> clean_segs rooted (if t = ''..'' then ''..'' # out else out') ss)
      else clean_segs rooted (s # out) ss)"

definition path_clean :: "string \<Rightarrow> string" where
  "path_clean p =
     (if p = [] then ''.''
      else (let rooted = (hd p = CHR ''/''); segs = clean_segs rooted [] (split_on CHR ''/'' p)
            in if rooted then ''/'' @ join ''/'' segs else if segs = [] then ''.'' else join ''/'' segs))"

text \<open>\<open>path.Base\<close> and \<open>path.Ext\<close>.\<close>

definition path_base :: "string \<Rightarrow> string" where
  "path_base p =
     (if p = [] then ''.''
      else (let s = trim_right_set ''/'' p
            in if s = [] then ''/'' else rev (takeWhile (\<lambda>c. c \<noteq> CHR ''/'') (rev s))))"

definition path_ext :: "string \<Rightarrow> string" where
  "path_ext p =
     (let b = takeWhile (\<lambda>c. c \<noteq> CHR ''/'') (rev p); e = takeWhile (\<lambda>c. c \<noteq> CHR ''.'') b
      in if CHR ''.'' \<in> set b then CHR ''.'' # rev e else [])"

section \<open>Lemmas on clean paths\<close>

lemma clean_segs_set:
  "set (clean_segs r out ss) \<subseteq> set out \<union> set ss \<union> {''..''}"
proof (induction r out ss rule: clean_segs.induct)
  case (1 r out)
  then show ?case by auto
next
  case (2 r out s ss)
  then show ?case by (auto split: list.splits if_splits)
qed

lemma clean_segs_nonempty:
  "[] \<notin> set out \<Longrightarrow> [] \<notin> set (clean_segs r out ss)"
proof (induction r out ss rule: clean_segs.induct)
  case (2 r out s ss)
  show ?case
  proof (cases "s = [] \<or> s = ''.''")
    case True
    then show ?thesis using 2 by simp
  next
    case False
    show ?thesis
    proof (cases "s = ''..''")
      case True
      then show ?thesis using False 2 by (cases out) auto
    next
      case f: False
      then show ?thesis using False 2 by auto
    qed
  qed
qed simp

text \<open>The segments of a clean path: not empty and without a separator.\<close>

definition path_segs :: "string list \<Rightarrow> bool" where
  "path_segs segs = (list_all (\<lambda>s. s \<noteq> [] \<and> CHR ''/'' \<notin> set s) segs)"

lemma path_clean_cases:
  obtains (rooted) segs where "path_clean p = ''/'' @ join ''/'' segs" "path_segs segs"
    | (dot) "path_clean p = ''.''"
    | (rel) segs where "path_clean p = join ''/'' segs" "path_segs segs" "segs \<noteq> []"
proof -
  have segs: "path_segs (clean_segs r [] (split_on CHR ''/'' p))" for r
    using clean_segs_set [of r "[]" "split_on CHR ''/'' p"] clean_segs_nonempty [of "[]" r "split_on CHR ''/'' p"]
    by (force simp: path_segs_def list_all_iff dest: split_on_segments)
  let ?s = "clean_segs (hd p = CHR ''/'') [] (split_on CHR ''/'' p)"
  consider "p = []" | "p \<noteq> []" "hd p = CHR ''/''" | "p \<noteq> []" "hd p \<noteq> CHR ''/''" "?s = []" |
      "p \<noteq> []" "hd p \<noteq> CHR ''/''" "?s \<noteq> []" by blast
  then show thesis
    using segs by cases (rule dot rooted [of ?s] rel [of ?s]; simp add: path_clean_def Let_def)+
qed

lemma join_no_double:
  assumes "path_segs segs"
  shows "join ''/'' segs \<noteq> u @ ''//'' @ v" and "join ''/'' segs \<noteq> CHR ''/'' # v"
proof -
  have s: "split_on CHR ''/'' (join ''/'' segs) = segs" if "segs \<noteq> []"
    using split_on_join [OF that, of "CHR ''/''"] assms by (auto simp: path_segs_def list_all_iff)
  have ne: "[] \<notin> set segs" using assms by (auto simp: path_segs_def list_all_iff)
  have app: "split_on c (x @ c # y) = split_on c x @ split_on c y" for c x y
    by (induction x) (auto split: list.splits)
  show "join ''/'' segs \<noteq> u @ ''//'' @ v"
  proof
    assume j: "join ''/'' segs = u @ ''//'' @ v"
    then have "segs \<noteq> []" by auto
    from s [OF this] have "segs = split_on CHR ''/'' u @ [] # split_on CHR ''/'' v"
      using app [of "CHR ''/''" u "''/'' @ v"] by (simp add: j)
    then show False using ne by (metis in_set_conv_decomp)
  qed
  show "join ''/'' segs \<noteq> CHR ''/'' # v"
  proof
    assume j: "join ''/'' segs = CHR ''/'' # v"
    then have "segs \<noteq> []" by auto
    from s [OF this] have "[] \<in> set segs" unfolding j by (metis split_on.simps(2) list.set_intros(1))
    then show False using ne by simp
  qed
qed

text \<open>A clean path without its leading separator starts with none, and contains no two in a row.\<close>

lemma path_clean_single:
  "trim_prefix ''/'' (path_clean p) \<noteq> u @ ''//'' @ v" "trim_prefix ''/'' (path_clean p) \<noteq> CHR ''/'' # v"
proof -
  consider segs where "trim_prefix ''/'' (path_clean p) = join ''/'' segs" "path_segs segs"
  proof (cases p rule: path_clean_cases)
    case (rooted segs)
    then show ?thesis by (intro that [of segs]) (simp_all add: trim_prefix_def)
  next
    case dot
    then show ?thesis by (intro that [of "[''.'']"]) (simp_all add: trim_prefix_def path_segs_def)
  next
    case (rel segs)
    then have "\<not> prefix ''/'' (join ''/'' segs)" using join_no_double(2) [of segs] by (auto simp: prefix_def)
    then show ?thesis using rel by (intro that [of segs]) (simp_all add: trim_prefix_def)
  qed
  then show "trim_prefix ''/'' (path_clean p) \<noteq> u @ ''//'' @ v" "trim_prefix ''/'' (path_clean p) \<noteq> CHR ''/'' # v"
    using join_no_double by metis+
qed

lemma trim_prefix_suffix: "suffix (trim_prefix p s) s"
  by (simp add: trim_prefix_def suffix_drop)

end
