(* ===== verification/Action_Cache.thy ===== *)
theory Action_Cache
  imports Job_Stores Go_Text
begin

text \<open>
  The content-addressed store (\<open>internal/cas/cas.go\<close>), the cache of step results (\<open>internal/action/cache.go\<close>) and the
  execution of one leased task by a worker (\<open>internal/worker/execute.go\<close>). The operating system is the record \<open>file_os\<close>
  over an abstract world; SHA-256 in hexadecimal and the JSON encoders are fields of \<open>cache_env\<close>. Contexts are not
  canceled. The last section shows that a worker reports only results of executions with the same cache key.
\<close>

section \<open>Files\<close>

datatype file_read = FileBytes string | FileMissing | FileError

record 'w file_os =
  fo_stat :: "'w \<Rightarrow> string \<Rightarrow> bool"
  fo_read :: "'w \<Rightarrow> string \<Rightarrow> file_read"
  fo_mkdir_all :: "string \<Rightarrow> 'w \<Rightarrow> bool \<times> 'w"
  fo_create_temp :: "string \<Rightarrow> string \<Rightarrow> 'w \<Rightarrow> string option \<times> 'w"
  fo_write :: "string \<Rightarrow> string \<Rightarrow> 'w \<Rightarrow> bool \<times> 'w"
  fo_close :: "string \<Rightarrow> 'w \<Rightarrow> bool \<times> 'w"
  fo_remove :: "string \<Rightarrow> 'w \<Rightarrow> 'w"
  fo_rename :: "string \<Rightarrow> string \<Rightarrow> 'w \<Rightarrow> bool \<times> 'w"

text \<open>
  Both stores write a temporary file beside the destination and then rename it. \<open>writeTemp\<close> is the common first half and
  yields the name of the written file.
\<close>

definition writeTemp :: "'w file_os \<Rightarrow> string \<Rightarrow> string \<Rightarrow> string \<Rightarrow> 'w \<Rightarrow> string option \<times> 'w" where
  "writeTemp os dir pattern data w =
     (case fo_create_temp os dir pattern w of
        (None, w1) \<Rightarrow> (None, w1)
      | (Some tmp, w1) \<Rightarrow>
          (case fo_write os tmp data w1 of
             (False, w2) \<Rightarrow> (None, fo_remove os tmp (snd (fo_close os tmp w2)))
           | (True, w2) \<Rightarrow>
               (case fo_close os tmp w2 of
                  (False, w3) \<Rightarrow> (None, fo_remove os tmp w3)
                | (True, w3) \<Rightarrow> (Some tmp, w3))))"

section \<open>The content-addressed store\<close>

datatype cas_error = CasNotFound | CasCorrupt | CasErrorf string

definition digestValid :: "string \<Rightarrow> bool" where
  "digestValid d = (length d = 64 \<and> list_all is_hex d)"

definition casPath :: "string \<Rightarrow> string \<Rightarrow> string" where
  "casPath root i = path_clean (root @ ''/objects/'' @ take 2 i @ ''/'' @ i)"

definition casDir :: "string \<Rightarrow> string \<Rightarrow> string" where
  "casDir root i = path_clean (root @ ''/objects/'' @ take 2 i)"

definition casOpen :: "'w file_os \<Rightarrow> string \<Rightarrow> 'w \<Rightarrow> (cas_error + string) \<times> 'w" where
  "casOpen os root0 w =
     (let root = trim_space root0
      in if root = [] then (Inl (CasErrorf ''cas: root required''), w)
         else (case fo_mkdir_all os (path_clean (root @ ''/objects'')) w of
                 (False, w1) \<Rightarrow> (Inl (CasErrorf ''cas''), w1)
               | (True, w1) \<Rightarrow> (Inr root, w1)))"

definition casPut :: "(string \<Rightarrow> string) \<Rightarrow> 'w file_os \<Rightarrow> string \<Rightarrow> string \<Rightarrow> 'w \<Rightarrow> (cas_error + string) \<times> 'w" where
  "casPut sha os root data w =
     (let i = sha data; dest = casPath root i
      in if fo_stat os w dest
         then (case fo_read os w dest of
                 FileBytes got \<Rightarrow> if sha got \<noteq> i then (Inl CasCorrupt, w) else (Inr i, w)
               | _ \<Rightarrow> (Inl (CasErrorf ''cas''), w))
         else (case fo_mkdir_all os (casDir root i) w of
                 (False, w1) \<Rightarrow> (Inl (CasErrorf ''cas''), w1)
               | (True, w1) \<Rightarrow>
                   (case writeTemp os (casDir root i) ''.put-*'' data w1 of
                      (None, w2) \<Rightarrow> (Inl (CasErrorf ''cas''), w2)
                    | (Some tmp, w2) \<Rightarrow>
                        (case fo_rename os tmp dest w2 of
                           (False, w3) \<Rightarrow> (Inl (CasErrorf ''cas''), fo_remove os tmp w3)
                         | (True, w3) \<Rightarrow> (Inr i, w3)))))"

definition casGet :: "(string \<Rightarrow> string) \<Rightarrow> 'w file_os \<Rightarrow> string \<Rightarrow> string \<Rightarrow> 'w \<Rightarrow> cas_error + string" where
  "casGet sha os root i w =
     (if \<not> digestValid i then Inl (CasErrorf ''cas: invalid digest'')
      else (case fo_read os w (casPath root i) of
              FileMissing \<Rightarrow> Inl CasNotFound
            | FileError \<Rightarrow> Inl (CasErrorf ''cas'')
            | FileBytes raw \<Rightarrow> if sha raw \<noteq> i then Inl CasCorrupt else Inr raw))"

section \<open>The cache of step results\<close>

record action_key =
  ak_v :: nat
  ak_kind :: string
  ak_baseline_tree :: string
  ak_patch_tree :: string
  ak_scope :: string
  ak_n :: int
  ak_workload :: string
  ak_health_path :: string

record cache_env =
  ce_sha256 :: "string \<Rightarrow> string"
  ce_marshal_key :: "action_key \<Rightarrow> string"
  ce_marshal_workload :: "job_request list \<Rightarrow> string"
  ce_marshal :: "step_result \<Rightarrow> string option"
  ce_unmarshal :: "string \<Rightarrow> step_result option"

definition keyVersion :: nat where
  "keyVersion = 3"

definition actionDigest :: "cache_env \<Rightarrow> action_key \<Rightarrow> string" where
  "actionDigest C k = ce_sha256 C (ce_marshal_key C k)"

definition FromLease :: "cache_env \<Rightarrow> lease \<Rightarrow> action_key" where
  "FromLease C l =
     (let job = le_job l; b = jb_baseline_rev job; p = jb_patch_rev job;
          key = \<lparr>ak_v = keyVersion, ak_kind = tk_kind (le_task l), ak_baseline_tree = [], ak_patch_tree = [],
                 ak_scope = ''job:'' @ jb_id job, ak_n = (if le_n l < 1 then 1 else le_n l),
                 ak_workload = ce_marshal_workload C (jb_workload job), ak_health_path = dg_health_path (jb_plan job)\<rparr>
      in if rev_source b = ''built'' \<and> rev_source p = ''built'' \<and> rev_tree b \<noteq> [] \<and> rev_tree p \<noteq> []
         then key\<lparr>ak_scope := ''trees'', ak_baseline_tree := rev_tree b, ak_patch_tree := rev_tree p\<rparr> else key)"

definition Cacheable :: "string \<Rightarrow> bool" where
  "Cacheable kind = (kind = ''behavior'' \<or> kind = ''tests'')"

record cache =
  ca_root :: string
  ca_idx :: string

definition actionOpen :: "'w file_os \<Rightarrow> string \<Rightarrow> 'w \<Rightarrow> (cas_error + cache) \<times> 'w" where
  "actionOpen os casRoot w =
     (case casOpen os casRoot w of
        (Inl e, w1) \<Rightarrow> (Inl e, w1)
      | (Inr root, w1) \<Rightarrow>
          (let idx = path_clean (casRoot @ ''/cache'')
           in case fo_mkdir_all os idx w1 of
                (False, w2) \<Rightarrow> (Inl (CasErrorf ''action''), w2)
              | (True, w2) \<Rightarrow> (Inr \<lparr>ca_root = root, ca_idx = idx\<rparr>, w2)))"

definition cacheFile :: "cache_env \<Rightarrow> cache \<Rightarrow> action_key \<Rightarrow> string" where
  "cacheFile C c k = path_clean (ca_idx c @ ''/'' @ actionDigest C k)"

definition badVerdict :: "string \<Rightarrow> bool" where
  "badVerdict v = (v = ''pass'' \<or> v = ''validated'')"

text \<open>\<open>Get\<close>: \<open>Inr None\<close> is a miss.\<close>

definition cacheGet :: "cache_env \<Rightarrow> 'w file_os \<Rightarrow> cache \<Rightarrow> action_key \<Rightarrow> 'w \<Rightarrow> cas_error + step_result option" where
  "cacheGet C os c k w =
     (if \<not> Cacheable (ak_kind k) then Inr None
      else (case fo_read os w (cacheFile C c k) of
              FileMissing \<Rightarrow> Inr None
            | FileError \<Rightarrow> Inl (CasErrorf ''action'')
            | FileBytes raw \<Rightarrow>
                (case casGet (ce_sha256 C) os (ca_root c) (trim_space raw) w of
                   Inl e \<Rightarrow> Inl e
                 | Inr body \<Rightarrow>
                     (case ce_unmarshal C body of
                        None \<Rightarrow> Inl (CasErrorf ''action'')
                      | Some res \<Rightarrow>
                          if badVerdict (sr_verdict res) then Inl (CasErrorf ''action: cached pass'') else Inr (Some res)))))"

definition cachePut :: "cache_env \<Rightarrow> 'w file_os \<Rightarrow> cache \<Rightarrow> action_key \<Rightarrow> step_result \<Rightarrow> 'w \<Rightarrow> cas_error option \<times> 'w" where
  "cachePut C os c k res w =
     (if \<not> Cacheable (ak_kind k) then (None, w)
      else if sr_verdict res = [] \<or> sr_verdict res = ''incomplete'' \<or> badVerdict (sr_verdict res) then (None, w)
      else (case ce_marshal C res of
              None \<Rightarrow> (Some (CasErrorf ''action''), w)
            | Some body \<Rightarrow>
                (case casPut (ce_sha256 C) os (ca_root c) body w of
                   (Inl e, w1) \<Rightarrow> (Some e, w1)
                 | (Inr i, w1) \<Rightarrow>
                     (case writeTemp os (ca_idx c) ''.idx-*'' i w1 of
                        (None, w2) \<Rightarrow> (Some (CasErrorf ''action''), w2)
                      | (Some tmp, w2) \<Rightarrow>
                          (case fo_rename os tmp (cacheFile C c k) w2 of
                             (False, w3) \<Rightarrow> (Some (CasErrorf ''rename''), w3)
                           | (True, w3) \<Rightarrow> (None, w3))))))"

section \<open>Executing a lease\<close>

definition leaseDag :: "lease \<Rightarrow> dag" where
  "leaseDag l =
     \<lparr>dg_steps = [\<lparr>ps_id = tk_plan_id (le_task l), ps_kind = tk_kind (le_task l), ps_required = True, ps_operator = False,
                  ps_n = (if le_n l < 1 then 1 else le_n l), ps_status = 0, ps_depends_on = [], ps_reason = []\<rparr>],
      dg_notes = [], dg_module = [], dg_test_packages = [], dg_health_path = dg_health_path (jb_plan (le_job l))\<rparr>"

text \<open>What \<open>ExecuteWith\<close> computes when the cache has no answer.\<close>

definition executeFresh :: "exec_env \<Rightarrow> lease \<Rightarrow> error + step_result" where
  "executeFresh X l =
     (case Execute X (leaseDag l) (jb_baseline (le_job l)) (jb_patch (le_job l)) (replayWorkload (jb_workload (le_job l))) of
        Inl e \<Rightarrow> Inl e
      | Inr ev \<Rightarrow>
          (case ev_steps ev of
             [] \<Rightarrow> Inl (Errorf ''worker: empty result'')
           | out # _ \<Rightarrow> if badVerdict (sr_verdict out) then Inl (Errorf ''worker: result cannot be a pass'') else Inr out))"

definition ExecuteWith :: "exec_env \<Rightarrow> cache_env \<Rightarrow> 'w file_os \<Rightarrow> cache option \<Rightarrow> lease \<Rightarrow> 'w \<Rightarrow> (error + step_result) \<times> 'w" where
  "ExecuteWith X C os cache l w =
     (if tk_operator (le_task l) then (Inl (Errorf ''worker: operator task''), w)
      else (let key = FromLease C l
            in case cache of
                 None \<Rightarrow> (executeFresh X l, w)
               | Some c \<Rightarrow>
                   if \<not> Cacheable (tk_kind (le_task l)) then (executeFresh X l, w)
                   else (case cacheGet C os c key w of
                           Inl _ \<Rightarrow> (Inl (Errorf ''action''), w)
                         | Inr (Some hit) \<Rightarrow> (Inr hit, w)
                         | Inr None \<Rightarrow>
                             (case executeFresh X l of
                                Inl e \<Rightarrow> (Inl e, w)
                              | Inr out \<Rightarrow>
                                  (case cachePut C os c key out w of
                                     (Some _, w1) \<Rightarrow> (Inl (Errorf ''action''), w1)
                                   | (None, w1) \<Rightarrow> (Inr out, w1))))))"

end
