(* ===== verification/Paths.thy ===== *)
theory Paths
  imports Go_Text
begin

text \<open>
  Lemmas on clean paths that the components working with files share: what cleaning does to appended segments, and
  where a name that has no special segments ends up below a directory.
\<close>

section \<open>Appending segments\<close>

definition plain_seg :: "string \<Rightarrow> bool" where
  "plain_seg s = (s \<noteq> [] \<and> s \<noteq> ''.'' \<and> s \<noteq> ''..'' \<and> CHR ''/'' \<notin> set s)"

lemma split_on_append: "split_on c (x @ c # y) = split_on c x @ split_on c y"
proof (induction x)
  case (Cons a x)
  obtain y' ys where "split_on c x = y' # ys" by (meson split_on_nonempty neq_Nil_conv)
  with Cons show ?case by simp
qed simp

lemma clean_segs_append: "clean_segs r out (ss @ ts) = clean_segs r (rev (clean_segs r out ss)) ts"
  by (induction ss arbitrary: out) (auto split: list.splits)

lemma clean_segs_plain: "list_all plain_seg ts \<Longrightarrow> clean_segs r out ts = rev out @ ts"
  by (induction ts arbitrary: out) (auto simp: plain_seg_def)

lemma path_clean_last:
  assumes "split_on CHR ''/'' p = ss @ ts" and ts: "list_all plain_seg ts" "ts \<noteq> []"
  shows "\<exists>xs. split_on CHR ''/'' (path_clean p) = xs @ ts"
proof -
  let ?r = "hd p = CHR ''/''"
  let ?segs = "clean_segs ?r [] (split_on CHR ''/'' p)"
  have p: "p \<noteq> []"
  proof
    assume "p = []"
    then have "ss @ ts = [[]]" using assms(1) by simp
    then show False using ts by (cases ss) (auto simp: plain_seg_def)
  qed
  have segs: "?segs = clean_segs ?r [] ss @ ts"
    using clean_segs_append [of ?r "[]" ss ts] clean_segs_plain [OF ts(1)] assms(1) by simp
  have noslash: "\<forall>x\<in>set ?segs. CHR ''/'' \<notin> set x"
    using clean_segs_set [of ?r "[]" "split_on CHR ''/'' p"] by (force dest: split_on_segments)
  have ne: "?segs \<noteq> []" using segs ts(2) by simp
  have j: "split_on CHR ''/'' (join ''/'' ?segs) = ?segs" using split_on_join [OF ne noslash] by simp
  have "split_on CHR ''/'' (path_clean p) = (if ?r then [] # ?segs else ?segs)"
    using p ne j by (cases ?r) (simp_all add: path_clean_def Let_def)
  then show ?thesis using segs by (metis append_Cons)
qed

lemma clean_segs_no_dot: "''.'' \<notin> set out \<Longrightarrow> ''.'' \<notin> set (clean_segs r out ss)"
  by (induction r out ss rule: clean_segs.induct) (auto split: list.splits if_splits)

text \<open>A clean relative name without parent segments consists of plain segments.\<close>

lemma clean_name_plain:
  assumes "path_clean name = name" and "name \<noteq> ''.''" and "\<not> prefix ''/'' name" and "''..'' \<notin> set (split_on CHR ''/'' name)"
  shows "list_all plain_seg (split_on CHR ''/'' name)"
proof -
  have ne: "name \<noteq> []" using assms(1) by (auto simp: path_clean_def)
  then have hd: "hd name \<noteq> CHR ''/''" using assms(3) by (cases name) auto
  let ?segs = "clean_segs False [] (split_on CHR ''/'' name)"
  have s: "?segs \<noteq> []" "name = join ''/'' ?segs"
    using assms(1,2) ne hd by (auto simp: path_clean_def Let_def split: if_splits)
  have noslash: "\<forall>x\<in>set ?segs. CHR ''/'' \<notin> set x"
    using clean_segs_set [of False "[]" "split_on CHR ''/'' name"] by (force dest: split_on_segments)
  from split_on_join [OF s(1) noslash] s(2) have split: "split_on CHR ''/'' name = ?segs" by simp
  show ?thesis
    using clean_segs_no_dot [of "[]" False "split_on CHR ''/'' name"] clean_segs_nonempty [of "[]" False "split_on CHR ''/'' name"]
      noslash assms(4) split by (auto simp: list_all_iff plain_seg_def)
qed

lemma join_append: "xs \<noteq> [] \<Longrightarrow> ys \<noteq> [] \<Longrightarrow> join sep (xs @ ys) = join sep xs @ sep @ join sep ys"
proof (induction xs)
  case (Cons x xs)
  then show ?case by (cases xs; cases ys) auto
qed simp

text \<open>A directory that is absolute and clean, and is not the root.\<close>

definition clean_dir :: "string \<Rightarrow> bool" where
  "clean_dir d = (prefix ''/'' d \<and> path_clean d = d \<and> d \<noteq> ''/'')"

lemma path_clean_below:
  assumes d: "clean_dir d" and n: "list_all plain_seg (split_on CHR ''/'' name)"
  shows "path_clean (d @ ''/'' @ name) = d @ ''/'' @ name"
proof -
  let ?segs = "clean_segs True [] (split_on CHR ''/'' d)" and ?ns = "split_on CHR ''/'' name"
  have dne: "d \<noteq> []" "hd d = CHR ''/''" using d by (auto simp: clean_dir_def prefix_def)
  have dj: "d = ''/'' @ join ''/'' ?segs" using d dne by (simp add: clean_dir_def path_clean_def)
  have sne: "?segs \<noteq> []"
  proof
    assume "?segs = []"
    then have "d = ''/''" using dj by simp
    then show False using d by (simp add: clean_dir_def)
  qed
  have "clean_segs True [] (split_on CHR ''/'' (d @ ''/'' @ name)) = ?segs @ ?ns"
    using split_on_append [of "CHR ''/''" d name] clean_segs_append [of True "[]" "split_on CHR ''/'' d" ?ns] clean_segs_plain [OF n] by simp
  then have "path_clean (d @ ''/'' @ name) = ''/'' @ join ''/'' (?segs @ ?ns)"
    using dne by (simp add: path_clean_def Let_def)
  also have "\<dots> = ''/'' @ join ''/'' ?segs @ ''/'' @ name"
    using join_append [OF sne, of ?ns "''/''"] join_split_on [of "CHR ''/''" name] by simp
  finally show ?thesis using dj by (metis append.assoc)
qed

end
