(* ===== verification/Validated_Runs.thy ===== *)
theory Validated_Runs
  imports Validate
begin

text \<open>
  From executed evidence to the decision: what each step result of \<open>plan.Execute\<close> says about the replays it was
  computed from once \<open>validate.Decide\<close> accepts it, and a concrete execution, from the impact report to a
  validated decision, that shows the conditions can be met.
\<close>

section \<open>From the evidence to the decision\<close>

lemma verdict_literals [simp]:
  "to_lower (trim_space ''match'') = ''match''" "to_lower (trim_space ''differ'') = ''differ''"
  "to_lower (trim_space ''incomplete'') = ''incomplete''" "to_lower (trim_space ''samples'') = ''samples''"
  "to_lower (trim_space ''prepared'') = ''prepared''" "to_lower (trim_space ''skipped'') = ''skipped''"
  by code_simp+

lemma compareFirst_verdict:
  "cr_verdict (compareFirst dec base patch) \<in> {''incomplete'', ''differ'', ''match''}"
  by (simp add: compareFirst_def Compare_def Let_def split: list.split)

lemma evalStep_env_ok:
  assumes "stepOK ''env'' (evalStep X data s)" and "ps_kind s = ''env''"
  shows "\<not> ps_operator s \<and> xd_env_err data = None"
  using assms by (simp add: stepOK_def evalStep_def Let_def split: if_splits option.splits error.splits)

lemma evalStep_behavior_ok:
  assumes "stepOK ''behavior'' (evalStep X data s)" and "ps_kind s = ''behavior''"
  shows "xd_base data \<noteq> [] \<and> xd_patch data \<noteq> [] \<and>
    list_all2 (same_answer (xe_dec X)) (re_steps (hd (xd_base data))) (re_steps (hd (xd_patch data)))"
proof -
  let ?r = "compareFirst (xe_dec X) (xd_base data) (xd_patch data)"
  have "to_lower (trim_space (cr_verdict ?r)) = ''match''"
    using assms by (simp add: stepOK_def evalStep_def Let_def split: if_splits)
  then have "cr_verdict ?r = ''match''"
    using compareFirst_verdict [of "xe_dec X" "xd_base data" "xd_patch data"] by auto
  then show ?thesis by (simp add: compareFirst_def Compare_match split: list.splits)
qed

lemma evalStep_latency_ok:
  assumes "stepOK ''latency'' (evalStep X data s)" and "ps_kind s = ''latency''"
  shows "Latency (xd_base data) (xd_patch data) \<noteq> [] \<and>
    list_all (\<lambda>l. 20 \<le> su_n (sl_baseline l) \<and> 20 \<le> su_n (sl_patch l) \<and> \<not> Shifted l) (Latency (xd_base data) (xd_patch data))"
  using assms unfolding stepOK_latency by (simp add: evalStep_def Let_def split: if_splits)

lemma evalStep_concurrency_ok:
  assumes "stepOK ''concurrency'' (evalStep X data s)" and "ps_kind s = ''concurrency''"
  shows "xd_base_burst data \<noteq> [] \<and> xd_patch_burst data \<noteq> [] \<and>
    fst (burstErrors (xd_base_burst data)) = fst (burstErrors (xd_patch_burst data))"
  using assms by (simp add: stepOK_def evalStep_def Let_def compareBurst_def split: if_splits prod.splits)

lemma Decide_core:
  assumes "dn_validated (Decide E i)" and "k \<in> set coreKinds"
  shows "\<exists>s \<in> set (ev_steps (in_result i)). sr_kind s = k \<and> stepOK k s"
proof -
  have "stepBlockers coreKinds (ev_steps (in_result i)) = []"
    using assms(1) by (simp add: Decide_def Let_def)
  then have "kindBlockers (ev_steps (in_result i)) k = []"
    using assms(2) by (simp add: stepBlockers_def)
  then show ?thesis by (auto simp: kindBlockers_Nil)
qed

lemma Decide_required:
  assumes "dn_validated (Decide E i)" and "s \<in> set (dg_steps (in_plan i))" and "ps_required s" and "\<not> ps_operator s"
  shows "\<exists>r \<in> set (ev_steps (in_result i)). sr_kind r = ps_kind s \<and> stepOK (ps_kind s) r"
proof (cases "ps_kind s \<in> set coreKinds")
  case False
  have "requiredStepBlockers i = []" using assms(1) by (simp add: Decide_def Let_def)
  then have "kindBlockers (ev_steps (in_result i)) (ps_kind s) = []"
    using False assms(2-4) by (auto simp: requiredStepBlockers_def stepBlockers_def set_requiredKinds)
  then show ?thesis by (auto simp: kindBlockers_Nil)
qed (use Decide_core assms(1) in blast)

lemma runTests_prepared:
  assumes "to_lower (trim_space (sr_verdict (runTests X d))) = ''prepared''"
  shows "fst (xe_go_test X (dg_module d) (dg_test_packages d)) = TestOK"
  using assms by (simp add: runTests_def Let_def split: if_splits prod.splits test_outcome.splits)

lemma evalStep_tests_ok:
  assumes "stepOK ''tests'' (evalStep X data s)" and "ps_kind s = ''tests''" and "s \<in> set (dg_steps d)"
    and "gathered X d base patch w data"
  shows "fst (xe_go_test X (dg_module d) (dg_test_packages d)) = TestOK"
proof (rule runTests_prepared)
  have "hasKind d ''tests''" using assms(2,3) by (auto simp: hasKind_def list_ex_iff)
  then have "xd_tests data = runTests X d" using assms(4) by (simp add: gathered_def)
  then show "to_lower (trim_space (sr_verdict (runTests X d))) = ''prepared''"
    using assms(1,2) by (simp add: stepOK_def evalStep_def Let_def split: if_splits)
qed

lemma both_Inr:
  assumes "both c a b = Inr (x, y)" and "x \<noteq> []"
  shows "a = Inr x \<and> b = Inr y"
  using assms by (simp add: both_def split: if_splits sum.splits)

section \<open>A validated execution\<close>

text \<open>A concrete execution: both sides answer every request with 200 and an empty body.\<close>

definition demo_exec :: exec_env where
  "demo_exec = \<lparr>xe_net = demo_net, xe_dec = (\<lambda>_. None), xe_get = (\<lambda>_. Response 200 (Inr []) 1000),
     xe_repeat = (\<lambda>_ _ _. Response 200 (Inr []) 1000), xe_burst = (\<lambda>_ _ _. Response 200 (Inr []) 1000),
     xe_probe = (\<lambda>u _. Response (if prefix ''http://127'' u then 502 else 200) (Inr []) 1000),
     xe_listen = Inr ''127.0.0.1:9'', xe_go_test = (\<lambda>_ _. (TestOK, [])), xe_ms = (\<lambda>_. ''0'')\<rparr>"

definition demo_report :: impact_report where
  "demo_report = \<lparr>rp_trace_counts = [], rp_files = [''cart.go''], rp_direct = [], rp_likely = [],
     rp_runtime = [no_finding\<lparr>fi_route := ''GET /cart''\<rparr>], rp_unobserved = []\<rparr>"

definition demo_plan :: dag where
  "demo_plan = WithTests (projr (FromImpact demo_report)) (Some ''/m'') True (\<lambda>_. True) [''cart.go'']"


definition demo_obs :: observation where
  "demo_obs = \<lparr>ob_method = ''GET'', ob_path = ''/cart'', ob_status = 200, ob_body = [], ob_duration = 1000, ob_err = []\<rparr>"

definition demo_run :: "string \<Rightarrow> result" where
  "demo_run t = \<lparr>re_target = t, re_steps = [demo_obs]\<rparr>"

definition demo_stats :: summary where
  "demo_stats = \<lparr>su_n = 20, su_min = 1000, su_med = 1000, su_p95 = 1000, su_p99 = 1000, su_has_p95 = True, su_has_p99 = True\<rparr>"

definition demo_evidence :: evidence where
  "demo_evidence = \<lparr>ev_overall = ''match'', ev_steps =
     [mk_result ''env'' ''env'' ''prepared'' [''healthz''],
      (mk_result ''behavior'' ''behavior'' ''match'' [])\<lparr>sr_steps :=
         [\<lparr>de_method = ''GET'', de_path = ''/cart'', de_status = ''match'', de_baseline_status = 200,
           de_patch_status = 200, de_notes = []\<rparr>]\<rparr>,
      (mk_result ''latency'' ''latency'' ''samples'' [])\<lparr>sr_latency :=
         [\<lparr>sl_method = ''GET'', sl_path = ''/cart'', sl_baseline = demo_stats, sl_patch = demo_stats\<rparr>]\<rparr>,
      mk_result ''concurrency'' ''concurrency'' ''match'' [''baseline_errors=0/8 patch_errors=0/8''],
      mk_result ''fault_status'' ''fault_status'' ''prepared'' [''one-sided 502''],
      mk_result ''tests'' ''tests'' ''prepared'' [''go test'']],
     ev_notes = dg_notes demo_plan\<rparr>"

lemma repeatLoop_const: "(\<And>i. run i = Inr r) \<Longrightarrow> repeatLoop run i n = Inr (replicate n r)"
  by (induction n arbitrary: i) simp_all

lemma demo_targets:
  "parseTarget demo_net ''http://a:1'' = Inr ''http://a:1''" "parseTarget demo_net ''http://b:2'' = Inr ''http://b:2''"
  "parseTarget demo_net ''http://127.0.0.1:9'' = Inr ''http://127.0.0.1:9''"
  by code_simp+
lemma demo_Run:
  "Run demo_net (xe_repeat demo_exec i) ''http://a:1'' (in_workload demo_input) = Inr (demo_run ''http://a:1'')"
  "Run demo_net (xe_repeat demo_exec i) ''http://b:2'' (in_workload demo_input) = Inr (demo_run ''http://b:2'')"
  "Run demo_net (xe_burst demo_exec i) ''http://a:1'' (in_workload demo_input) = Inr (demo_run ''http://a:1'')"
  "Run demo_net (xe_burst demo_exec i) ''http://b:2'' (in_workload demo_input) = Inr (demo_run ''http://b:2'')"
  by (simp_all add: Run_def demo_targets demo_input_def demo_exec_def runStep_def demo_run_def demo_obs_def)

lemma rank_replicate:
  assumes "0 < n" shows "rank (replicate n x) p = x"
proof -
  have "nat (if int n \<le> i then int n - 1 else i) < n" for i using assms by (cases "int n \<le> i") (simp_all add: nat_less_iff)
  then show ?thesis using assms by (simp add: rank_def Let_def)
qed

lemma demo_stats: "Summarize (replicate 20 1000) = demo_stats"
proof -
  have "sort_key sint (replicate 20 (1000 :: int64)) = replicate 20 1000"
    by (rule sort_key_id_if_sorted) simp
  then show ?thesis
    by (simp add: Summarize_def Let_def no_summary_def minPercentileN_def rank_replicate demo_stats_def)
qed

lemma demo_durations: "successfulDurations (replicate n (demo_run t)) 0 = replicate n 1000"
  by (induction n) (simp_all add: successfulDurations_def List.map_filter_simps demo_run_def demo_obs_def word_sle_eq)

lemma demo_latency: "Latency (replicate 20 (demo_run s)) (replicate 20 (demo_run t)) =
  [\<lparr>sl_method = ''GET'', sl_path = ''/cart'', sl_baseline = demo_stats, sl_patch = demo_stats\<rparr>]"
proof -
  have "replicate 20 r = r # replicate 19 r" for r :: result by (simp add: numeral_eq_Suc)
  then show ?thesis
    using demo_durations [of 20 s] demo_durations [of 20 t]
    by (simp add: Latency_def) (simp add: demo_run_def demo_obs_def demo_stats)
qed

lemma demo_plan_needs: "replayRepeats demo_plan = (20, True)" "concurrencyN demo_plan = (8, True)"
  by code_simp+

lemma demo_replays:
  "Repeat demo_net (xe_repeat demo_exec) ''http://a:1'' (in_workload demo_input) 20 = Inr (replicate 20 (demo_run ''http://a:1''))"
  "Repeat demo_net (xe_repeat demo_exec) ''http://b:2'' (in_workload demo_input) 20 = Inr (replicate 20 (demo_run ''http://b:2''))"
  "Burst demo_net (xe_burst demo_exec) ''http://a:1'' (in_workload demo_input) 8 = Inr (replicate 8 (demo_run ''http://a:1''))"
  "Burst demo_net (xe_burst demo_exec) ''http://b:2'' (in_workload demo_input) 8 = Inr (replicate 8 (demo_run ''http://b:2''))"
  by (simp_all add: Repeat_def Burst_def clipRepeats_def maxRepeats_def repeatLoop_const demo_Run demo_targets)
    (simp_all add: demo_input_def)

lemma demo_probe: "probeEnv demo_exec demo_plan ''http://a:1'' ''http://b:2'' = None"
  by code_simp
lemma demo_tests: "hasKind demo_plan ''tests'' \<and> runTests demo_exec demo_plan = mk_result ''tests'' ''tests'' ''prepared'' [''go test'']"
  by code_simp

lemma demo_fault:
  "fold (\<lambda>s m. if ps_kind s = ''fault_status'' \<and> \<not> ps_operator s
      then m(ps_id s \<mapsto> probeFault demo_exec s ''http://a:1'' ''http://b:2'' (in_workload demo_input)) else m) (dg_steps demo_plan) Map.empty
   = [''fault_status'' \<mapsto> mk_result ''fault_status'' ''fault_status'' ''prepared'' [''one-sided 502'']]"
proof -
  have p: "probeFault demo_exec (dg_steps demo_plan ! 4) ''http://a:1'' ''http://b:2'' (in_workload demo_input) =
     mk_result ''fault_status'' ''fault_status'' ''prepared'' [''one-sided 502'']" by code_simp
  have k: "map ps_kind (dg_steps demo_plan) = [''env'', ''behavior'', ''latency'', ''concurrency'', ''fault_status'', ''tests'']"
    "ps_id (dg_steps demo_plan ! 4) = ''fault_status''" "\<not> ps_operator (dg_steps demo_plan ! 4)" by code_simp+
  obtain a b c d e f where s: "dg_steps demo_plan = [a, b, c, d, e, f]"
    using k(1) by (auto simp: map_eq_Cons_conv)
  show ?thesis using p k by (simp add: s)
qed

definition demo_data :: exec_data where
  "demo_data = \<lparr>xd_env_err = None, xd_base = replicate 20 (demo_run ''http://a:1''), xd_patch = replicate 20 (demo_run ''http://b:2''),
     xd_base_burst = replicate 8 (demo_run ''http://a:1''), xd_patch_burst = replicate 8 (demo_run ''http://b:2''),
     xd_tests = mk_result ''tests'' ''tests'' ''prepared'' [''go test''],
     xd_fault = [''fault_status'' \<mapsto> mk_result ''fault_status'' ''fault_status'' ''prepared'' [''one-sided 502'']]\<rparr>"

lemma demo_kinds:
  "map ps_kind (dg_steps demo_plan) = [''env'', ''behavior'', ''latency'', ''concurrency'', ''fault_status'', ''tests'']"
  "map ps_id (dg_steps demo_plan) = [''env'', ''behavior'', ''latency'', ''concurrency'', ''fault_status'', ''tests'']"
  "map ps_operator (dg_steps demo_plan) = [False, False, False, False, False, False]"
  by code_simp+

lemma demo_behavior: "Compare (xe_dec demo_exec) (demo_run s) (demo_run t) = \<lparr>cr_verdict = ''match'', cr_steps =
  [\<lparr>de_method = ''GET'', de_path = ''/cart'', de_status = ''match'', de_baseline_status = 200,
           de_patch_status = 200, de_notes = []\<rparr>]\<rparr>"
  by code_simp

lemma demo_burst: "compareBurst (replicate 8 (demo_run s)) (replicate 8 (demo_run t)) =
   mk_result ''concurrency'' ''concurrency'' ''match'' [''baseline_errors=0/8 patch_errors=0/8'']"
  by code_simp

lemma demo_steps: "map (evalStep demo_exec demo_data) (dg_steps demo_plan) = ev_steps demo_evidence"
proof -
  let ?l = "\<lparr>sl_method = ''GET'', sl_path = ''/cart'', sl_baseline = demo_stats, sl_patch = demo_stats\<rparr>"
  have l: "hasSamples [?l]" "\<not> Shifted ?l" by code_simp+
  have r: "replicate 20 r = r # replicate 19 r" for r :: result by (simp add: numeral_eq_Suc)
  obtain a b c d e f where s: "dg_steps demo_plan = [a, b, c, d, e, f]"
    using demo_kinds(1) by (auto simp: map_eq_Cons_conv)
  have cf: "compareFirst (xe_dec demo_exec) (replicate 20 (demo_run s)) (replicate 20 (demo_run t)) =
      Compare (xe_dec demo_exec) (demo_run s) (demo_run t)" for s t unfolding r by (simp add: compareFirst_def)
  show ?thesis
    using demo_kinds
    by (simp add: s evalStep_def demo_data_def demo_latency l cf demo_behavior demo_burst demo_evidence_def mk_result_def)
qed

lemma demo_executed: "Execute demo_exec demo_plan ''http://a:1'' ''http://b:2'' (in_workload demo_input) = Inr demo_evidence"
proof -
  have "in_workload demo_input \<noteq> []" "xe_net demo_exec = demo_net" by code_simp (simp add: demo_exec_def)
  moreover have "Overall (ev_steps demo_evidence) = ev_overall demo_evidence" "ev_notes demo_evidence = dg_notes demo_plan" by code_simp+
  ultimately show ?thesis using demo_steps
    by (simp add: Execute_def demo_plan_needs demo_targets demo_probe both_def demo_replays demo_tests demo_fault demo_data_def)
qed

lemma demo_validated: "dn_validated (Decide demo_net (demo_input\<lparr>in_plan := demo_plan, in_result := demo_evidence\<rparr>))"
  by code_simp

end
