(* ===== verification/Cache_Laws.thy ===== *)
theory Cache_Laws
  imports Action_Cache Paths Validated_Runs "HOL-Library.Countable"
begin

text \<open>
  What the cache of step results guarantees: a worker that executes leases one after the other, with a cache that
  starts empty, reports only results that some execution with the same cache key produced. The file system enters
  through the laws \<open>fs_laws\<close>, SHA-256 through the absence of collisions on the texts that are hashed.
\<close>

section \<open>The files of a cache\<close>

lemma digestValid_plain:
  assumes "digestValid d" shows "plain_seg d" and "length (take 2 d) = 2" and "plain_seg (take 2 d)"
proof -
  have h: "\<forall>c\<in>set d. is_hex c" and l: "length d = 64" using assms by (simp_all add: digestValid_def list_all_iff)
  have n: "CHR ''/'' \<notin> set d" "CHR ''.'' \<notin> set d"
    using h by (auto simp: is_hex_def is_digit_def)
  show "plain_seg d" using n(1) l by (auto simp: plain_seg_def)
  show "length (take 2 d) = 2" using l by simp
  have "CHR ''/'' \<notin> set (take 2 d)" "CHR ''.'' \<notin> set (take 2 d)" using n by (auto dest: in_set_takeD)
  then show "plain_seg (take 2 d)" using l by (auto simp: plain_seg_def)
qed

lemma casPath_last:
  assumes "digestValid i"
  shows "\<exists>xs. split_on CHR ''/'' (casPath root i) = xs @ [take 2 i, i]"
proof -
  note d = digestValid_plain [OF assms]
  have "split_on CHR ''/'' (root @ ''/objects/'' @ take 2 i @ ''/'' @ i) = (split_on CHR ''/'' root @ [''objects'']) @ [take 2 i, i]"
    using d split_on_append [of "CHR ''/''" root "''objects/'' @ take 2 i @ ''/'' @ i"]
      split_on_append [of "CHR ''/''" "''objects''" "take 2 i @ ''/'' @ i"] split_on_append [of "CHR ''/''" "take 2 i" i]
    by (simp add: split_on_no_sep plain_seg_def)
  from path_clean_last [OF this] show ?thesis using d by (auto simp: casPath_def)
qed

lemma cacheFile_last:
  assumes "ca_idx c = path_clean (root @ ''/cache'')" and "digestValid (actionDigest C k)"
  shows "\<exists>xs. split_on CHR ''/'' (cacheFile C c k) = xs @ [''cache'', actionDigest C k]"
proof -
  note d = digestValid_plain [OF assms(2)]
  have "split_on CHR ''/'' (root @ ''/cache'') = split_on CHR ''/'' root @ [''cache'']"
    using split_on_append [of "CHR ''/''" root "''cache''"] by simp
  from path_clean_last [OF this] obtain ys where "split_on CHR ''/'' (ca_idx c) = ys @ [''cache'']"
    using assms(1) by (auto simp: plain_seg_def)
  then have "split_on CHR ''/'' (ca_idx c @ ''/'' @ actionDigest C k) = ys @ [''cache'', actionDigest C k]"
    using split_on_append [of "CHR ''/''" "ca_idx c" "actionDigest C k"] d by (simp add: split_on_no_sep plain_seg_def)
  from path_clean_last [OF this] show ?thesis using d by (auto simp: cacheFile_def plain_seg_def)
qed

section \<open>The file system\<close>

text \<open>A temporary file is one whose name starts with a dot, as both patterns do.\<close>

definition temp_name :: "string \<Rightarrow> bool" where
  "temp_name p = prefix ''.'' (last (split_on CHR ''/'' p))"

text \<open>
  The documented effect of the calls, with \<open>files\<close> the contents a world holds: reading returns contents; making
  directories and closing keep them; a temporary file gets a name of its pattern; writing, removing and renaming change
  the named files only, a completed write leaves the data, and a rename leaves at its target the old contents or those
  of its source.
\<close>

definition fs_laws :: "'w file_os \<Rightarrow> ('w \<Rightarrow> string \<rightharpoonup> string) \<Rightarrow> bool" where
  "fs_laws os files \<longleftrightarrow>
     (\<forall>w p s. fo_read os w p = FileBytes s \<longrightarrow> files w p = Some s) \<and>
     (\<forall>d w. files (snd (fo_mkdir_all os d w)) = files w) \<and>
     (\<forall>d s w p. \<not> temp_name p \<longrightarrow> files (snd (fo_create_temp os d (CHR ''.'' # s) w)) p = files w p) \<and>
     (\<forall>d s w n. fst (fo_create_temp os d (CHR ''.'' # s) w) = Some n \<longrightarrow> temp_name n) \<and>
     (\<forall>n s w p. p \<noteq> n \<longrightarrow> files (snd (fo_write os n s w)) p = files w p) \<and>
     (\<forall>n s w. fst (fo_write os n s w) \<longrightarrow> files (snd (fo_write os n s w)) n = Some s) \<and>
     (\<forall>n w. files (snd (fo_close os n w)) = files w) \<and>
     (\<forall>n w p. p \<noteq> n \<longrightarrow> files (fo_remove os n w) p = files w p) \<and>
     (\<forall>n d w p. p \<noteq> n \<longrightarrow> p \<noteq> d \<longrightarrow> files (snd (fo_rename os n d w)) p = files w p) \<and>
     (\<forall>n d w. files (snd (fo_rename os n d w)) d = files w d \<or> files (snd (fo_rename os n d w)) d = files w n)"

lemma fs_read: "fs_laws os files \<Longrightarrow> fo_read os w p = FileBytes s \<Longrightarrow> files w p = Some s"
  by (simp add: fs_laws_def)

lemma writeTemp_laws:
  assumes fs: "fs_laws os files" and r: "writeTemp os dir (CHR ''.'' # pat) data w = (tmp, w')"
  shows "\<And>p. \<not> temp_name p \<Longrightarrow> files w' p = files w p"
    and "\<And>n. tmp = Some n \<Longrightarrow> temp_name n \<and> files w' n = Some data"
proof -
  obtain t w1 where c: "fo_create_temp os dir (CHR ''.'' # pat) w = (t, w1)" by force
  have c1: "\<And>p. \<not> temp_name p \<Longrightarrow> files w1 p = files w p" and c2: "\<And>n. t = Some n \<Longrightarrow> temp_name n"
    using fs c unfolding fs_laws_def by (metis snd_conv, metis fst_conv)
  have "(\<forall>p. \<not> temp_name p \<longrightarrow> files w' p = files w p) \<and> (\<forall>n. tmp = Some n \<longrightarrow> temp_name n \<and> files w' n = Some data)"
  proof (cases t)
    case None
    then show ?thesis using r c c1 by (auto simp: writeTemp_def)
  next
    case (Some n)
    obtain ok w2 where wr: "fo_write os n data w1 = (ok, w2)" by force
    obtain ok3 w3 where cl: "fo_close os n w2 = (ok3, w3)" by force
    have t: "temp_name n" using c2 Some by simp
    have w2: "\<And>p. p \<noteq> n \<Longrightarrow> files w2 p = files w1 p" and w2n: "ok \<Longrightarrow> files w2 n = Some data"
      using fs wr unfolding fs_laws_def by (metis snd_conv, metis fst_conv snd_conv)
    have w3: "files w3 = files w2" using fs cl unfolding fs_laws_def by (metis snd_conv)
    have rm: "\<And>p. p \<noteq> n \<Longrightarrow> files (fo_remove os n w3) p = files w3 p" using fs unfolding fs_laws_def by blast
    have "(tmp, w') = (if ok \<and> ok3 then (Some n, w3) else (None, fo_remove os n w3))"
      using r c Some wr cl by (auto simp: writeTemp_def split: bool.splits)
    then show ?thesis using t w2 w2n w3 rm c1 by (auto split: if_splits) (metis)+
  qed
  then show "\<And>p. \<not> temp_name p \<Longrightarrow> files w' p = files w p" and "\<And>n. tmp = Some n \<Longrightarrow> temp_name n \<and> files w' n = Some data"
    by blast+
qed

lemma casPut_frame:
  assumes fs: "fs_laws os files" and p: "\<not> temp_name p" "p \<noteq> casPath root (sha data)"
  shows "files (snd (casPut sha os root data w)) p = files w p"
proof -
  let ?dest = "casPath root (sha data)" and ?dir = "casDir root (sha data)"
  obtain ok1 w1 where mk: "fo_mkdir_all os ?dir w = (ok1, w1)" by force
  have w1: "files w1 = files w" using fs mk unfolding fs_laws_def by (metis snd_conv)
  obtain t w2 where wt: "writeTemp os ?dir ''.put-*'' data w1 = (t, w2)" by force
  have w2: "files w2 p = files w1 p" using writeTemp_laws(1) [OF fs, of ?dir "''put-*''"] wt p(1) by auto
  show ?thesis
  proof (cases t)
    case None
    then show ?thesis using mk wt w1 w2 by (auto simp: casPut_def Let_def split: file_read.splits bool.splits)
  next
    case (Some n)
    have n: "p \<noteq> n" using writeTemp_laws(2) [OF fs, of ?dir "''put-*''"] wt Some p(1) by auto
    obtain ok3 w3 where rn: "fo_rename os n ?dest w2 = (ok3, w3)" by force
    have w3: "files w3 p = files w2 p" using fs rn n p(2) unfolding fs_laws_def by (metis snd_conv)
    have w4: "files (fo_remove os n w3) p = files w3 p" using fs n unfolding fs_laws_def by blast
    show ?thesis using mk wt rn Some w1 w2 w3 w4 by (auto simp: casPut_def Let_def split: file_read.splits bool.splits)
  qed
qed

section \<open>The index\<close>

text \<open>What a cache opened at \<open>root\<close> relies on: hexadecimal digests, and an index beside the objects.\<close>

definition cache_at :: "cache_env \<Rightarrow> cache \<Rightarrow> string \<Rightarrow> bool" where
  "cache_at C c root \<longleftrightarrow> (\<forall>x. digestValid (ce_sha256 C x)) \<and> ca_idx c = path_clean (root @ ''/cache'')"

lemma cache_file_apart:
  assumes "cache_at C c root"
  shows "\<not> temp_name (cacheFile C c k)" and "cacheFile C c k \<noteq> casPath r (ce_sha256 C x)"
    and "cacheFile C c k = cacheFile C c k' \<Longrightarrow> actionDigest C k = actionDigest C k'"
proof -
  have v: "digestValid (ce_sha256 C y)" for y using assms by (simp add: cache_at_def)
  then have va: "digestValid (actionDigest C k)" for k by (simp add: actionDigest_def)
  have last: "\<exists>xs. split_on CHR ''/'' (cacheFile C c k) = xs @ [''cache'', actionDigest C k]" for k
    using cacheFile_last [OF _ va] assms by (simp add: cache_at_def)
  have nodot: "\<not> prefix ''.'' d" if "digestValid d" for d
    using that by (cases d) (auto simp: digestValid_def is_hex_def is_digit_def)
  show "\<not> temp_name (cacheFile C c k)"
    using last [of k] nodot [OF va [of k]] unfolding temp_name_def by (metis last.simps last_append list.distinct(1))
  show "cacheFile C c k \<noteq> casPath r (ce_sha256 C x)"
  proof
    let ?i = "ce_sha256 C x"
    assume eq: "cacheFile C c k = casPath r ?i"
    obtain xs ys where "xs @ [''cache'', actionDigest C k] = ys @ [take 2 ?i, ?i]"
      using last [of k] casPath_last [OF v, of r x] eq by metis
    then have "(xs @ [''cache'']) @ [actionDigest C k] = (ys @ [take 2 ?i]) @ [?i]" by simp
    then have "xs @ [''cache''] = ys @ [take 2 ?i]" by blast
    then have "take 2 ?i = ''cache''" by (simp only: append1_eq_conv)
    moreover have "length (take 2 ?i) = 2" by (rule digestValid_plain(2) [OF v])
    ultimately show False by simp
  qed
  assume "cacheFile C c k = cacheFile C c k'"
  then show "actionDigest C k = actionDigest C k'" using last [of k] last [of k'] by (metis last_appendR last_ConsL last_ConsR list.distinct(1))
qed

text \<open>Every entry of the index names a result of the history \<open>H\<close> recorded under a key with the same index file.\<close>

definition index_ok :: "cache_env \<Rightarrow> cache \<Rightarrow> ('w \<Rightarrow> string \<rightharpoonup> string) \<Rightarrow> (action_key \<times> step_result) set \<Rightarrow> 'w \<Rightarrow> bool" where
  "index_ok C c files H w \<longleftrightarrow>
     (\<forall>k raw. files w (cacheFile C c k) = Some raw \<longrightarrow>
        (\<exists>k' res body. (k', res) \<in> H \<and> actionDigest C k' = actionDigest C k \<and> ce_marshal C res = Some body \<and> raw = ce_sha256 C body))"

lemma index_ok_mono: "index_ok C c files H w \<Longrightarrow> H \<subseteq> H' \<Longrightarrow> index_ok C c files H' w"
  unfolding index_ok_def by (meson subsetD)

lemma index_ok_same:
  assumes "index_ok C c files H w" and "\<And>k. files w' (cacheFile C c k) = files w (cacheFile C c k)"
  shows "index_ok C c files H w'"
  using assms unfolding index_ok_def by simp

lemma cachePut_index_ok:
  assumes fs: "fs_laws os files" and at: "cache_at C c root" and ok: "index_ok C c files H w" and H: "(k, res) \<in> H"
  shows "index_ok C c files H (snd (cachePut C os c k res w))"
proof (cases "\<not> Cacheable (ak_kind k) \<or> sr_verdict res = [] \<or> sr_verdict res = ''incomplete'' \<or> badVerdict (sr_verdict res) \<or> ce_marshal C res = None")
  case True
  then show ?thesis using ok by (auto simp: cachePut_def)
next
  case False
  then obtain body where body: "ce_marshal C res = Some body" by auto
  let ?sha = "ce_sha256 C"
  obtain r w1 where put: "casPut ?sha os (ca_root c) body w = (r, w1)" by force
  have "files w1 (cacheFile C c k') = files w (cacheFile C c k')" for k'
    using casPut_frame [OF fs cache_file_apart(1) [OF at], where sha = ?sha and data = body and root = "ca_root c" and w = w]
      cache_file_apart(2) [OF at] put by simp
  from index_ok_same [OF ok this] have ok1: "index_ok C c files H w1" .
  show ?thesis
  proof (cases r)
    case (Inl e)
    then show ?thesis using False body put ok1 by (simp add: cachePut_def)
  next
    case (Inr i)
    have i: "i = ?sha body" using put Inr by (auto simp: casPut_def Let_def split: if_splits file_read.splits prod.splits option.splits bool.splits)
    obtain t w2 where wt: "writeTemp os (ca_idx c) ''.idx-*'' i w1 = (t, w2)" by force
    note laws = writeTemp_laws [OF fs, of "ca_idx c" "''idx-*''" i w1 t w2, simplified, OF wt]
    have ok2: "index_ok C c files H w2" using index_ok_same [OF ok1] laws(1) cache_file_apart(1) [OF at] by metis
    show ?thesis
    proof (cases t)
      case None
      then show ?thesis using False body put Inr wt ok2 by (simp add: cachePut_def)
    next
      case (Some n)
      obtain b w3 where rn: "fo_rename os n (cacheFile C c k) w2 = (b, w3)" by force
      have n: "temp_name n" "files w2 n = Some i" using laws(2) Some by auto
      have other: "files w3 p = files w2 p" if "p \<noteq> n" "p \<noteq> cacheFile C c k" for p
        using fs rn that unfolding fs_laws_def by (metis snd_conv)
      have here: "files w3 (cacheFile C c k) = files w2 (cacheFile C c k) \<or> files w3 (cacheFile C c k) = Some i"
        using fs rn n(2) unfolding fs_laws_def by (metis snd_conv)
      have "index_ok C c files H w3"
        unfolding index_ok_def
      proof (intro allI impI)
        fix k' raw
        assume raw: "files w3 (cacheFile C c k') = Some raw"
        have nn: "cacheFile C c k' \<noteq> n" using n(1) cache_file_apart(1) [OF at] by metis
        show "\<exists>k'' res body. (k'', res) \<in> H \<and> actionDigest C k'' = actionDigest C k' \<and> ce_marshal C res = Some body \<and> raw = ?sha body"
        proof (cases "cacheFile C c k' = cacheFile C c k \<and> files w3 (cacheFile C c k) = Some i")
          case True
          then have "raw = ?sha body" "actionDigest C k = actionDigest C k'" using raw i cache_file_apart(3) [OF at, of k k'] by auto
          then show ?thesis using H body by blast
        next
          case False
          then have "files w2 (cacheFile C c k') = Some raw" using other [OF nn] here raw by (cases "cacheFile C c k' = cacheFile C c k") auto
          then show ?thesis using ok2 unfolding index_ok_def by blast
        qed
      qed
      moreover have "snd (cachePut C os c k res w) = w3"
        using False body put Inr wt Some rn by (cases b) (simp_all add: cachePut_def)
      ultimately show ?thesis by simp
    qed
  qed
qed

section \<open>Executions\<close>

text \<open>A worker executing leases in turn, each in its own environment of targets.\<close>

primrec executions :: "cache_env \<Rightarrow> 'w file_os \<Rightarrow> cache option \<Rightarrow> (exec_env \<times> lease) list \<Rightarrow> 'w \<Rightarrow> (error + step_result) list" where
  "executions C os c [] w = []"
| "executions C os c (e # es) w =
     (let (r, w') = ExecuteWith (fst e) C os c (snd e) w in r # executions C os c es w')"

text \<open>The results that the executions themselves produce, with their keys, and the texts that are hashed for them.\<close>

definition produced :: "cache_env \<Rightarrow> (exec_env \<times> lease) list \<Rightarrow> (action_key \<times> step_result) set" where
  "produced C es = {(FromLease C l, res) | X l res. (X, l) \<in> set es \<and> executeFresh X l = Inr res}"

definition bodies :: "cache_env \<Rightarrow> (action_key \<times> step_result) set \<Rightarrow> string set" where
  "bodies C H = {body | k res body. (k, res) \<in> H \<and> ce_marshal C res = Some body}"

definition hashed :: "cache_env \<Rightarrow> (exec_env \<times> lease) list \<Rightarrow> string set" where
  "hashed C es = {ce_marshal_key C (FromLease C l) | X l. (X, l) \<in> set es} \<union> bodies C (produced C es)"

definition unique_hash :: "(string \<Rightarrow> string) \<Rightarrow> string set \<Rightarrow> bool" where
  "unique_hash sha S \<longleftrightarrow> (\<forall>x\<in>S. \<forall>y. sha y = sha x \<longrightarrow> y = x)"

lemma unique_hash_mono: "unique_hash sha T \<Longrightarrow> S \<subseteq> T \<Longrightarrow> unique_hash sha S"
  unfolding unique_hash_def by (meson subsetD)

lemma cacheGet_hit:
  assumes fs: "fs_laws os files" and at: "cache_at C c root" and ok: "index_ok C c files H w"
    and json: "\<And>r b. ce_marshal C r = Some b \<Longrightarrow> ce_unmarshal C b = Some r"
    and uniq: "unique_hash (ce_sha256 C) (bodies C H)"
    and hit: "cacheGet C os c k w = Inr (Some res)"
  shows "\<exists>k'. (k', res) \<in> H \<and> actionDigest C k' = actionDigest C k"
proof -
  let ?sha = "ce_sha256 C"
  obtain raw where raw: "fo_read os w (cacheFile C c k) = FileBytes raw"
    using hit by (auto simp: cacheGet_def split: if_splits file_read.splits)
  from fs_read [OF fs this] have "files w (cacheFile C c k) = Some raw" .
  then obtain k' res0 body where h: "(k', res0) \<in> H" "actionDigest C k' = actionDigest C k" "ce_marshal C res0 = Some body" "raw = ?sha body"
    using ok unfolding index_ok_def by blast
  have "list_all is_hex raw" using at h(4) by (simp add: cache_at_def digestValid_def)
  then have t: "trim_space raw = raw" by (rule trim_space_hex)
  obtain body' where g: "casGet ?sha os (ca_root c) raw w = Inr body'" and u: "ce_unmarshal C body' = Some res"
    using hit raw t by (auto simp: cacheGet_def split: if_splits sum.splits option.splits)
  have "?sha body' = raw" using g by (auto simp: casGet_def split: if_splits file_read.splits)
  moreover have "body \<in> bodies C H" using h(1,3) unfolding bodies_def by blast
  ultimately have "body' = body" using uniq h(4) unfolding unique_hash_def by metis
  then have "res = res0" using u json [OF h(3)] by simp
  then show ?thesis using h(1,2) by blast
qed

lemma ExecuteWith_step:
  assumes fs: "fs_laws os files" and at: "cache_at C c root" and ok: "index_ok C c files H w"
    and json: "\<And>r b. ce_marshal C r = Some b \<Longrightarrow> ce_unmarshal C b = Some r"
    and uniq: "unique_hash (ce_sha256 C) (bodies C H)"
    and r: "ExecuteWith X C os (Some c) l w = (r, w')"
  defines "H' \<equiv> H \<union> produced C [(X, l)]"
  shows "index_ok C c files H' w'" and "r = Inr res \<Longrightarrow> \<exists>k'. (k', res) \<in> H' \<and> actionDigest C k' = actionDigest C (FromLease C l)"
proof -
  let ?k = "FromLease C l"
  have ok': "index_ok C c files H' w" using index_ok_mono [OF ok] H'_def by blast
  have new: "(?k, out) \<in> H'" if "executeFresh X l = Inr out" for out using that by (auto simp: H'_def produced_def)
  consider (same) "w' = w" | (put) out where "executeFresh X l = Inr out" "w' = snd (cachePut C os c ?k out w)"
    using r by (auto simp: ExecuteWith_def Let_def split: if_splits sum.splits option.splits prod.splits)
  then show "index_ok C c files H' w'"
  proof cases
    case same
    then show ?thesis using ok' by simp
  next
    case put
    then show ?thesis using cachePut_index_ok [OF fs at ok' new [OF put(1)]] by simp
  qed
  assume "r = Inr res"
  then consider (fresh) "executeFresh X l = Inr res" | (hit) "cacheGet C os c ?k w = Inr (Some res)"
    using r by (auto simp: ExecuteWith_def Let_def split: if_splits sum.splits option.splits prod.splits)
  then show "\<exists>k'. (k', res) \<in> H' \<and> actionDigest C k' = actionDigest C ?k"
  proof cases
    case fresh
    then show ?thesis using new by blast
  next
    case hit
    from cacheGet_hit [OF fs at ok json uniq hit] show ?thesis unfolding H'_def by blast
  qed
qed

lemma produced_Cons: "produced C (e # es) = produced C [e] \<union> produced C es"
  unfolding produced_def by auto

lemma executions_produced:
  assumes fs: "fs_laws os files" and at: "cache_at C c root"
    and json: "\<And>r b. ce_marshal C r = Some b \<Longrightarrow> ce_unmarshal C b = Some r"
  shows "index_ok C c files H w \<Longrightarrow>
    unique_hash (ce_sha256 C) (bodies C (H \<union> produced C es)) \<Longrightarrow>
    i < length es \<Longrightarrow> executions C os (Some c) es w ! i = Inr res \<Longrightarrow>
    \<exists>k'. (k', res) \<in> H \<union> produced C (take (Suc i) es) \<and> actionDigest C k' = actionDigest C (FromLease C (snd (es ! i)))"
proof (induction es arbitrary: H w i)
  case (Cons e es)
  obtain X l where e: "e = (X, l)" by force
  obtain r w' where r: "ExecuteWith X C os (Some c) l w = (r, w')" by force
  have uniq: "unique_hash (ce_sha256 C) (bodies C H)"
    using Cons.prems(2) unfolding unique_hash_def bodies_def by blast
  note step = ExecuteWith_step [OF fs at Cons.prems(1) json uniq r]
  show ?case
  proof (cases i)
    case 0
    then show ?thesis using step(2) [of res] Cons.prems(4) r e by simp
  next
    case (Suc j)
    have "\<exists>k'. (k', res) \<in> (H \<union> produced C [(X, l)]) \<union> produced C (take (Suc j) es) \<and>
        actionDigest C k' = actionDigest C (FromLease C (snd (es ! j)))"
    proof (rule Cons.IH [OF step(1)])
      have "H \<union> produced C [(X, l)] \<union> produced C es = H \<union> produced C (e # es)" using produced_Cons [of C e es] e by auto
      then show "unique_hash (ce_sha256 C) (bodies C (H \<union> produced C [(X, l)] \<union> produced C es))" using Cons.prems(2) by simp
      show "j < length es" using Cons.prems(3) Suc by simp
      show "executions C os (Some c) es w' ! j = Inr res" using Cons.prems(4) Suc r e by simp
    qed
    then show ?thesis using Suc e produced_Cons [of C "(X, l)" "take (Suc j) es"] by (auto simp: Un_assoc)
  qed
qed simp

text \<open>What equal keys mean: the same step over the same workload, in the same job or between the same built trees.\<close>

definition built_from :: "lease \<Rightarrow> string \<Rightarrow> string \<Rightarrow> bool" where
  "built_from l b p \<longleftrightarrow>
     rev_source (jb_baseline_rev (le_job l)) = ''built'' \<and> rev_tree (jb_baseline_rev (le_job l)) = b \<and>
     rev_source (jb_patch_rev (le_job l)) = ''built'' \<and> rev_tree (jb_patch_rev (le_job l)) = p"

definition same_action :: "cache_env \<Rightarrow> lease \<Rightarrow> lease \<Rightarrow> bool" where
  "same_action C l l' \<longleftrightarrow>
     tk_kind (le_task l) = tk_kind (le_task l') \<and> max 1 (le_n l) = max 1 (le_n l') \<and>
     ce_marshal_workload C (jb_workload (le_job l)) = ce_marshal_workload C (jb_workload (le_job l')) \<and>
     dg_health_path (jb_plan (le_job l)) = dg_health_path (jb_plan (le_job l')) \<and>
     (jb_id (le_job l) = jb_id (le_job l') \<or> (\<exists>b p. b \<noteq> [] \<and> p \<noteq> [] \<and> built_from l b p \<and> built_from l' b p))"

lemma FromLease_same:
  assumes "FromLease C l = FromLease C l'"
  shows "same_action C l l'"
proof -
  have "ak_kind (FromLease C l) = ak_kind (FromLease C l')" "ak_n (FromLease C l) = ak_n (FromLease C l')"
    "ak_workload (FromLease C l) = ak_workload (FromLease C l')" "ak_health_path (FromLease C l) = ak_health_path (FromLease C l')"
    "ak_scope (FromLease C l) = ak_scope (FromLease C l')" "ak_baseline_tree (FromLease C l) = ak_baseline_tree (FromLease C l')"
    "ak_patch_tree (FromLease C l) = ak_patch_tree (FromLease C l')" using assms by simp_all
  then show ?thesis unfolding same_action_def built_from_def
    by (auto simp: FromLease_def Let_def max_def split: if_splits)
qed

text \<open>
  C21: The cache never mixes experiments: when a worker executes leases in turn with a cache that was opened empty, every
  result it reports, from the cache or not, was produced by one of the executions so far of the same kind of step, with
  the same number of repetitions, workload and health path, in the same job or between the same pair of built trees. The
  file system behaves as documented, JSON decodes what it encoded, and SHA-256 has no collision with a hashed text.
\<close>

theorem cached_results_earned:
  assumes "fs_laws os files" and "fst (actionOpen os root w0) = Inr c" and "\<forall>x. digestValid (ce_sha256 C x)"
    and "unique_hash (ce_sha256 C) (hashed C es)" and "inj (ce_marshal_key C)"
    and "\<forall>r b. ce_marshal C r = Some b \<longrightarrow> ce_unmarshal C b = Some r"
    and "\<forall>k. files w (cacheFile C c k) = None"
    and "i < length es" and "executions C os (Some c) es w ! i = Inr res"
  shows "\<exists>j\<le>i. executeFresh (fst (es ! j)) (snd (es ! j)) = Inr res \<and> same_action C (snd (es ! j)) (snd (es ! i))"
proof -
  have at: "cache_at C c root"
    using assms(2,3) by (auto simp: cache_at_def actionOpen_def Let_def split: prod.splits sum.splits bool.splits)
  have uniq: "unique_hash (ce_sha256 C) (bodies C ({} \<union> produced C es))"
    using unique_hash_mono [OF assms(4)] by (simp add: hashed_def)
  have json: "\<And>r b. ce_marshal C r = Some b \<Longrightarrow> ce_unmarshal C b = Some r" using assms(6) by blast
  have "index_ok C c files {} w" using assms(7) by (simp add: index_ok_def)
  from executions_produced [OF assms(1) at json this uniq assms(8,9)]
  obtain k' where k': "(k', res) \<in> produced C (take (Suc i) es)" "actionDigest C k' = actionDigest C (FromLease C (snd (es ! i)))"
    by blast
  then obtain X l where e: "(X, l) \<in> set (take (Suc i) es)" "k' = FromLease C l" "executeFresh X l = Inr res"
    unfolding produced_def by blast
  obtain j where j: "j < length (take (Suc i) es)" "take (Suc i) es ! j = (X, l)" using e(1) by (meson in_set_conv_nth)
  then have ji: "j \<le> i" "es ! j = (X, l)" by auto
  have "(X, l) \<in> set es" using e(1) by (rule in_set_takeD)
  then have "ce_marshal_key C (FromLease C l) \<in> hashed C es" unfolding hashed_def by blast
  then have "ce_marshal_key C (FromLease C (snd (es ! i))) = ce_marshal_key C (FromLease C l)"
    using assms(4) k'(2) e(2) unfolding unique_hash_def actionDigest_def by metis
  then have "FromLease C l = FromLease C (snd (es ! i))" using assms(5) by (simp add: inj_eq)
  then show ?thesis using FromLease_same ji e(3) by (metis fst_conv snd_conv)
qed

text \<open>A leased tests task has no package to test, whatever its job planned.\<close>

lemma leased_tests_incomplete:
  assumes kind: "tk_kind (le_task l) = ''tests''" and res: "executeFresh X l = Inr res"
  shows "sr_verdict res = ''incomplete''"
proof -
  obtain ev where ev: "Execute X (leaseDag l) (jb_baseline (le_job l)) (jb_patch (le_job l)) (replayWorkload (jb_workload (le_job l))) = Inr ev"
    using res by (auto simp: executeFresh_def split: sum.splits)
  have out: "ev_steps ev = res # tl (ev_steps ev)"
    using res ev by (auto simp: executeFresh_def split: list.splits if_splits)
  obtain data where g: "gathered X (leaseDag l) (jb_baseline (le_job l)) (jb_patch (le_job l)) (replayWorkload (jb_workload (le_job l))) data"
    and steps: "ev_steps ev = map (evalStep X data) (dg_steps (leaseDag l))"
    by (rule Execute_Inr [OF ev])
  have tests: "xd_tests data = (if hasKind (leaseDag l) ''tests'' then runTests X (leaseDag l) else mk_result [] [] [] [])"
    using g by (simp add: gathered_def)
  have "hasKind (leaseDag l) ''tests''" using kind by (simp add: hasKind_def leaseDag_def)
  moreover have "sr_verdict (runTests X (leaseDag l)) = ''incomplete''" by (simp add: runTests_def leaseDag_def mk_result_def)
  moreover have "res = evalStep X data (hd (dg_steps (leaseDag l)))" using out steps by (simp add: leaseDag_def)
  ultimately show ?thesis using kind tests by (simp add: evalStep_def Let_def leaseDag_def)
qed

section \<open>A worker with a cache\<close>

text \<open>A file system held in a map, on which every call succeeds.\<close>

definition map_os :: "(string \<rightharpoonup> string) file_os" where
  "map_os = \<lparr>fo_stat = (\<lambda>w p. w p \<noteq> None),
     fo_read = (\<lambda>w p. case w p of None \<Rightarrow> FileMissing | Some s \<Rightarrow> FileBytes s),
     fo_mkdir_all = (\<lambda>d w. (True, w)),
     fo_create_temp = (\<lambda>d pat w. if CHR ''/'' \<in> set pat then (None, w) else (Some (d @ ''/'' @ pat), w(d @ ''/'' @ pat \<mapsto> []))),
     fo_write = (\<lambda>n s w. (True, w(n \<mapsto> s))), fo_close = (\<lambda>n w. (True, w)), fo_remove = (\<lambda>n w. w(n := None)),
     fo_rename = (\<lambda>n d w. (True, (w(n := None))(d := w n)))\<rparr>"

lemma map_os_laws: "fs_laws map_os (\<lambda>w. w)"
proof -
  have "temp_name (d @ ''/'' @ CHR ''.'' # s)" if "CHR ''/'' \<notin> set s" for d s
    using split_on_append [of "CHR ''/''" d "CHR ''.'' # s"] that by (simp add: temp_name_def split_on_no_sep)
  then show ?thesis by (auto simp: fs_laws_def map_os_def split: option.splits)
qed

definition demo_rev :: "string \<Rightarrow> revision" where
  "demo_rev t = \<lparr>rev_commit = t, rev_tree = t, rev_path = ''.'', rev_dirty = False, rev_source = ''built''\<rparr>"

text \<open>A leased behavior step of a job; \<open>i\<close> is the id of the job.\<close>

definition demo_lease :: "string \<Rightarrow> lease" where
  "demo_lease i =
     \<lparr>le_job = \<lparr>jb_baseline_rev = demo_rev ''a1'', jb_patch_rev = demo_rev ''b2'', jb_impact_source = [], jb_id = i, jb_created = 0,
        jb_status = StatusRunning, jb_service = [], jb_baseline = ''http://a:1'', jb_patch = ''http://b:2'', jb_baseline_sha = [],
        jb_dirty = False, jb_deadline = 0, jb_canceled = False, jb_impacted = [], jb_changes = \<lparr>ch_bound = [], ch_unanalyzed = []\<rparr>,
        jb_workload = [\<lparr>jr_method = ''GET'', jr_path = ''/cart'', jr_provenance = [], jr_body = []\<rparr>], jb_plan = demo_plan,
        jb_tasks = [], jb_blockers = [], jb_validated = False\<rparr>,
      le_task = \<lparr>tk_id = [], tk_job_id = i, tk_plan_id = ''behavior'', tk_kind = ''behavior'', tk_operator = False, tk_required = True,
        tk_depends_on = [], tk_n = 1, tk_state = StateLeased, tk_attempt = [], tk_fence = 1, tk_lease_until = 0, tk_worker = [],
        tk_result = mk_result [] [] [] [], tk_err = []\<rparr>,
      le_n = 1, le_fence = 1, le_attempt = []\<rparr>"

definition demo_result :: step_result where
  "demo_result = (mk_result ''behavior'' ''behavior'' ''match'' [])\<lparr>sr_steps :=
     [\<lparr>de_method = ''GET'', de_path = ''/cart'', de_status = ''match'', de_baseline_status = 200, de_patch_status = 200, de_notes = []\<rparr>]\<rparr>"

text \<open>The same step after the patched side has started to fail.\<close>

definition broken_exec :: exec_env where
  "broken_exec = demo_exec\<lparr>xe_repeat := (\<lambda>_ u _. Response (if u = ''http://b:2/cart'' then 500 else 200) (Inr []) 1000)\<rparr>"

lemma demo_fresh: "executeFresh demo_exec (demo_lease i) = Inr demo_result"
  by code_simp

text \<open>An encoder of keys, and a hash that tells the key of the demonstration and its result apart from everything else.\<close>

definition key_text :: "action_key \<Rightarrow> string" where
  "key_text k = replicate (to_nat (ak_v k, ak_kind k, ak_baseline_tree k, ak_patch_tree k, ak_scope k, ak_n k, ak_workload k, ak_health_path k)) CHR ''k''"

lemma inj_key_text: "inj key_text"
proof (rule injI)
  fix k k' :: action_key
  assume "key_text k = key_text k'"
  then have "length (key_text k) = length (key_text k')" by simp
  then show "k = k'" unfolding key_text_def by simp
qed

definition demo_key :: action_key where
  "demo_key = \<lparr>ak_v = 3, ak_kind = ''behavior'', ak_baseline_tree = ''a1'', ak_patch_tree = ''b2'', ak_scope = ''trees'', ak_n = 1,
     ak_workload = ''[]'', ak_health_path = []\<rparr>"

definition demo_cache_env :: cache_env where
  "demo_cache_env = \<lparr>ce_sha256 = (\<lambda>x. replicate 64 (if x = key_text demo_key then CHR ''0'' else if x = ''{}'' then CHR ''1'' else CHR ''2'')),
     ce_marshal_key = key_text, ce_marshal_workload = (\<lambda>_. ''[]''),
     ce_marshal = (\<lambda>r. if r = demo_result then Some ''{}'' else None), ce_unmarshal = (\<lambda>_. Some demo_result)\<rparr>"

definition demo_cache :: cache where
  "demo_cache = \<lparr>ca_root = ''/c'', ca_idx = ''/c/cache''\<rparr>"

definition demo_executions :: "(exec_env \<times> lease) list" where
  "demo_executions = [(demo_exec, demo_lease ''1''), (broken_exec, demo_lease ''2'')]"

lemma demo_from_lease: "FromLease demo_cache_env (demo_lease i) = demo_key"
  by (simp add: FromLease_def demo_lease_def demo_rev_def demo_cache_env_def demo_key_def keyVersion_def Let_def) code_simp

lemma demo_digests:
  "actionDigest demo_cache_env demo_key = replicate 64 CHR ''0''" "ce_sha256 demo_cache_env ''{}'' = replicate 64 CHR ''1''"
  "key_text demo_key \<noteq> ''{}''"
  "digestValid (ce_sha256 demo_cache_env x)"
proof -
  show k: "key_text demo_key \<noteq> ''{}''"
  proof
    assume "key_text demo_key = ''{}''"
    then have "CHR ''{'' \<in> set (key_text demo_key)" by simp
    then show False by (simp add: key_text_def)
  qed
  show "actionDigest demo_cache_env demo_key = replicate 64 CHR ''0''" by (simp add: actionDigest_def demo_cache_env_def)
  show "ce_sha256 demo_cache_env ''{}'' = replicate 64 CHR ''1''" using k by (simp add: demo_cache_env_def)
  show "digestValid (ce_sha256 demo_cache_env x)"
    by (simp add: digestValid_def demo_cache_env_def list_all_iff is_hex_def is_digit_def)
qed

lemma demo_broken: "executeFresh broken_exec (demo_lease i) \<noteq> Inr demo_result"
  by code_simp

lemma demo_paths:
  "path_clean ''/c/cache'' = ''/c/cache''"
  "cacheFile demo_cache_env demo_cache demo_key = ''/c/cache/'' @ replicate 64 CHR ''0''"
  "casPath ''/c'' (replicate 64 CHR ''1'') = ''/c/objects/11/'' @ replicate 64 CHR ''1''"
  by (code_simp, simp add: cacheFile_def demo_digests demo_cache_def, code_simp, code_simp)

lemma demo_open: "fst (actionOpen map_os ''/c'' Map.empty) = Inr demo_cache"
proof -
  have "trim_space ''/c'' = ''/c''" by code_simp
  then show ?thesis by (simp add: actionOpen_def casOpen_def map_os_def demo_cache_def demo_paths)
qed

lemma demo_put:
  obtains w where "cachePut demo_cache_env map_os demo_cache demo_key demo_result Map.empty = (None, w)"
    and "w (''/c/cache/'' @ replicate 64 CHR ''0'') = Some (replicate 64 CHR ''1'')"
    and "w (''/c/objects/11/'' @ replicate 64 CHR ''1'') = Some ''{}''"
proof -
  let ?f = "''/c/cache/'' @ replicate 64 CHR ''0''" and ?o = "''/c/objects/11/'' @ replicate 64 CHR ''1''"
  let ?d = "casDir ''/c'' (replicate 64 CHR ''1'') @ ''/.put-*''" and ?t = "''/c/cache/.idx-*''"
  have d: "?d = ''/c/objects/11/.put-*''" by code_simp
  have m: "ce_marshal demo_cache_env demo_result = Some ''{}''" by (simp add: demo_cache_env_def)
  have v: "Cacheable (ak_kind demo_key)" "\<not> badVerdict (sr_verdict demo_result)" "sr_verdict demo_result = ''match''"
    by (simp_all add: Cacheable_def demo_key_def badVerdict_def demo_result_def mk_result_def)
  have put: "casPut (ce_sha256 demo_cache_env) map_os ''/c'' ''{}'' Map.empty =
      (Inr (replicate 64 CHR ''1''), (Map.empty(?d := None))(?o \<mapsto> ''{}''))"
    by (simp add: casPut_def Let_def demo_digests demo_paths writeTemp_def map_os_def)
  let ?w1 = "(Map.empty(?d := None))(?o \<mapsto> ''{}'')" and ?x = "replicate 64 CHR ''1''"
  have root: "ca_root demo_cache = ''/c''" by (simp add: demo_cache_def)
  have wt: "writeTemp map_os (ca_idx demo_cache) ''.idx-*'' ?x w = (Some ?t, w(?t \<mapsto> ?x))" for w
    by (simp add: writeTemp_def map_os_def demo_cache_def)
  have rn: "fo_rename map_os n d w = (True, (w(n := None))(d := w n))" for n d w by (simp add: map_os_def)
  have "cachePut demo_cache_env map_os demo_cache demo_key demo_result Map.empty =
      (None, (?w1(?t := None))(?f \<mapsto> ?x))"
    unfolding cachePut_def m option.case root put demo_paths(2) sum.case prod.case wt rn using v by simp
  then show thesis by (rule that) simp_all
qed

lemma demo_hit:
  assumes "w (''/c/cache/'' @ replicate 64 CHR ''0'') = Some (replicate 64 CHR ''1'')"
    and "w (''/c/objects/11/'' @ replicate 64 CHR ''1'') = Some ''{}''"
  shows "cacheGet demo_cache_env map_os demo_cache demo_key w = Inr (Some demo_result)"
proof -
  have h: "list_all is_hex (replicate 64 CHR ''1'')" by (simp add: list_all_iff is_hex_def is_digit_def)
  have "digestValid (replicate 64 CHR ''1'')" using h by (simp add: digestValid_def)
  then have "casGet (ce_sha256 demo_cache_env) map_os ''/c'' (replicate 64 CHR ''1'') w = Inr ''{}''"
    using assms(2) by (simp add: casGet_def demo_paths map_os_def demo_digests)
  moreover have "fo_read map_os w (cacheFile demo_cache_env demo_cache demo_key) = FileBytes (replicate 64 CHR ''1'')"
    using assms(1) by (simp add: demo_paths map_os_def)
  ultimately show ?thesis using trim_space_hex [OF h]
    by (simp add: cacheGet_def demo_cache_def) (simp add: Cacheable_def demo_key_def demo_cache_env_def badVerdict_def demo_result_def mk_result_def)
qed

lemma demo_second_result: "executions demo_cache_env map_os (Some demo_cache) demo_executions Map.empty ! 1 = Inr demo_result"
proof -
  obtain w where w: "cachePut demo_cache_env map_os demo_cache demo_key demo_result Map.empty = (None, w)"
    "w (''/c/cache/'' @ replicate 64 CHR ''0'') = Some (replicate 64 CHR ''1'')"
    "w (''/c/objects/11/'' @ replicate 64 CHR ''1'') = Some ''{}''" by (rule demo_put)
  have t: "tk_kind (le_task (demo_lease i)) = ''behavior''" "\<not> tk_operator (le_task (demo_lease i))" for i
    by (simp_all add: demo_lease_def)
  have miss: "cacheGet demo_cache_env map_os demo_cache demo_key Map.empty = Inr None"
    by (simp add: cacheGet_def map_os_def)
  have "ExecuteWith demo_exec demo_cache_env map_os (Some demo_cache) (demo_lease ''1'') Map.empty = (Inr demo_result, w)"
    using t miss w(1) by (simp add: ExecuteWith_def demo_from_lease demo_fresh Cacheable_def)
  moreover have "fst (ExecuteWith broken_exec demo_cache_env map_os (Some demo_cache) (demo_lease ''2'') w) = Inr demo_result"
    using t demo_hit [OF w(2,3)] by (simp add: ExecuteWith_def demo_from_lease Cacheable_def)
  ultimately show ?thesis by (simp add: demo_executions_def split_beta)
qed

lemma demo_hashed: "unique_hash (ce_sha256 demo_cache_env) (hashed demo_cache_env demo_executions)"
proof -
  have k: "ce_marshal_key demo_cache_env (FromLease demo_cache_env l) = key_text demo_key" if "(X, l) \<in> set demo_executions" for X l
    using that demo_from_lease by (auto simp: demo_executions_def demo_cache_env_def)
  have "hashed demo_cache_env demo_executions \<subseteq> {key_text demo_key, ''{}''}"
    using k by (auto simp: hashed_def bodies_def demo_cache_env_def split: if_splits)
  moreover have "unique_hash (ce_sha256 demo_cache_env) {key_text demo_key, ''{}''}"
    using demo_digests(3) by (auto simp: unique_hash_def demo_cache_env_def split: if_splits)
  ultimately show ?thesis by (rule unique_hash_mono [rotated])
qed

theorem cached_results_earned_witness:
  "executeFresh (fst (demo_executions ! 1)) (snd (demo_executions ! 1)) \<noteq> Inr demo_result \<and>
   (\<exists>j\<le>1. executeFresh (fst (demo_executions ! j)) (snd (demo_executions ! j)) = Inr demo_result \<and>
      same_action demo_cache_env (snd (demo_executions ! j)) (snd (demo_executions ! 1)))"
proof
  show "executeFresh (fst (demo_executions ! 1)) (snd (demo_executions ! 1)) \<noteq> Inr demo_result"
    using demo_broken by (simp add: demo_executions_def)
  have "inj (ce_marshal_key demo_cache_env)" using inj_key_text by (simp add: demo_cache_env_def)
  moreover have "\<forall>r b. ce_marshal demo_cache_env r = Some b \<longrightarrow> ce_unmarshal demo_cache_env b = Some r"
    by (simp add: demo_cache_env_def split: if_splits)
  moreover have "\<forall>x. digestValid (ce_sha256 demo_cache_env x)" using demo_digests(4) by blast
  moreover have "1 < length demo_executions" by (simp add: demo_executions_def)
  ultimately show "\<exists>j\<le>1. executeFresh (fst (demo_executions ! j)) (snd (demo_executions ! j)) = Inr demo_result \<and>
      same_action demo_cache_env (snd (demo_executions ! j)) (snd (demo_executions ! 1))"
    using cached_results_earned [OF map_os_laws demo_open _ demo_hashed _ _ _ _ demo_second_result] by simp
qed

end
