(* ===== verification/Job_Store_Laws.thy ===== *)
theory Job_Store_Laws
  imports Job_Stores
begin

text \<open>
  The contract of a job store and its proof for both implementations. The locale \<open>job_store\<close> fixes the operations
  and the view of the stored jobs and assumes the laws the fabric relies on: stored jobs change only by steps of
  the life cycle, new jobs come from \<open>buildJob\<close>, and a job is only added when its gateways are free and its
  service is below its quota. Its lemmas (proved once) are the invariants of every run of operations.
\<close>

section \<open>The contract\<close>

text \<open>Pointwise evolution of a collection of jobs.\<close>

definition jobs_evolve :: "net_env \<Rightarrow> (string \<rightharpoonup> job) \<Rightarrow> (string \<rightharpoonup> job) \<Rightarrow> bool" where
  "jobs_evolve E f g \<longleftrightarrow> (\<forall>i. rel_option (job_step E)\<^sup>*\<^sup>* (f i) (g i))"

definition jobs_ok :: "net_env \<Rightarrow> (string \<rightharpoonup> job) \<Rightarrow> bool" where
  "jobs_ok E f \<longleftrightarrow> (\<forall>i j. f i = Some j \<longrightarrow> job_ok E j \<and> jb_id j = i)"

text \<open>No two unfinished jobs share a gateway, and no service has more than \<open>cap\<close> unfinished jobs.\<close>

definition exclusive :: "net_env \<Rightarrow> (string \<rightharpoonup> job) \<Rightarrow> bool" where
  "exclusive E f \<longleftrightarrow> (\<forall>i k j j'. f i = Some j \<longrightarrow> f k = Some j' \<longrightarrow> i \<noteq> k \<longrightarrow> occupies j \<longrightarrow> occupies j' \<longrightarrow>
     set (occupancyKeys E j) \<inter> set (occupancyKeys E j') = {})"

definition active_ids :: "(string \<rightharpoonup> job) \<Rightarrow> string \<Rightarrow> string set" where
  "active_ids f service = {i. \<exists>j. f i = Some j \<and> occupies j \<and> jb_service j = service}"

definition within_quota :: "int \<Rightarrow> (string \<rightharpoonup> job) \<Rightarrow> bool" where
  "within_quota cap f \<longleftrightarrow> (\<forall>service. int (card (active_ids f service)) \<le> cap)"

text \<open>A sequence of operations each of which is admissible in the state it meets.\<close>

fun admissible :: "('op \<Rightarrow> 's \<Rightarrow> 's) \<Rightarrow> ('s \<Rightarrow> 'op \<Rightarrow> bool) \<Rightarrow> 's \<Rightarrow> 'op list \<Rightarrow> bool" where
  "admissible step fresh s [] = True"
| "admissible step fresh s (op # ops) = (fresh s op \<and> admissible step fresh (step op s) ops)"

lemma jobs_evolve_refl [simp]: "jobs_evolve E f f"
  by (simp add: jobs_evolve_def option.rel_refl)

lemma jobs_evolve_trans: "jobs_evolve E f g \<Longrightarrow> jobs_evolve E g h \<Longrightarrow> jobs_evolve E f h"
proof -
  assume fg: "jobs_evolve E f g" and gh: "jobs_evolve E g h"
  have "rel_option (job_step E)\<^sup>*\<^sup>* (f i) (h i)" for i
  proof -
    have "rel_option (job_step E)\<^sup>*\<^sup>* (f i) (g i)" "rel_option (job_step E)\<^sup>*\<^sup>* (g i) (h i)"
      using fg gh by (simp_all add: jobs_evolve_def)
    then show ?thesis by (cases "f i"; cases "g i"; cases "h i") (auto intro: rtranclp_trans)
  qed
  then show ?thesis by (simp add: jobs_evolve_def)
qed

lemma jobs_evolve_upd: "f i = Some j \<Longrightarrow> (job_step E)\<^sup>*\<^sup>* j j' \<Longrightarrow> jobs_evolve E f (f(i \<mapsto> j'))"
  by (simp add: jobs_evolve_def option.rel_refl)

lemma jobs_evolve_SomeD: "jobs_evolve E f g \<Longrightarrow> f i = Some j \<Longrightarrow> \<exists>j'. g i = Some j' \<and> (job_step E)\<^sup>*\<^sup>* j j'"
  unfolding jobs_evolve_def by (metis option_rel_Some1)

lemma jobs_evolve_back: "jobs_evolve E f g \<Longrightarrow> g i = Some j' \<Longrightarrow> \<exists>j. f i = Some j \<and> (job_step E)\<^sup>*\<^sup>* j j'"
  unfolding jobs_evolve_def by (metis option_rel_Some2)

lemma jobs_evolve_dom: "jobs_evolve E f g \<Longrightarrow> dom g = dom f"
  using jobs_evolve_SomeD jobs_evolve_back by (fastforce simp: dom_def)

lemma jobs_ok_evolve: "jobs_evolve E f g \<Longrightarrow> jobs_ok E f \<Longrightarrow> jobs_ok E g"
proof -
  assume ev: "jobs_evolve E f g" and ok: "jobs_ok E f"
  have "job_ok E j' \<and> jb_id j' = i" if gi: "g i = Some j'" for i j'
  proof -
    obtain j where "f i = Some j" "(job_step E)\<^sup>*\<^sup>* j j'" using jobs_evolve_back [OF ev gi] by blast
    then show ?thesis using job_run_ok [of E j j'] ok by (simp add: jobs_ok_def same_job_def)
  qed
  then show "jobs_ok E g" by (simp add: jobs_ok_def)
qed

lemma exclusive_insert:
  assumes "exclusive E f"
    and "\<And>k j'. f k = Some j' \<Longrightarrow> occupies j' \<Longrightarrow> set (occupancyKeys E j) \<inter> set (occupancyKeys E j') = {}"
  shows "exclusive E (f(i \<mapsto> j))"
  unfolding exclusive_def
proof (intro allI impI)
  fix a b ja jb
  assume *: "(f(i \<mapsto> j)) a = Some ja" "(f(i \<mapsto> j)) b = Some jb" "a \<noteq> b" "occupies ja" "occupies jb"
  show "set (occupancyKeys E ja) \<inter> set (occupancyKeys E jb) = {}"
  proof (cases "a = i")
    case True
    then have "ja = j" "f b = Some jb" using * by simp_all
    then show ?thesis using assms(2) *(5) by blast
  next
    case False
    then have fa: "f a = Some ja" using * by simp
    show ?thesis
    proof (cases "b = i")
      case True
      then have "jb = j" using * by simp
      then show ?thesis using assms(2) [OF fa *(4)] by (simp add: Int_commute)
    next
      case False
      then have "f b = Some jb" using * by simp
      then show ?thesis using assms(1) fa *(3-5) unfolding exclusive_def by blast
    qed
  qed
qed

lemma quota_insert:
  assumes q: "within_quota cap f" and below: "int (card (active_ids f (jb_service j))) < cap" and fin: "finite (dom f)"
  shows "within_quota cap (f(i \<mapsto> j))"
proof -
  have "active_ids f sv \<subseteq> dom f" for sv by (auto simp: active_ids_def)
  then have finf: "finite (active_ids f sv)" for sv by (rule finite_subset [OF _ fin])
  have "int (card (active_ids (f(i \<mapsto> j)) sv)) \<le> cap" for sv
  proof (cases "sv = jb_service j")
    case True
    have "active_ids (f(i \<mapsto> j)) sv \<subseteq> insert i (active_ids f sv)" by (auto simp: active_ids_def)
    then have "card (active_ids (f(i \<mapsto> j)) sv) \<le> card (insert i (active_ids f sv))"
      by (rule card_mono [rotated]) (simp add: finf)
    also have "\<dots> \<le> Suc (card (active_ids f sv))" by (simp add: card_insert_if finf)
    finally show ?thesis using below True by simp
  next
    case False
    have "active_ids (f(i \<mapsto> j)) sv \<subseteq> active_ids f sv" using False by (auto simp: active_ids_def split: if_splits)
    from card_mono [OF finf this] show ?thesis using q unfolding within_quota_def by (meson of_nat_le_iff order_trans)
  qed
  then show ?thesis by (simp add: within_quota_def)
qed

locale job_store =
  fixes E :: net_env
    and step :: "store_op \<Rightarrow> 's \<Rightarrow> 's"
    and view :: "'s \<Rightarrow> string \<Rightarrow> job option"
    and wf :: "'s \<Rightarrow> bool"
    and fresh :: "'s \<Rightarrow> store_op \<Rightarrow> bool"
    and cap :: "'s \<Rightarrow> int"
  assumes wf_step: "wf s \<Longrightarrow> jobs_ok E (view s) \<Longrightarrow> fresh s op \<Longrightarrow> wf (step op s)"
    and finite_view: "wf s \<Longrightarrow> finite (dom (view s))"
    and cap_step: "cap (step op s) = cap s"
    and step_view: "wf s \<Longrightarrow> jobs_ok E (view s) \<Longrightarrow> fresh s op \<Longrightarrow>
      jobs_evolve E (view s) (view (step op s)) \<or>
      (\<exists>f i j. jobs_evolve E (view s) f \<and> f i = None \<and> view (step op s) = f(i \<mapsto> j) \<and>
         (\<exists>vnow now opts. buildJob E vnow now i opts = Inr j) \<and>
         (\<forall>k j'. f k = Some j' \<longrightarrow> occupies j' \<longrightarrow> set (occupancyKeys E j) \<inter> set (occupancyKeys E j') = {}) \<and>
         int (card (active_ids f (jb_service j))) < cap s)"
begin

definition good :: "'s \<Rightarrow> bool" where
  "good s \<longleftrightarrow> wf s \<and> jobs_ok E (view s) \<and> exclusive E (view s) \<and> within_quota (cap s) (view s)"

lemma exclusive_evolve:
  assumes "jobs_evolve E f g" and "jobs_ok E f" and "exclusive E f"
  shows "exclusive E g"
proof -
  have prev: "\<exists>j. f i = Some j \<and> occupies j \<and> occupancyKeys E j' = occupancyKeys E j" if g: "g i = Some j'" and o: "occupies j'" for i j'
  proof -
    obtain j where j: "f i = Some j" "(job_step E)\<^sup>*\<^sup>* j j'" using jobs_evolve_back [OF assms(1) g] by blast
    then have ok: "job_ok E j" using assms(2) by (simp add: jobs_ok_def)
    have "occupies j" using job_run_finished [OF j(2) ok] o by blast
    moreover have "occupancyKeys E j' = occupancyKeys E j"
      using job_run_ok [OF j(2) ok] by (simp add: occupancyKeys_def same_job_def)
    ultimately show ?thesis using j(1) by blast
  qed
  show ?thesis
    unfolding exclusive_def
  proof (intro allI impI)
    fix i k j j' assume "g i = Some j" "g k = Some j'" "i \<noteq> k" "occupies j" "occupies j'"
    then show "set (occupancyKeys E j) \<inter> set (occupancyKeys E j') = {}"
      using prev [of i j] prev [of k j'] assms(3) unfolding exclusive_def by metis
  qed
qed

lemma active_evolve: "jobs_evolve E f g \<Longrightarrow> jobs_ok E f \<Longrightarrow> active_ids g service \<subseteq> active_ids f service"
proof
  fix i assume ev: "jobs_evolve E f g" and ok: "jobs_ok E f" and "i \<in> active_ids g service"
  then obtain j' where j': "g i = Some j'" "occupies j'" "jb_service j' = service" by (auto simp: active_ids_def)
  obtain j where j: "f i = Some j" "(job_step E)\<^sup>*\<^sup>* j j'" using jobs_evolve_back [OF ev j'(1)] by blast
  have "job_ok E j" using ok j(1) by (simp add: jobs_ok_def)
  then show "i \<in> active_ids f service"
    using job_run_finished [OF j(2)] job_run_ok [OF j(2)] j j' by (auto simp: active_ids_def same_job_def)
qed

lemma quota_evolve:
  assumes "jobs_evolve E f g" and "jobs_ok E f" and "finite (dom f)" and "within_quota c f"
  shows "within_quota c g"
proof -
  have "active_ids f s \<subseteq> dom f" for s by (auto simp: active_ids_def)
  then have "card (active_ids g s) \<le> card (active_ids f s)" for s
    using card_mono [OF finite_subset [OF _ assms(3)] active_evolve [OF assms(1,2)]] by blast
  then show ?thesis using assms(4) unfolding within_quota_def by (meson of_nat_le_iff order_trans)
qed

lemma good_step:
  assumes "good s" and "fresh s op"
  shows "good (step op s)"
proof -
  have wf: "wf s" and ok: "jobs_ok E (view s)" and ex: "exclusive E (view s)" and q: "within_quota (cap s) (view s)"
    using assms(1) by (simp_all add: good_def)
  note fin = finite_view [OF wf]
  have wf': "wf (step op s)" by (rule wf_step [OF wf ok assms(2)])
  from step_view [OF wf ok assms(2)] show ?thesis
  proof (elim disjE exE conjE)
    assume "jobs_evolve E (view s) (view (step op s))"
    then show ?thesis
      using wf' ok ex q fin jobs_ok_evolve exclusive_evolve quota_evolve by (simp add: good_def cap_step)
  next
    fix f i j vnow now opts
    assume ev: "jobs_evolve E (view s) f" and new: "f i = None" "view (step op s) = f(i \<mapsto> j)"
      and built: "buildJob E vnow now i opts = Inr j"
      and free: "\<forall>k j'. f k = Some j' \<longrightarrow> occupies j' \<longrightarrow> set (occupancyKeys E j) \<inter> set (occupancyKeys E j') = {}"
      and below: "int (card (active_ids f (jb_service j))) < cap s"
    have ok': "jobs_ok E f" and ex': "exclusive E f" and q': "within_quota (cap s) f"
      using jobs_ok_evolve [OF ev ok] exclusive_evolve [OF ev ok ex] quota_evolve [OF ev ok fin q] .
    have "jobs_ok E (f(i \<mapsto> j))"
      using ok' buildJob_Inr(1,4) [OF built] by (simp add: jobs_ok_def)
    moreover have "exclusive E (f(i \<mapsto> j))"
      using exclusive_insert [OF ex'] free by blast
    moreover have "within_quota (cap s) (f(i \<mapsto> j))"
      using quota_insert [OF q' below] fin jobs_evolve_dom [OF ev] by simp
    ultimately show ?thesis using wf' by (simp add: good_def cap_step new)
  qed
qed

lemma good_run: "good s \<Longrightarrow> admissible step fresh s ops \<Longrightarrow> good (fold step ops s)"
  by (induction ops arbitrary: s) (simp_all add: good_step)

lemma step_keeps:
  assumes "good s" and "fresh s op" and "view s i = Some j"
  shows "\<exists>j'. view (step op s) i = Some j' \<and> (job_step E)\<^sup>*\<^sup>* j j'"
proof -
  have "wf s" "jobs_ok E (view s)" using assms(1) by (simp_all add: good_def)
  from step_view [OF this assms(2)] show ?thesis
  proof (elim disjE exE conjE)
    assume "jobs_evolve E (view s) (view (step op s))"
    then show ?thesis using jobs_evolve_SomeD assms(3) by blast
  next
    fix f k j0
    assume ev: "jobs_evolve E (view s) f" and new: "f k = None" "view (step op s) = f(k \<mapsto> j0)"
    obtain j' where "f i = Some j'" "(job_step E)\<^sup>*\<^sup>* j j'" using jobs_evolve_SomeD [OF ev assms(3)] by blast
    then show ?thesis using new by auto
  qed
qed

lemma run_keeps:
  "good s \<Longrightarrow> admissible step fresh s ops \<Longrightarrow> view s i = Some j \<Longrightarrow>
   \<exists>j'. view (fold step ops s) i = Some j' \<and> (job_step E)\<^sup>*\<^sup>* j j'"
proof (induction ops arbitrary: s j)
  case (Cons op ops)
  obtain j1 where j1: "view (step op s) i = Some j1" "(job_step E)\<^sup>*\<^sup>* j j1"
    using step_keeps [of s op i j] Cons.prems by auto
  obtain j' where "view (fold step ops (step op s)) i = Some j'" "(job_step E)\<^sup>*\<^sup>* j1 j'"
    using Cons.IH [OF _ _ j1(1)] Cons.prems good_step by auto
  then show ?case using j1(2) by (auto intro: rtranclp_trans)
qed auto

end

section \<open>Shared facts about the operations\<close>

lemma worker_id_Inr: "worker_id w = Inr wid \<Longrightarrow> trim_space wid \<noteq> []"
  by (auto simp: worker_id_def split: if_splits)

lemma taskIndex_Some: "taskIndex tid k ts = Some i \<Longrightarrow> k \<le> i \<and> i - k < length ts \<and> tk_id (ts ! (i - k)) = tid"
proof (induction tid k ts rule: taskIndex.induct)
  case (2 tid k t ts)
  show ?case
  proof (cases "tk_id t = tid")
    case False
    then have *: "Suc k \<le> i \<and> i - Suc k < length ts \<and> tk_id (ts ! (i - Suc k)) = tid" using 2 by simp
    then have "i - k = Suc (i - Suc k)" using Suc_diff_Suc [of k i] by simp
    then show ?thesis using * by simp
  qed (use "2.prems" in simp)
qed simp

lemma findTask_Some:
  "findTask look tid ks = Some (k, job, i) \<Longrightarrow> k \<in> set ks \<and> look k = Some job \<and> i < length (jb_tasks job) \<and> tk_id (jb_tasks job ! i) = tid"
  by (induction ks) (auto dest: taskIndex_Some split: option.splits)

lemma findLocked_Some:
  "findLocked tid js = Some (job, i) \<Longrightarrow> job \<in> set js \<and> i < length (jb_tasks job) \<and> tk_id (jb_tasks job ! i) = tid"
  by (induction js) (auto dest: taskIndex_Some split: option.splits)

text \<open>The keys of a job that passed validation are not empty, so that a free gateway is free for both targets.\<close>

lemma to_lower_Nil [simp]: "to_lower s = [] \<longleftrightarrow> s = []"
  unfolding to_lower_def by (cases s) (simp_all split: option.split)

lemma validateCreate_targets:
  "trim_space (co_baseline opts) = [] \<or> trim_space (co_patch opts) = [] \<Longrightarrow> validateCreate E now opts \<noteq> None"
  by (simp add: validateCreate_def split: option.split)

lemma occupancyKeys_nonempty:
  assumes "buildJob E vnow now jid opts = Inr j"
  shows "[] \<notin> set (occupancyKeys E j)"
proof -
  have v: "validateCreate E vnow opts = None" by (rule buildJob_Inr(11) [OF assms])
  have "trim_space (co_baseline opts) \<noteq> [] \<and> trim_space (co_patch opts) \<noteq> []"
    using v validateCreate_targets by blast
  then have "trim_space (jb_baseline j) \<noteq> []" "trim_space (jb_patch j) \<noteq> []"
    using buildJob_Inr(6,7) [OF assms] by simp_all
  moreover have "occupancyKey E raw \<noteq> []" if "trim_space raw \<noteq> []" for raw
    using that by (simp add: occupancyKey_def split: option.split)
  ultimately have "occupancyKey E (jb_baseline j) \<noteq> []" "occupancyKey E (jb_patch j) \<noteq> []" by blast+
  then show ?thesis unfolding occupancyKeys_def Let_def by (auto split: if_splits)
qed

lemma gatewayBusy_free:
  assumes "\<not> gatewayBusy E existing j" and "[] \<notin> set (occupancyKeys E j)" and "j' \<in> set existing"
    and "jb_id j' \<noteq> jb_id j" and "occupies j'"
  shows "set (occupancyKeys E j) \<inter> set (occupancyKeys E j') = {}"
proof -
  have "filter (\<lambda>k. k \<noteq> []) (occupancyKeys E j) = occupancyKeys E j"
    using assms(2) by (auto simp: filter_id_conv)
  then have "\<not> list_ex (\<lambda>k. k \<in> set (occupancyKeys E j)) (occupancyKeys E j')"
    using assms(1,3-) unfolding gatewayBusy_def Let_def by (auto simp: list_ex_iff)
  then show ?thesis by (auto simp: list_ex_iff)
qed

lemma overActive_below:
  assumes "\<not> overActive existing j q" and "\<And>i j'. f i = Some j' \<Longrightarrow> occupies j' \<Longrightarrow> j' \<in> set existing \<and> jb_id j' = i \<and> i \<noteq> jb_id j"
  shows "int (card (active_ids f (jb_service j))) < qt_active_jobs (normalized q)"
proof -
  let ?P = "\<lambda>j'. jb_id j' \<noteq> jb_id j \<and> jb_service j' = jb_service j \<and> occupies j'"
  have "active_ids f (jb_service j) \<subseteq> jb_id ` set (filter ?P existing)"
  proof
    fix i assume "i \<in> active_ids f (jb_service j)"
    then obtain j' where "f i = Some j'" "occupies j'" "jb_service j' = jb_service j" unfolding active_ids_def by blast
    then show "i \<in> jb_id ` set (filter ?P existing)"
      using assms(2) [of i j'] by (intro image_eqI [of _ _ j']) simp_all
  qed
  then have "card (active_ids f (jb_service j)) \<le> card (jb_id ` set (filter ?P existing))"
    by (rule card_mono [rotated]) (intro finite_imageI finite_set)
  also have "\<dots> \<le> length (filter ?P existing)"
    using card_image_le [OF finite_set, of jb_id "filter ?P existing"] card_length [of "filter ?P existing"] by linarith
  finally show ?thesis using assms(1) unfolding overActive_def by linarith
qed

lemma pickReady_Some:
  assumes "pickReady all want q = Some (ji, ti)"
  shows "ji < length all \<and> ti < length (jb_tasks (all ! ji)) \<and>
     tk_state (jb_tasks (all ! ji) ! ti) = StateReady \<and> \<not> jb_canceled (all ! ji)"
proof -
  have *: "ji < length all" "pickable (leasedOf all) want (qt_leased_tasks (normalized q)) (all ! ji)"
    "readyIndex 0 (jb_tasks (all ! ji)) = Some ti"
    using pickReady_cases [of all want q] by (simp_all add: assms)
  show ?thesis using readyIndex_Some [OF *(3)] *(1,2) by (simp add: pickable_def)
qed

section \<open>The in-memory store\<close>

definition mem_wf :: "mem_store \<Rightarrow> bool" where
  "mem_wf m \<longleftrightarrow> distinct (ms_order m) \<and> set (ms_order m) = dom (ms_by_id m)"

text \<open>Random ids do not collide with stored ones.\<close>

fun mem_fresh :: "mem_store \<Rightarrow> store_op \<Rightarrow> bool" where
  "mem_fresh m (OpCreate v b now jid ks opts) = (jid \<notin> set (ms_order m))"
| "mem_fresh m _ = True"

lemma set_mem_jobs: "mem_wf m \<Longrightarrow> j \<in> set (mem_jobs m) \<longleftrightarrow> (\<exists>i. ms_by_id m i = Some j)"
  unfolding mem_jobs_def List.map_filter_def mem_wf_def by (fastforce simp: image_iff)

lemma requeueExpiredLocked_evolves:
  "jobs_evolve E (ms_by_id m) (ms_by_id (fst (requeueExpiredLocked E now ks m))) \<and>
   ms_order (fst (requeueExpiredLocked E now ks m)) = ms_order m \<and> ms_quota (fst (requeueExpiredLocked E now ks m)) = ms_quota m"
proof -
  let ?f = "\<lambda>k (m, n). case ms_by_id m k of None \<Rightarrow> (m, n)
     | Some job \<Rightarrow> (let (job', d) = expireJob E now job in (m\<lparr>ms_by_id := (ms_by_id m)(k \<mapsto> job')\<rparr>, n + d))"
  let ?P = "\<lambda>m' :: mem_store. jobs_evolve E (ms_by_id m) (ms_by_id m') \<and> ms_order m' = ms_order m \<and> ms_quota m' = ms_quota m"
  have "?P (fst (fold ?f ks (m, 0)))"
  proof (rule fold_invariant [where Q = "\<lambda>_. True" and P = "\<lambda>p. ?P (fst p)"])
    fix k and p :: "mem_store \<times> nat" assume P: "?P (fst p)"
    obtain m' n where p: "p = (m', n)" by (cases p)
    show "?P (fst (?f k p))"
    proof (cases "ms_by_id m' k")
      case (Some job)
      have "(job_step E)\<^sup>*\<^sup>* job (fst (expireJob E now job))" by (simp add: r_into_rtranclp step_expire)
      from jobs_evolve_upd [of "ms_by_id m'" k job E, OF Some this] show ?thesis
        using P Some by (simp add: p split_beta Let_def) (blast intro: jobs_evolve_trans)
    qed (use P p in simp)
  qed simp_all
  then show ?thesis by (simp add: requeueExpiredLocked_def)
qed

lemma mem_wf_evolve:
  "mem_wf m \<Longrightarrow> jobs_evolve E (ms_by_id m) (ms_by_id m') \<Longrightarrow> ms_order m' = ms_order m \<Longrightarrow> mem_wf m'"
  by (simp add: mem_wf_def jobs_evolve_dom)

text \<open>Every operation but a successful \<open>Create\<close> lets the stored jobs evolve.\<close>

definition mem_evolves :: "net_env \<Rightarrow> mem_store \<Rightarrow> mem_store \<Rightarrow> bool" where
  "mem_evolves E m m' \<longleftrightarrow> jobs_evolve E (ms_by_id m) (ms_by_id m') \<and> ms_order m' = ms_order m \<and> ms_quota m' = ms_quota m"

lemma mem_evolves_refl [simp]: "mem_evolves E m m"
  by (simp add: mem_evolves_def)

lemma mem_evolves_trans: "mem_evolves E m m' \<Longrightarrow> mem_evolves E m' m'' \<Longrightarrow> mem_evolves E m m''"
  unfolding mem_evolves_def by (auto intro: jobs_evolve_trans)

lemma mem_evolves_upd:
  "ms_by_id m k = Some j \<Longrightarrow> job_step E j j' \<Longrightarrow> mem_evolves E m (m\<lparr>ms_by_id := (ms_by_id m)(k \<mapsto> j')\<rparr>)"
  using jobs_evolve_upd [of "ms_by_id m" k j E j'] by (simp add: mem_evolves_def r_into_rtranclp)

lemma requeue_mem_evolves: "mem_evolves E m (fst (requeueExpiredLocked E now ks m))"
  using requeueExpiredLocked_evolves [of E m now ks] by (simp add: mem_evolves_def)

lemma mem_lease_evolves:
  assumes "mem_wf m" and "jobs_ok E (ms_by_id m)"
  shows "mem_evolves E m (snd (mem_lease E w now attempt ks m))"
proof -
  let ?m1 = "fst (requeueExpiredLocked E now ks m)"
  have ev: "mem_evolves E m ?m1" by (rule requeue_mem_evolves)
  have wf: "mem_wf ?m1" and ok: "jobs_ok E (ms_by_id ?m1)"
    using ev mem_wf_evolve [OF assms(1)] jobs_ok_evolve [OF _ assms(2)] unfolding mem_evolves_def by blast+
  have "mem_evolves E ?m1 (?m1\<lparr>ms_by_id := (ms_by_id ?m1)(jb_id job \<mapsto> job)\<rparr>)"
    if wid: "worker_id w = Inr wid" and p: "pickReady (mem_jobs ?m1) want q = Some (ji, ti)"
      and job: "job = leaseJob attempt wid now ti (mem_jobs ?m1 ! ji)" for wid want q ji ti job
  proof -
    let ?j = "mem_jobs ?m1 ! ji"
    note pick = pickReady_Some [OF p]
    have "?j \<in> set (mem_jobs ?m1)" using pick by simp
    then obtain i where "ms_by_id ?m1 i = Some ?j" using set_mem_jobs [OF wf] by blast
    then have look: "ms_by_id ?m1 (jb_id ?j) = Some ?j" using ok by (simp add: jobs_ok_def)
    have "jb_id job = jb_id ?j" unfolding job leaseJob_def Let_def by simp
    moreover have "job_step E ?j job"
      unfolding job using pick worker_id_Inr [OF wid] by (intro step_lease) simp_all
    ultimately show ?thesis using mem_evolves_upd [OF look] by simp
  qed
  then show ?thesis
    using ev mem_evolves_trans [OF ev] unfolding mem_lease_def Let_def
    by (auto split: sum.split option.split prod.split)
qed

lemma mem_heartbeat_evolves: "mem_evolves E m (snd (mem_heartbeat t a w now ks m))"
proof -
  have "mem_evolves E m (m\<lparr>ms_by_id := (ms_by_id m)(k \<mapsto> job\<lparr>jb_tasks := (jb_tasks job)[i := t']\<rparr>)\<rparr>)"
    if "findTask (ms_by_id m) tid ks = Some (k, job, i)" "applyHeartbeat aid w now (jb_tasks job ! i) = Inr t'" for tid aid k job i t'
    using findTask_Some [OF that(1)] mem_evolves_upd [of m k job, OF _ step_heartbeat [OF _ that(2)]] by simp
  then show ?thesis unfolding mem_heartbeat_def by (auto split: sum.split option.split prod.split)
qed

lemma mem_commit_evolves: "mem_evolves E m (snd (mem_commit E t a result fail ks m))"
proof -
  have "mem_evolves E m (m\<lparr>ms_by_id := (ms_by_id m)(k \<mapsto> refreshJob E (job\<lparr>jb_tasks := (jb_tasks job)[i := t']\<rparr>))\<rparr>)"
    if "findTask (ms_by_id m) tid ks = Some (k, job, i)" "applyCommit aid result fail (jb_tasks job ! i) = Inr t'" for tid aid k job i t'
    using findTask_Some [OF that(1)] mem_evolves_upd [of m k job, OF _ step_commit [OF _ that(2)]] by simp
  then show ?thesis unfolding mem_commit_def Let_def by (auto split: sum.split option.split prod.split)
qed

lemma mem_cancel_evolves: "mem_evolves E m (snd (mem_cancel E raw m))"
  using mem_evolves_upd [OF _ step_cancel]
  by (simp add: mem_cancel_def Let_def split: option.split)

lemma mem_create_view:
  assumes "mem_wf m" and "jobs_ok E (ms_by_id m)" and "jid \<notin> set (ms_order m)"
  shows "mem_evolves E m (snd (mem_create E v b now jid ks opts m)) \<or>
    (\<exists>m1 j. mem_evolves E m m1 \<and> buildJob E v b jid opts = Inr j \<and> jb_id j = jid \<and>
       \<not> gatewayBusy E (mem_jobs m1) j \<and> \<not> overActive (mem_jobs m1) j (ms_quota m) \<and>
       snd (mem_create E v b now jid ks opts m) = m1\<lparr>ms_by_id := (ms_by_id m1)(jid \<mapsto> j), ms_order := ms_order m @ [jid]\<rparr>)"
proof (cases "buildJob E v b jid opts")
  case (Inr j)
  let ?m1 = "fst (requeueExpiredLocked E now ks m)"
  have ev: "mem_evolves E m ?m1" by (rule requeue_mem_evolves)
  have "jb_id j = jid" by (rule buildJob_Inr(1) [OF Inr])
  then show ?thesis
    using ev unfolding mem_create_def Inr sum.case Let_def by (auto simp: mem_evolves_def)
qed (simp add: mem_create_def)

lemma mem_step_evolves:
  assumes "mem_wf m" and "jobs_ok E (ms_by_id m)" and "\<nexists>v b now jid ks opts. op = OpCreate v b now jid ks opts"
  shows "mem_evolves E m (mem_step E op m)"
  using assms mem_lease_evolves mem_heartbeat_evolves mem_commit_evolves mem_cancel_evolves requeue_mem_evolves
  by (cases op) simp_all

lemma mem_quota_step: "ms_quota (mem_step E op m) = ms_quota m"
proof -
  have r: "ms_quota (fst (requeueExpiredLocked E now ks m)) = ms_quota m" for now ks
    using requeue_mem_evolves [of E m now ks] by (simp add: mem_evolves_def)
  show ?thesis
    by (cases op)
      (simp_all add: mem_create_def mem_lease_def mem_heartbeat_def mem_commit_def mem_cancel_def Let_def r
        split: sum.split option.split prod.split)
qed

lemma mem_new_job:
  assumes wf: "mem_wf m1" and ok: "jobs_ok E (ms_by_id m1)" and built: "buildJob E v b jid opts = Inr j"
    and new: "ms_by_id m1 jid = None"
    and free: "\<not> gatewayBusy E (mem_jobs m1) j" and below: "\<not> overActive (mem_jobs m1) j q"
  shows "\<And>k j'. ms_by_id m1 k = Some j' \<Longrightarrow> occupies j' \<Longrightarrow> set (occupancyKeys E j) \<inter> set (occupancyKeys E j') = {}"
    and "int (card (active_ids (ms_by_id m1) (jb_service j))) < qt_active_jobs (normalized q)"
proof -
  have id: "jb_id j = jid" by (rule buildJob_Inr(1) [OF built])
  have old: "j' \<in> set (mem_jobs m1) \<and> jb_id j' = k \<and> k \<noteq> jb_id j" if "ms_by_id m1 k = Some j'" for k j'
    using that set_mem_jobs [OF wf, of j'] ok new id by (auto simp: jobs_ok_def)
  show "int (card (active_ids (ms_by_id m1) (jb_service j))) < qt_active_jobs (normalized q)"
    by (rule overActive_below [OF below]) (rule old)
  fix k j' assume j': "ms_by_id m1 k = Some j'" "occupies j'"
  show "set (occupancyKeys E j) \<inter> set (occupancyKeys E j') = {}"
    by (rule gatewayBusy_free [OF free occupancyKeys_nonempty [OF built]]) (use old [OF j'(1)] j'(2) in auto)
qed

lemma mem_create_cases:
  assumes "mem_wf m" and "jobs_ok E (ms_by_id m)" and "mem_fresh m op"
  obtains (evolve) "mem_evolves E m (mem_step E op m)"
  | (new) m1 j v b jid opts where "mem_evolves E m m1" "buildJob E v b jid opts = Inr j" "ms_by_id m1 jid = None"
      "\<not> gatewayBusy E (mem_jobs m1) j" "\<not> overActive (mem_jobs m1) j (ms_quota m)"
      "mem_step E op m = m1\<lparr>ms_by_id := (ms_by_id m1)(jid \<mapsto> j), ms_order := ms_order m @ [jid]\<rparr>"
proof (cases "\<exists>v b now jid ks opts. op = OpCreate v b now jid ks opts")
  case True
  then obtain v b now jid ks opts where op: "op = OpCreate v b now jid ks opts" by blast
  have fresh: "jid \<notin> set (ms_order m)" using assms(3) op by simp
  from mem_create_view [OF assms(1,2) fresh, of v b now ks opts] show thesis
  proof (elim disjE exE conjE)
    assume "mem_evolves E m (snd (mem_create E v b now jid ks opts m))"
    then show thesis using evolve op by simp
  next
    fix m1 j assume *: "mem_evolves E m m1" "buildJob E v b jid opts = Inr j" "\<not> gatewayBusy E (mem_jobs m1) j"
      "\<not> overActive (mem_jobs m1) j (ms_quota m)"
      "snd (mem_create E v b now jid ks opts m) = m1\<lparr>ms_by_id := (ms_by_id m1)(jid \<mapsto> j), ms_order := ms_order m @ [jid]\<rparr>"
    have "jid \<notin> dom (ms_by_id m1)"
      using fresh assms(1) *(1) jobs_evolve_dom [of E "ms_by_id m" "ms_by_id m1"] by (simp add: mem_wf_def mem_evolves_def)
    then show thesis using new [OF *(1,2) _ *(3,4)] *(5) op by (simp add: domIff)
  qed
next
  case False
  then show thesis using evolve mem_step_evolves [OF assms(1,2)] by blast
qed

interpretation mem: job_store E "mem_step E" ms_by_id mem_wf mem_fresh "\<lambda>m. qt_active_jobs (normalized (ms_quota m))"
  for E :: net_env
proof
  fix s op assume wf: "mem_wf s" and ok: "jobs_ok E (ms_by_id s)" and fresh: "mem_fresh s op"
  show "mem_wf (mem_step E op s)"
    using wf ok fresh
  proof (cases rule: mem_create_cases)
    case evolve
    then show ?thesis using mem_wf_evolve [OF wf] unfolding mem_evolves_def by blast
  next
    case (new m1 j v b jid opts)
    have "mem_wf m1" using mem_wf_evolve [OF wf] new(1) unfolding mem_evolves_def by blast
    then show ?thesis using new(1,3) by (auto simp: new(6) mem_wf_def mem_evolves_def domIff)
  qed
  show "jobs_evolve E (ms_by_id s) (ms_by_id (mem_step E op s)) \<or>
      (\<exists>f i j. jobs_evolve E (ms_by_id s) f \<and> f i = None \<and> ms_by_id (mem_step E op s) = f(i \<mapsto> j) \<and>
         (\<exists>vnow now opts. buildJob E vnow now i opts = Inr j) \<and>
         (\<forall>k j'. f k = Some j' \<longrightarrow> occupies j' \<longrightarrow> set (occupancyKeys E j) \<inter> set (occupancyKeys E j') = {}) \<and>
         int (card (active_ids f (jb_service j))) < qt_active_jobs (normalized (ms_quota s)))"
    using wf ok fresh
  proof (cases rule: mem_create_cases)
    case evolve
    then show ?thesis unfolding mem_evolves_def by blast
  next
    case (new m1 j v b jid opts)
    have wf1: "mem_wf m1" and ok1: "jobs_ok E (ms_by_id m1)" and ev: "jobs_evolve E (ms_by_id s) (ms_by_id m1)"
      using mem_wf_evolve [OF wf] jobs_ok_evolve [OF _ ok] new(1) unfolding mem_evolves_def by blast+
    show ?thesis
      by (rule disjI2, rule exI [of _ "ms_by_id m1"], rule exI [of _ jid], rule exI [of _ j])
        (use mem_new_job [OF wf1 ok1 new(2-5)] ev new(2,3,6) in auto)
  qed
next
  fix s assume "mem_wf s"
  then show "finite (dom (ms_by_id s))" unfolding mem_wf_def by (metis finite_set)
qed (simp add: mem_quota_step)

end
