(* ===== verification/Postgres_Laws.thy ===== *)
theory Postgres_Laws
  imports Job_Store_Laws
begin

text \<open>
  The contract \<open>job_store\<close> for the database store: the rows as a view of jobs, the evolution of the rows under every
  transaction, and the interpretation of the locale.
\<close>

section \<open>The database store\<close>

definition row_view :: "pg_row list \<Rightarrow> string \<rightharpoonup> job" where
  "row_view rows = map_of (map (\<lambda>r. (pr_id r, pr_payload r)) rows)"

definition rows_wf :: "pg_row list \<Rightarrow> bool" where
  "rows_wf rows \<longleftrightarrow> distinct (map pr_id rows) \<and>
     list_all (\<lambda>r. pr_id r = jb_id (pr_payload r) \<and> pr_status r = jb_status (pr_payload r)) rows"

lemma row_view_update:
  "row_view (updateJob job rows) = (if jb_id job \<in> dom (row_view rows) then (row_view rows)(jb_id job \<mapsto> job) else row_view rows)"
  by (induction rows) (auto simp: row_view_def updateJob_def fun_eq_iff domIff split: if_splits)

lemma ids_updateJob [simp]: "map pr_id (updateJob job rows) = map pr_id rows"
  by (simp add: updateJob_def)

lemma rows_wf_update: "rows_wf rows \<Longrightarrow> rows_wf (updateJob job rows)"
proof -
  have "list_all (\<lambda>r. pr_id r = jb_id (pr_payload r) \<and> pr_status r = jb_status (pr_payload r)) rows \<Longrightarrow>
      list_all (\<lambda>r. pr_id r = jb_id (pr_payload r) \<and> pr_status r = jb_status (pr_payload r)) (updateJob job rows)"
    by (induction rows) (simp_all add: updateJob_def)
  then show "rows_wf rows \<Longrightarrow> rows_wf (updateJob job rows)" by (simp add: rows_wf_def)
qed

lemma rows_wf_updates: "rows_wf rows \<Longrightarrow> rows_wf (fold updateJob js rows)"
  by (induction js arbitrary: rows) (simp_all add: rows_wf_update)

lemma row_view_Some: "rows_wf rows \<Longrightarrow> row_view rows i = Some j \<longleftrightarrow> (\<exists>r \<in> set rows. pr_id r = i \<and> pr_payload r = j)"
  by (auto simp: row_view_def rows_wf_def comp_def)

lemma decodeJob_ok: "rows_wf rows \<Longrightarrow> jobs_ok E (row_view rows) \<Longrightarrow> r \<in> set rows \<Longrightarrow> decodeJob E r = pr_payload r"
  using row_view_Some [of rows "pr_id r" "pr_payload r"] unfolding jobs_ok_def job_ok_def decodeJob_def by blast

lemma set_lockJobs:
  assumes "rows_wf rows" and "jobs_ok E (row_view rows)"
  shows "j \<in> set (lockJobs E rows) \<longleftrightarrow> (\<exists>i. row_view rows i = Some j \<and> occupies j)"
proof -
  have "j \<in> set (lockJobs E rows) \<longleftrightarrow> (\<exists>r \<in> set rows. (pr_status r = StatusPending \<or> pr_status r = StatusRunning) \<and> j = pr_payload r)"
    using decodeJob_ok [OF assms] by (auto simp: lockJobs_def image_iff)
  also have "\<dots> \<longleftrightarrow> (\<exists>r \<in> set rows. occupies (pr_payload r) \<and> j = pr_payload r)"
    using assms(1) by (auto simp: rows_wf_def list_all_iff occupies_def)
  finally show ?thesis unfolding row_view_Some [OF assms(1)] by auto
qed

lemma lockJobs_view:
  assumes "rows_wf rows" and "jobs_ok E (row_view rows)" and "j \<in> set (lockJobs E rows)"
  shows "row_view rows (jb_id j) = Some j"
  using set_lockJobs [OF assms(1,2)] assms(2,3) unfolding jobs_ok_def by blast

lemma expireTx_evolves:
  assumes "rows_wf rows" and "jobs_ok E (row_view rows)"
  shows "jobs_evolve E (row_view rows) (row_view (fst (expireTx E now rows)))" and "rows_wf (fst (expireTx E now rows))"
    and "map pr_id (fst (expireTx E now rows)) = map pr_id rows"
proof -
  let ?exp = "\<lambda>j. fst (expireJob E now j)"
  let ?rel = "\<lambda>rows'. \<forall>i. rel_option (\<lambda>j j'. j' = j \<or> j' = ?exp j) (row_view rows i) (row_view rows' i)"
  obtain cs where fold: "fst (expireTx E now rows) = fold updateJob cs rows"
    and cs: "set cs \<subseteq> ?exp ` set (lockJobs E rows)"
    by (rule that [of "map fst (filter (\<lambda>(_, n). n > 0) (map (expireJob E now) (lockJobs E rows)))"])
      (auto simp: expireTx_def Let_def)
  have upd: "?rel (updateJob c rows')" if rel: "?rel rows'" and c: "c \<in> ?exp ` set (lockJobs E rows)" for c rows'
  proof -
    obtain j where j: "j \<in> set (lockJobs E rows)" "c = ?exp j" using c by blast
    have look: "row_view rows (jb_id j) = Some j" by (rule lockJobs_view [OF assms j(1)])
    then have "job_ok E j" using assms(2) unfolding jobs_ok_def by blast
    then have "jb_id c = jb_id j" using expireJob_ok(3) j(2) by (simp add: same_job_def)
    then show ?thesis using rel look j(2) by (simp add: row_view_update)
  qed
  have "set cs \<subseteq> ?exp ` set (lockJobs E rows) \<Longrightarrow> ?rel rows' \<Longrightarrow> ?rel (fold updateJob cs rows')" for cs rows'
    by (induction cs arbitrary: rows') (use upd in simp_all)
  from this [OF cs, of rows] have rel: "?rel (fst (expireTx E now rows))" unfolding fold by (simp add: option.rel_refl)
  show "jobs_evolve E (row_view rows) (row_view (fst (expireTx E now rows)))"
    unfolding jobs_evolve_def
  proof
    fix i
    show "rel_option (job_step E)\<^sup>*\<^sup>* (row_view rows i) (row_view (fst (expireTx E now rows)) i)"
      by (rule option.rel_mono_strong [OF spec [OF rel, of i]]) (auto intro: step_expire)
  qed
  show "rows_wf (fst (expireTx E now rows))" unfolding fold by (rule rows_wf_updates [OF assms(1)])
  have "map pr_id (fold updateJob cs rows') = map pr_id rows'" for cs rows' by (induction cs arbitrary: rows') simp_all
  then show "map pr_id (fst (expireTx E now rows)) = map pr_id rows" unfolding fold .
qed


definition pg_view :: "pg_store \<Rightarrow> string \<rightharpoonup> job" where
  "pg_view p = row_view (pg_rows p)"

definition pg_wf :: "pg_store \<Rightarrow> bool" where
  "pg_wf p \<longleftrightarrow> rows_wf (pg_rows p)"

text \<open>Writing back the successor of a stored job.\<close>

lemma update_evolves:
  assumes "row_view rows (jb_id j) = Some j" and "job_step E j j'" and "jb_id j' = jb_id j"
  shows "jobs_evolve E (row_view rows) (row_view (updateJob j' rows))"
  using jobs_evolve_upd [of "row_view rows" "jb_id j" j E, OF assms(1) r_into_rtranclp [of "job_step E", OF assms(2)]] assms(1,3)
  by (simp add: row_view_update domIff)

lemma locked_step:
  assumes "rows_wf rows" and "jobs_ok E (row_view rows)" and "j \<in> set (lockJobs E rows)" and "job_step E j j'"
  shows "jobs_evolve E (row_view rows) (row_view (updateJob j' rows))"
proof -
  have look: "row_view rows (jb_id j) = Some j" by (rule lockJobs_view [OF assms(1-3)])
  then have "jb_id j' = jb_id j"
    using job_step_ok [OF assms(4)] assms(2) unfolding jobs_ok_def same_job_def by blast
  then show ?thesis by (rule update_evolves [OF look assms(4)])
qed

lemma pg_lease_evolves:
  assumes wf: "pg_wf p" and ok: "jobs_ok E (pg_view p)"
  shows "jobs_evolve E (pg_view p) (pg_view (snd (pg_lease E w now attempt p))) \<and> pg_wf (snd (pg_lease E w now attempt p))"
proof -
  let ?rows = "fst (expireTx E now (pg_rows p))"
  have wf0: "rows_wf (pg_rows p)" and ok0: "jobs_ok E (row_view (pg_rows p))"
    using wf ok by (simp_all add: pg_wf_def pg_view_def)
  note ev = expireTx_evolves(1) [OF wf0 ok0, of now] and wf1 = expireTx_evolves(2) [OF wf0 ok0, of now]
  have ok1: "jobs_ok E (row_view ?rows)" by (rule jobs_ok_evolve [OF ev ok0])
  have "jobs_evolve E (row_view ?rows) (row_view (updateJob (refreshJob E (j\<lparr>jb_tasks := (jb_tasks j)[ti := claim attempt wid now (jb_tasks j ! ti)]\<rparr>)) ?rows))"
    if wid: "worker_id w = Inr wid" and p: "pickReady (lockJobs E ?rows) want q = Some (ji, ti)"
      and j: "j = lockJobs E ?rows ! ji" for wid want q ji ti j
  proof -
    note pick = pickReady_Some [OF p, folded j]
    have mem: "j \<in> set (lockJobs E ?rows)" using pick j by simp
    have jok: "job_ok E j" using lockJobs_view [OF wf1 ok1 mem] ok1 unfolding jobs_ok_def by blast
    have "refreshJob E (j\<lparr>jb_tasks := (jb_tasks j)[ti := claim attempt wid now (jb_tasks j ! ti)]\<rparr>) = leaseJob attempt wid now ti j"
      using pick worker_id_Inr [OF wid] by (intro leaseJob_ok(5) [OF jok]) simp_all
    moreover have "job_step E j (leaseJob attempt wid now ti j)"
      using pick worker_id_Inr [OF wid] by (intro step_lease) simp_all
    ultimately show ?thesis using locked_step [OF wf1 ok1 mem] by simp
  qed
  note lease = jobs_evolve_trans [OF ev this]
  show ?thesis
    using ev wf0 ok wf wf1 lease rows_wf_update [OF wf1] unfolding pg_lease_def Let_def pg_view_def pg_wf_def
    by (auto split: sum.split option.split prod.split)
qed

lemma pg_heartbeat_evolves:
  assumes wf: "pg_wf p" and ok: "jobs_ok E (pg_view p)"
  shows "jobs_evolve E (pg_view p) (pg_view (snd (pg_heartbeat E t a w now p))) \<and> pg_wf (snd (pg_heartbeat E t a w now p))"
proof -
  have "jobs_evolve E (row_view (pg_rows p)) (row_view (updateJob (job\<lparr>jb_tasks := (jb_tasks job)[i := t']\<rparr>) (pg_rows p)))"
    if "findLocked tid (lockJobs E (pg_rows p)) = Some (job, i)" "applyHeartbeat aid w now (jb_tasks job ! i) = Inr t'" for tid aid job i t'
    using findLocked_Some [OF that(1)] locked_step [of "pg_rows p" E job, OF _ _ _ step_heartbeat [OF _ that(2)]] wf ok
    by (simp add: pg_wf_def pg_view_def)
  then show ?thesis
    using wf rows_wf_update unfolding pg_heartbeat_def pg_view_def pg_wf_def by (auto split: sum.split option.split prod.split)
qed

lemma pg_commit_evolves:
  assumes wf: "pg_wf p" and ok: "jobs_ok E (pg_view p)"
  shows "jobs_evolve E (pg_view p) (pg_view (snd (pg_commit E t a result fail p))) \<and> pg_wf (snd (pg_commit E t a result fail p))"
proof -
  have "jobs_evolve E (row_view (pg_rows p)) (row_view (updateJob (refreshJob E (job\<lparr>jb_tasks := (jb_tasks job)[i := t']\<rparr>)) (pg_rows p)))"
    if "findLocked tid (lockJobs E (pg_rows p)) = Some (job, i)" "applyCommit aid result fail (jb_tasks job ! i) = Inr t'" for tid aid job i t'
    using findLocked_Some [OF that(1)] locked_step [of "pg_rows p" E job, OF _ _ _ step_commit [OF _ that(2)]] wf ok
    by (simp add: pg_wf_def pg_view_def)
  then show ?thesis
    using wf rows_wf_update unfolding pg_commit_def Let_def pg_view_def pg_wf_def by (auto split: sum.split option.split prod.split)
qed

lemma pg_cancel_evolves:
  assumes wf: "pg_wf p" and ok: "jobs_ok E (pg_view p)"
  shows "jobs_evolve E (pg_view p) (pg_view (snd (pg_cancel E raw p))) \<and> pg_wf (snd (pg_cancel E raw p))"
proof -
  have wf0: "rows_wf (pg_rows p)" and ok0: "jobs_ok E (row_view (pg_rows p))"
    using wf ok by (simp_all add: pg_wf_def pg_view_def)
  have "jobs_evolve E (row_view (pg_rows p)) (row_view (updateJob (applyCancel E (decodeJob E r)) (pg_rows p)))"
    if "find (\<lambda>r. pr_id r = jid) (pg_rows p) = Some r" for jid r
  proof -
    have r: "r \<in> set (pg_rows p)" using that by (auto simp: find_Some_iff)
    have look: "row_view (pg_rows p) (pr_id r) = Some (pr_payload r)" using r row_view_Some [OF wf0] by blast
    then have jok: "job_ok E (pr_payload r)" "jb_id (pr_payload r) = pr_id r" using ok0 unfolding jobs_ok_def by blast+
    have "jb_id (applyCancel E (pr_payload r)) = jb_id (pr_payload r)"
      using cancel_step(3) [OF jok(1)] by (simp add: same_job_def)
    then show ?thesis
      using look jok(2) unfolding decodeJob_ok [OF wf0 ok0 r] by (intro update_evolves [OF _ step_cancel]) simp_all
  qed
  then show ?thesis
    using wf rows_wf_update unfolding pg_cancel_def Let_def pg_view_def pg_wf_def by (auto split: option.split)
qed


lemma pg_create_view:
  assumes wf: "pg_wf p" and ok: "jobs_ok E (pg_view p)"
  shows "snd (pg_create E v b now jid opts p) = p \<or>
    (\<exists>rows j. rows_wf rows \<and> jobs_evolve E (pg_view p) (row_view rows) \<and> buildJob E v b jid opts = Inr j \<and>
       jid \<notin> set (map pr_id rows) \<and> \<not> gatewayBusy E (lockJobs E rows) j \<and> \<not> overActive (lockJobs E rows) j (pg_quota p) \<and>
       snd (pg_create E v b now jid opts p) = p\<lparr>pg_rows := rows @ [\<lparr>pr_id = jid, pr_created = jb_created j,
         pr_status = jb_status j, pr_validated = jb_validated j, pr_payload = j\<rparr>]\<rparr>)"
proof (cases "buildJob E v b jid opts")
  case (Inr j)
  have "jb_id j = jid" by (rule buildJob_Inr(1) [OF Inr])
  moreover have "rows_wf (fst (expireTx E now (pg_rows p)))" "jobs_evolve E (pg_view p) (row_view (fst (expireTx E now (pg_rows p))))"
    using expireTx_evolves [of "pg_rows p" E now] wf ok by (simp_all add: pg_wf_def pg_view_def)
  ultimately show ?thesis
    unfolding pg_create_def Inr sum.case Let_def by auto
qed (simp add: pg_create_def)

lemma pg_step_cases:
  assumes wf: "pg_wf p" and ok: "jobs_ok E (pg_view p)"
  obtains (evolve) "jobs_evolve E (pg_view p) (pg_view (pg_step E op p))" "pg_wf (pg_step E op p)"
  | (new) rows j v b jid opts where "rows_wf rows" "jobs_evolve E (pg_view p) (row_view rows)" "buildJob E v b jid opts = Inr j"
      "jid \<notin> set (map pr_id rows)" "\<not> gatewayBusy E (lockJobs E rows) j" "\<not> overActive (lockJobs E rows) j (pg_quota p)"
      "pg_step E op p = p\<lparr>pg_rows := rows @ [\<lparr>pr_id = jid, pr_created = jb_created j,
         pr_status = jb_status j, pr_validated = jb_validated j, pr_payload = j\<rparr>]\<rparr>"
proof (cases op)
  case (OpCreate v b now jid ks opts)
  from pg_create_view [OF assms, of v b now jid opts] show thesis
  proof (elim disjE exE conjE)
    assume "snd (pg_create E v b now jid opts p) = p"
    then show thesis using evolve OpCreate wf by simp
  next
    fix rows j
    assume "rows_wf rows" "jobs_evolve E (pg_view p) (row_view rows)" "buildJob E v b jid opts = Inr j"
      "jid \<notin> set (map pr_id rows)" "\<not> gatewayBusy E (lockJobs E rows) j" "\<not> overActive (lockJobs E rows) j (pg_quota p)"
      "snd (pg_create E v b now jid opts p) = p\<lparr>pg_rows := rows @ [\<lparr>pr_id = jid, pr_created = jb_created j,
         pr_status = jb_status j, pr_validated = jb_validated j, pr_payload = j\<rparr>]\<rparr>"
    then show thesis using new OpCreate by simp
  qed
next
  case (OpRequeue now ks)
  have "snd (pg_requeue E now p) = p\<lparr>pg_rows := fst (expireTx E now (pg_rows p))\<rparr>"
    by (simp add: pg_requeue_def split_beta Let_def)
  then show thesis
    using evolve OpRequeue expireTx_evolves [of "pg_rows p" E now] wf ok by (simp add: pg_wf_def pg_view_def)
qed (use evolve pg_lease_evolves [OF assms] pg_heartbeat_evolves [OF assms] pg_commit_evolves [OF assms]
      pg_cancel_evolves [OF assms] in simp_all)

lemma pg_quota_step: "pg_quota (pg_step E op p) = pg_quota p"
  by (cases op)
    (simp_all add: pg_create_def pg_lease_def pg_heartbeat_def pg_commit_def pg_cancel_def pg_requeue_def Let_def split_beta
      split: sum.split option.split)

lemma pg_new_job:
  assumes wf: "rows_wf rows" and ok: "jobs_ok E (row_view rows)" and built: "buildJob E v b jid opts = Inr j"
    and new: "jid \<notin> set (map pr_id rows)"
    and free: "\<not> gatewayBusy E (lockJobs E rows) j" and below: "\<not> overActive (lockJobs E rows) j q"
  shows "\<And>k j'. row_view rows k = Some j' \<Longrightarrow> occupies j' \<Longrightarrow> set (occupancyKeys E j) \<inter> set (occupancyKeys E j') = {}"
    and "int (card (active_ids (row_view rows) (jb_service j))) < qt_active_jobs (normalized q)"
proof -
  have id: "jb_id j = jid" by (rule buildJob_Inr(1) [OF built])
  have old: "j' \<in> set (lockJobs E rows) \<and> jb_id j' = k \<and> k \<noteq> jb_id j" if "row_view rows k = Some j'" "occupies j'" for k j'
  proof -
    have "k \<in> set (map pr_id rows)" using that(1) row_view_Some [OF wf, of k j'] by auto
    then have "k \<noteq> jb_id j" using new id by blast
    then show ?thesis using that set_lockJobs [OF wf ok, of j'] ok unfolding jobs_ok_def by blast
  qed
  show "int (card (active_ids (row_view rows) (jb_service j))) < qt_active_jobs (normalized q)"
    by (rule overActive_below [OF below]) (rule old)
  fix k j' assume j': "row_view rows k = Some j'" "occupies j'"
  show "set (occupancyKeys E j) \<inter> set (occupancyKeys E j') = {}"
    by (rule gatewayBusy_free [OF free occupancyKeys_nonempty [OF built]]) (use old [OF j'] j'(2) in auto)
qed

lemma row_view_append: "r \<notin> set (map pr_id rows) \<Longrightarrow> row_view (rows @ [\<lparr>pr_id = r, pr_created = c, pr_status = s, pr_validated = vd, pr_payload = j\<rparr>])
    = (row_view rows)(r \<mapsto> j)"
  by (induction rows) (auto simp: row_view_def fun_eq_iff)

interpretation pg: job_store E "pg_step E" pg_view pg_wf "\<lambda>_ _. True" "\<lambda>p. qt_active_jobs (normalized (pg_quota p))"
  for E :: net_env
proof
  fix s op assume wf: "pg_wf s" and ok: "jobs_ok E (pg_view s)"
  show "pg_wf (pg_step E op s)"
    using wf ok
  proof (cases rule: pg_step_cases [where op = op])
    case (new rows j v b jid opts)
    have "jb_id j = jid" by (rule buildJob_Inr(1) [OF new(3)])
    then show ?thesis using new(1,4) by (simp add: new(7) pg_wf_def rows_wf_def)
  qed
  show "jobs_evolve E (pg_view s) (pg_view (pg_step E op s)) \<or>
      (\<exists>f i j. jobs_evolve E (pg_view s) f \<and> f i = None \<and> pg_view (pg_step E op s) = f(i \<mapsto> j) \<and>
         (\<exists>vnow now opts. buildJob E vnow now i opts = Inr j) \<and>
         (\<forall>k j'. f k = Some j' \<longrightarrow> occupies j' \<longrightarrow> set (occupancyKeys E j) \<inter> set (occupancyKeys E j') = {}) \<and>
         int (card (active_ids f (jb_service j))) < qt_active_jobs (normalized (pg_quota s)))"
    using wf ok
  proof (cases rule: pg_step_cases [where op = op])
    case (new rows j v b jid opts)
    have ok1: "jobs_ok E (row_view rows)" by (rule jobs_ok_evolve [OF new(2) ok])
    have none: "row_view rows jid = None"
      using new(4) row_view_Some [OF new(1), of jid] by (cases "row_view rows jid") auto
    have view: "pg_view (pg_step E op s) = (row_view rows)(jid \<mapsto> j)"
      unfolding pg_view_def new(7) by (simp add: row_view_append [OF new(4)])
    show ?thesis
      by (rule disjI2, rule exI [of _ "row_view rows"], rule exI [of _ jid], rule exI [of _ j])
        (use pg_new_job [OF new(1) ok1 new(3-6)] new(2,3) none view in auto)
  qed simp
next
  fix s assume "pg_wf s"
  show "finite (dom (pg_view s))" by (simp add: pg_view_def row_view_def finite_dom_map_of)
qed (simp add: pg_quota_step)

end
