(* ===== verification/Job_Fabric.thy ===== *)
theory Job_Fabric
  imports Postgres_Laws
begin

text \<open>
  What the job fabric guarantees through its stores, for every sequence of operations: gateways are exclusive,
  quotas are kept, stored jobs are never lost and only move forward, and a worker of the in-memory store never
  holds more tasks than the largest slot limit. A concrete run shows where the database store differs.
\<close>

section \<open>Worker capacity\<close>

definition held :: "string \<Rightarrow> job \<Rightarrow> nat" where
  "held w j = length (filter (heldBy w) (jb_tasks j))"

lemma countLeased_held: "countLeased js w = int (sum_list (map (held w) js))"
proof -
  have "length (filter (heldBy w) (concat (map jb_tasks js))) = sum_list (map (held w) js)"
    by (induction js) (simp_all add: held_def)
  then show ?thesis by (simp add: countLeased_def)
qed

text \<open>Steps that claim nothing.\<close>

lemma held_mono:
  "list_all2 (\<lambda>t t'. heldBy w t' \<longrightarrow> heldBy w t) ts ts' \<Longrightarrow> length (filter (heldBy w) ts') \<le> length (filter (heldBy w) ts)"
  by (induction rule: list_all2_induct) auto

lemma settles_held: "settles t t' \<Longrightarrow> heldBy w t' \<longrightarrow> heldBy w t"
  unfolding settles_def by (elim disjE conjE) (simp_all add: heldBy_def)

lemma held_refreshJob: "held w (refreshJob E j) \<le> held w j"
  unfolding held_def refreshJob_simps
  by (rule held_mono) (rule list_all2_mono [OF settle_settles settles_held])

lemma held_map:
  assumes "\<And>t. heldBy w (f t) \<Longrightarrow> heldBy w t"
  shows "length (filter (heldBy w) (map f ts)) \<le> length (filter (heldBy w) ts)"
  by (rule held_mono) (simp add: list.rel_map list_all2_same assms)

lemma held_requeue: "heldBy w (fst (requeue now c t)) \<Longrightarrow> heldBy w t"
  by (simp add: heldBy_def requeue_def split: if_splits)

lemma held_deadlineTask: "heldBy w (deadlineTask t) \<Longrightarrow> heldBy w t"
  by (simp add: heldBy_def deadlineTask_def split: if_splits)

lemma held_cancelTask: "heldBy w (cancelTask t) \<Longrightarrow> heldBy w t"
  by (simp add: heldBy_def cancelTask_def split: if_splits)

lemma held_expireJob: "held w (fst (expireJob E now j)) \<le> held w j"
proof (cases "failDeadline E now j")
  case None
  let ?us = "map (\<lambda>t. fst (requeue now (jb_canceled j) t)) (jb_tasks j)"
  have e: "map fst (map (requeue now (jb_canceled j)) (jb_tasks j)) = ?us" by simp
  have "held w (refreshJob E (j\<lparr>jb_tasks := ?us\<rparr>)) \<le> held w (j\<lparr>jb_tasks := ?us\<rparr>)" by (rule held_refreshJob)
  also have "\<dots> \<le> held w j"
    using held_map [of w "\<lambda>t. fst (requeue now (jb_canceled j) t)" "jb_tasks j", OF held_requeue] by (simp add: held_def)
  finally show ?thesis unfolding fst_expireJob None option.case e by simp
next
  case (Some j')
  then have "jb_tasks j' = map deadlineTask (jb_tasks j)"
    unfolding failDeadline_def by (simp split: option.splits if_splits) auto
  then show ?thesis
    using held_map [of w deadlineTask "jb_tasks j", OF held_deadlineTask] Some by (simp add: fst_expireJob held_def)
qed

lemma held_update:
  assumes "heldBy w t' \<Longrightarrow> heldBy w (jb_tasks j ! i)"
  shows "held w (j\<lparr>jb_tasks := (jb_tasks j)[i := t']\<rparr>) \<le> held w j"
  unfolding held_def by (simp, rule held_mono, rule list_all2_update) (use assms in auto)

lemma held_applyCancel: "held w (applyCancel E j) \<le> held w j"
proof (cases "finished j")
  case False
  let ?j = "j\<lparr>jb_canceled := True, jb_tasks := map cancelTask (jb_tasks j)\<rparr>"
  have "held w (refreshJob E ?j) \<le> held w ?j" by (rule held_refreshJob)
  also have "\<dots> \<le> held w j"
    using held_map [of w cancelTask "jb_tasks j", OF held_cancelTask] by (simp add: held_def)
  finally show ?thesis using False by (simp add: applyCancel_def)
qed (simp add: applyCancel_def)

lemma held_leaseJob: "held w (leaseJob a w' now ti j) \<le> Suc (held w j)"
proof (cases "ti < length (jb_tasks j)")
  case True
  have "length (filter (heldBy w) (take ti (jb_tasks j) @ drop (Suc ti) (jb_tasks j))) \<le> length (filter (heldBy w) (jb_tasks j))"
    using arg_cong [OF id_take_nth_drop [OF True], of "\<lambda>ts. length (filter (heldBy w) ts)"] by (simp split: if_splits)
  then show ?thesis
    by (simp add: held_def leaseJob_def Let_def upd_conv_take_nth_drop [OF True])
qed (simp add: held_def leaseJob_def Let_def not_less list_update_beyond)

text \<open>Sums over the stored jobs.\<close>

definition mem_held :: "string \<Rightarrow> mem_store \<Rightarrow> nat" where
  "mem_held w m = sum_list (map (held w) (mem_jobs m))"

lemma mem_held_keys: "mem_held w m = sum_list (map (\<lambda>i. case ms_by_id m i of Some j \<Rightarrow> held w j | None \<Rightarrow> 0) (ms_order m))"
proof -
  have "sum_list (map (held w) (List.map_filter f is)) = sum_list (map (\<lambda>i. case f i of Some j \<Rightarrow> held w j | None \<Rightarrow> 0) is)" for f and "is" :: "string list"
    by (induction "is") (simp_all add: List.map_filter_simps split: option.split)
  then show ?thesis by (simp add: mem_held_def mem_jobs_def)
qed

lemma mem_held_pointwise:
  assumes "ms_order m' = ms_order m" and "\<And>i. rel_option (\<lambda>j j'. held w j' \<le> held w j) (ms_by_id m i) (ms_by_id m' i)"
  shows "mem_held w m' \<le> mem_held w m"
  unfolding mem_held_keys assms(1)
proof (rule sum_list_mono)
  fix i
  show "(case ms_by_id m' i of Some j \<Rightarrow> held w j | None \<Rightarrow> 0) \<le> (case ms_by_id m i of Some j \<Rightarrow> held w j | None \<Rightarrow> 0)"
    using assms(2) [of i] by (cases "ms_by_id m i"; cases "ms_by_id m' i") simp_all
qed

lemma mem_held_upd:
  assumes "ms_by_id m k = Some j" and "held w j' \<le> held w j"
  shows "mem_held w (m\<lparr>ms_by_id := (ms_by_id m)(k \<mapsto> j')\<rparr>) \<le> mem_held w m"
  by (rule mem_held_pointwise) (use assms in \<open>simp_all add: option.rel_refl\<close>)

lemma mem_held_requeue: "mem_held w (fst (requeueExpiredLocked E now ks m)) \<le> mem_held w m"
proof -
  let ?f = "\<lambda>k (m, n). case ms_by_id m k of None \<Rightarrow> (m, n)
     | Some job \<Rightarrow> (let (job', d) = expireJob E now job in (m\<lparr>ms_by_id := (ms_by_id m)(k \<mapsto> job')\<rparr>, n + d))"
  have "mem_held w (fst (fold ?f ks (m, 0))) \<le> mem_held w m"
  proof (rule fold_invariant [where Q = "\<lambda>_. True" and P = "\<lambda>p. mem_held w (fst p) \<le> mem_held w m"])
    fix k and p :: "mem_store \<times> nat" assume P: "mem_held w (fst p) \<le> mem_held w m"
    obtain m' n where p: "p = (m', n)" by (cases p)
    show "mem_held w (fst (?f k p)) \<le> mem_held w m"
    proof (cases "ms_by_id m' k")
      case (Some job)
      then show ?thesis
        using P mem_held_upd [OF Some held_expireJob [of w E now job]] by (simp add: p split_beta Let_def)
    qed (use P p in simp)
  qed simp_all
  then show ?thesis by (simp add: requeueExpiredLocked_def)
qed

lemma mem_held_lease:
  assumes "distinct (ms_order m)" and "ms_by_id m k = Some j" and "held w j' \<le> Suc (held w j)"
  shows "mem_held w (m\<lparr>ms_by_id := (ms_by_id m)(k \<mapsto> j')\<rparr>) \<le> Suc (mem_held w m)"
proof -
  let ?g = "\<lambda>f i. case f i of Some j \<Rightarrow> held w j | None \<Rightarrow> (0::nat)"
  let ?f = "ms_by_id m"
  have "sum_list (map (?g (?f(k \<mapsto> j'))) is) \<le> sum_list (map (?g ?f) is) + (if k \<in> set is then 1 else 0)" if "distinct is" for "is"
    using that
  proof (induction "is")
    case (Cons i "is")
    then show ?case using assms(2,3) by (cases "i = k") auto
  qed simp
  from this [OF assms(1)] show ?thesis unfolding mem_held_keys by (simp split: if_splits)
qed


lemma held_built:
  assumes "buildJob E v b jid opts = Inr j"
  shows "held w j = 0"
proof -
  have "list_all2 settles (map (\<lambda>(i, s). newTask jid i s) (enumerate 0 (dg_steps (co_plan opts)))) (jb_tasks j)"
    unfolding buildJob_Inr(3) [OF assms] by (rule settle_settles)
  from held_mono [OF list_all2_mono [OF this settles_held], of w] show ?thesis
    by (simp add: held_def filter_empty_conv heldBy_def newTask_def split_beta)
qed

lemma mem_held_heartbeat: "mem_held w (snd (mem_heartbeat t a wid now ks m)) \<le> mem_held w m"
proof -
  have "mem_held w (m\<lparr>ms_by_id := (ms_by_id m)(k \<mapsto> job\<lparr>jb_tasks := (jb_tasks job)[i := t']\<rparr>)\<rparr>) \<le> mem_held w m"
    if "findTask (ms_by_id m) tid ks = Some (k, job, i)" "applyHeartbeat aid wid now (jb_tasks job ! i) = Inr t'" for tid aid k job i t'
  proof (rule mem_held_upd)
    show "ms_by_id m k = Some job" using findTask_Some [OF that(1)] by simp
    show "held w (job\<lparr>jb_tasks := (jb_tasks job)[i := t']\<rparr>) \<le> held w job"
      by (rule held_update) (use that(2) in \<open>auto simp: applyHeartbeat_def heldBy_def split: if_splits\<close>)
  qed
  then show ?thesis by (simp add: mem_heartbeat_def split: sum.split option.split prod.split)
qed

lemma mem_held_commit: "mem_held w (snd (mem_commit E t a result fail ks m)) \<le> mem_held w m"
proof -
  have "mem_held w (m\<lparr>ms_by_id := (ms_by_id m)(k \<mapsto> refreshJob E (job\<lparr>jb_tasks := (jb_tasks job)[i := t']\<rparr>))\<rparr>) \<le> mem_held w m"
    if "findTask (ms_by_id m) tid ks = Some (k, job, i)" "applyCommit aid result fail (jb_tasks job ! i) = Inr t'" for tid aid k job i t'
  proof (rule mem_held_upd)
    show "ms_by_id m k = Some job" using findTask_Some [OF that(1)] by simp
    have "held w (job\<lparr>jb_tasks := (jb_tasks job)[i := t']\<rparr>) \<le> held w job"
      by (rule held_update) (use that(2) in \<open>auto simp: applyCommit_def heldBy_def split: if_splits\<close>)
    then show "held w (refreshJob E (job\<lparr>jb_tasks := (jb_tasks job)[i := t']\<rparr>)) \<le> held w job"
      by (rule le_trans [OF held_refreshJob])
  qed
  then show ?thesis by (simp add: mem_commit_def Let_def split: sum.split option.split prod.split)
qed

lemma mem_held_cancel: "mem_held w (snd (mem_cancel E raw m)) \<le> mem_held w m"
  using mem_held_upd [OF _ held_applyCancel] by (simp add: mem_cancel_def Let_def split: option.split)

lemma mem_held_create:
  assumes "jid \<notin> set (ms_order m)"
  shows "mem_held w (snd (mem_create E v b now jid ks opts m)) \<le> mem_held w m"
proof -
  let ?m1 = "fst (requeueExpiredLocked E now ks m)"
  have order: "ms_order ?m1 = ms_order m" using requeue_mem_evolves [of E m now ks] by (simp add: mem_evolves_def)
  have "mem_held w (?m1\<lparr>ms_by_id := (ms_by_id ?m1)(jb_id j \<mapsto> j), ms_order := ms_order ?m1 @ [jb_id j]\<rparr>) = mem_held w ?m1"
    if "buildJob E v b jid opts = Inr j" for j
  proof -
    have "jb_id j \<notin> set (ms_order ?m1)" using assms order buildJob_Inr(1) [OF that] by simp
    then have "sum_list (map (\<lambda>i. case ((ms_by_id ?m1)(jb_id j \<mapsto> j)) i of Some j \<Rightarrow> held w j | None \<Rightarrow> 0) (ms_order ?m1)) =
        sum_list (map (\<lambda>i. case ms_by_id ?m1 i of Some j \<Rightarrow> held w j | None \<Rightarrow> 0) (ms_order ?m1))"
      by (intro arg_cong [of _ _ sum_list] map_cong) auto
    then show ?thesis unfolding mem_held_keys by (simp add: held_built [OF that])
  qed
  then show ?thesis
    using mem_held_requeue [of w E now ks m] by (simp add: mem_create_def Let_def split: sum.split)
qed

lemma mem_held_mem_lease:
  assumes wf: "mem_wf m" and ok: "jobs_ok E (ms_by_id m)" and held: "mem_held w m \<le> 8"
  shows "mem_held w (snd (mem_lease E wk now attempt ks m)) \<le> 8"
proof -
  let ?m1 = "fst (requeueExpiredLocked E now ks m)"
  have le: "mem_held w ?m1 \<le> 8" by (rule le_trans [OF mem_held_requeue held])
  have ev: "mem_evolves E m ?m1" by (rule requeue_mem_evolves)
  have wf1: "mem_wf ?m1" and ok1: "jobs_ok E (ms_by_id ?m1)"
    using ev mem_wf_evolve [OF wf] jobs_ok_evolve [OF _ ok] unfolding mem_evolves_def by blast+
  have "mem_held w (?m1\<lparr>ms_by_id := (ms_by_id ?m1)(jb_id job \<mapsto> job)\<rparr>) \<le> 8"
    if p: "pickReady (mem_jobs ?m1) want q = Some (ji, ti)" and job: "job = leaseJob attempt wid now ti (mem_jobs ?m1 ! ji)"
      and room: "\<not> worker_slots wk \<le> countLeased (mem_jobs ?m1) wid" for want q ji ti job wid
  proof -
    let ?j = "mem_jobs ?m1 ! ji"
    have "?j \<in> set (mem_jobs ?m1)" using pickReady_Some [OF p] by simp
    then have look: "ms_by_id ?m1 (jb_id job) = Some ?j"
      using set_mem_jobs [OF wf1] ok1 unfolding jobs_ok_def job leaseJob_def Let_def by auto
    have dist: "distinct (ms_order ?m1)" using wf1 by (simp add: mem_wf_def)
    show ?thesis
    proof (cases "w = wid")
      case True
      have "mem_held w ?m1 < 8"
        using room True by (simp add: countLeased_held mem_held_def worker_slots_def split: if_splits)
      moreover have "held w job \<le> Suc (held w ?j)" unfolding job by (rule held_leaseJob)
      ultimately show ?thesis using mem_held_lease [OF dist look, of w job] by simp
    next
      case False
      have "held w job \<le> held w ?j"
        unfolding job leaseJob_def Let_def held_def
        by (simp, rule held_mono, rule list_all2_update) (use False in \<open>simp_all add: heldBy_def claim_def\<close>)
      from mem_held_upd [OF look this] show ?thesis using le by simp
    qed
  qed
  then show ?thesis
    using held le by (simp add: mem_lease_def Let_def split: sum.split option.split prod.split)
qed

lemma mem_held_step:
  assumes "mem_wf m" and "jobs_ok E (ms_by_id m)" and "mem_fresh m op" and "mem_held w m \<le> 8"
  shows "mem_held w (mem_step E op m) \<le> 8"
  using assms mem_held_mem_lease
  by (cases op)
    (auto intro: le_trans [OF mem_held_create] le_trans [OF mem_held_heartbeat] le_trans [OF mem_held_commit]
      le_trans [OF mem_held_requeue] le_trans [OF mem_held_cancel])

section \<open>Runs of operations\<close>

lemma mem_good_init: "mem.good E (NewMemory q)"
  unfolding mem.good_def
  by (simp add: NewMemory_def mem_wf_def jobs_ok_def exclusive_def within_quota_def active_ids_def normalized_def)

lemma pg_good_init: "pg.good E (NewPostgres q)"
  unfolding pg.good_def
  by (simp add: NewPostgres_def pg_wf_def pg_view_def row_view_def rows_wf_def jobs_ok_def exclusive_def
      within_quota_def active_ids_def normalized_def)

lemma pg_admissible: "admissible (pg_step E) (\<lambda>_ _. True) p ops"
  by (induction ops arbitrary: p) simp_all

lemma mem_cap_run: "ms_quota (fold (mem_step E) ops m) = ms_quota m"
  by (induction ops arbitrary: m) (simp_all add: mem_quota_step)

lemma pg_cap_run: "pg_quota (fold (pg_step E) ops p) = pg_quota p"
  by (induction ops arbitrary: p) (simp_all add: pg_quota_step)

lemma mem_run_held:
  "mem.good E m \<Longrightarrow> admissible (mem_step E) mem_fresh m ops \<Longrightarrow> mem_held w m \<le> 8 \<Longrightarrow> mem_held w (fold (mem_step E) ops m) \<le> 8"
proof (induction ops arbitrary: m)
  case (Cons op ops)
  have "mem_held w (mem_step E op m) \<le> 8"
    using mem_held_step [of m E op w] Cons.prems by (simp add: mem.good_def)
  then show ?case using Cons mem.good_step by simp
qed simp


text \<open>Two jobs with independent steps on four gateways, and the worker requests of the examples.\<close>

definition fabric_opts :: "string \<Rightarrow> string \<Rightarrow> create_opts" where
  "fabric_opts a b = demo_opts\<lparr>co_baseline := a, co_patch := b,
     co_plan := (co_plan demo_opts)\<lparr>dg_steps := map (\<lambda>s. s\<lparr>ps_depends_on := []\<rparr>) (dg_steps (co_plan demo_opts))\<rparr>\<rparr>"

definition one_slot :: "string \<Rightarrow> worker" where
  "one_slot w = \<lparr>wk_id = w, wk_slots = 1, wk_job_id = []\<rparr>"

definition overbook_ops :: "store_op list" where
  "overbook_ops =
     (let a = ''aaaaaaaaaaaaaaaa''; b = ''bbbbbbbbbbbbbbbb''; ks = [a, b]
      in [OpCreate 5 5 5 a [] (fabric_opts ''http://a:1'' ''http://b:2''),
          OpCreate 6 1000006 6 b [a] (fabric_opts ''http://c:3'' ''http://d:4''),
          OpLease (one_slot ''w1'') 7 ''1111111111111111'' ks,
          OpLease (one_slot ''w2'') 8 ''2222222222222222'' ks,
          OpCommit ''aaaaaaaaaaaa0001'' ''2222222222222222'' (mk_result [] [] [] []) ''boom'' ks,
          OpLease (one_slot ''w1'') 9 ''3333333333333333'' ks])"

definition no_quota :: quota where
  "no_quota = \<lparr>qt_active_jobs = 0, qt_leased_tasks = 0\<rparr>"

lemma overbook_admissible: "admissible (mem_step demo_net) mem_fresh (NewMemory no_quota) overbook_ops"
  by code_simp

text \<open>
  The database store does not enforce a worker's slot limit across failed jobs: in a run in which every lease
  request asks for one slot, worker \<open>w1\<close> ends up holding two leased tasks, because the tasks it holds in a failed
  job are not counted. On the same operations the in-memory store refuses the second lease.
\<close>

lemma pg_overbooks_worker:
  "countLeased (map pr_payload (pg_rows (fold (pg_step demo_net) overbook_ops (NewPostgres no_quota)))) ''w1'' = 2 \<and>
   countLeased (mem_jobs (fold (mem_step demo_net) overbook_ops (NewMemory no_quota))) ''w1'' = 1"
proof
  show "countLeased (map pr_payload (pg_rows (fold (pg_step demo_net) overbook_ops (NewPostgres no_quota)))) ''w1'' = 2"
    by code_simp
  show "countLeased (mem_jobs (fold (mem_step demo_net) overbook_ops (NewMemory no_quota))) ''w1'' = 1"
    by code_simp
qed

text \<open>
  C34: The in-memory store is safe for every sequence of operations in which new ids are fresh: no two unfinished
  jobs share a gateway, no service exceeds its quota of unfinished jobs, and every stored job satisfies its
  invariant (in particular none is validated).
\<close>

theorem mem_store_safe:
  assumes "admissible (mem_step E) mem_fresh (NewMemory q) ops"
  shows "exclusive E (ms_by_id (fold (mem_step E) ops (NewMemory q))) \<and>
    within_quota (qt_active_jobs (normalized q)) (ms_by_id (fold (mem_step E) ops (NewMemory q))) \<and>
    jobs_ok E (ms_by_id (fold (mem_step E) ops (NewMemory q)))"
  using mem.good_run [OF mem_good_init assms] mem_cap_run [of E ops "NewMemory q"]
  unfolding mem.good_def by (simp add: NewMemory_def)

theorem mem_store_safe_witness:
  "exclusive demo_net (ms_by_id (fold (mem_step demo_net) overbook_ops (NewMemory no_quota))) \<and>
   within_quota (qt_active_jobs (normalized no_quota)) (ms_by_id (fold (mem_step demo_net) overbook_ops (NewMemory no_quota))) \<and>
   jobs_ok demo_net (ms_by_id (fold (mem_step demo_net) overbook_ops (NewMemory no_quota)))"
  by (rule mem_store_safe [OF overbook_admissible])

text \<open>
  The database store is safe for every sequence of operations, without any assumption on ids.
\<close>

lemma pg_safe:
  "exclusive E (pg_view (fold (pg_step E) ops (NewPostgres q))) \<and>
   within_quota (qt_active_jobs (normalized q)) (pg_view (fold (pg_step E) ops (NewPostgres q))) \<and>
   jobs_ok E (pg_view (fold (pg_step E) ops (NewPostgres q)))"
  using pg.good_run [OF pg_good_init [of E q] pg_admissible [of E "NewPostgres q" ops]] pg_cap_run [of E ops "NewPostgres q"]
  unfolding pg.good_def by (simp add: NewPostgres_def)

text \<open>
  The database store never loses a job: a job stored at some point is still stored after any further
  operations, and got there by steps of its life cycle only.
\<close>

lemma pg_jobs_persist:
  assumes "pg_view (fold (pg_step E) ops (NewPostgres q)) i = Some j"
  shows "\<exists>j'. pg_view (fold (pg_step E) (ops @ later) (NewPostgres q)) i = Some j' \<and> (job_step E)\<^sup>*\<^sup>* j j'"
  using pg.run_keeps [OF pg.good_run [OF pg_good_init pg_admissible] pg_admissible assms, of later] by simp

text \<open>
  C35: In the in-memory store no worker ever holds more than eight leased tasks, the largest slot limit, whatever
  it asks for.
\<close>

theorem mem_worker_capacity:
  assumes "admissible (mem_step E) mem_fresh (NewMemory q) ops"
  shows "countLeased (mem_jobs (fold (mem_step E) ops (NewMemory q))) w \<le> 8"
  using mem_run_held [OF mem_good_init assms, of w]
  by (simp add: countLeased_held mem_held_def NewMemory_def mem_jobs_def List.map_filter_simps)

theorem mem_worker_capacity_witness:
  "countLeased (mem_jobs (fold (mem_step demo_net) overbook_ops (NewMemory no_quota))) ''w1'' \<le> 8"
  by (rule mem_worker_capacity [OF overbook_admissible])

end
