(* ===== verification/Worker.thy ===== *)
theory Worker
  imports Cache_Laws Job_Fabric
begin

text \<open>
  The worker, \<open>internal/worker\<close>: one round of leasing, executing and committing against a store (\<open>execute.go\<close>), the
  service that offers the store over gRPC (\<open>rpc.go\<close>) behind a token (\<open>auth.go\<close>), and the same round over a connection
  (\<open>server.go\<close>). A call over a connection is the call of the handler; transport errors are the errors of \<open>worker_conn\<close>.
  What happens to the store while a task executes (its heartbeats and the calls of others) is the argument
  \<open>meanwhile\<close>.
\<close>

section \<open>A round against a store\<close>

text \<open>The operations of \<open>jobs.Store\<close> that a worker calls.\<close>

record 's worker_store =
  ws_lease :: "worker \<Rightarrow> time \<Rightarrow> 's \<Rightarrow> (job_error + lease) \<times> 's"
  ws_heartbeat :: "string \<Rightarrow> string \<Rightarrow> string \<Rightarrow> time \<Rightarrow> 's \<Rightarrow> job_error option \<times> 's"
  ws_commit :: "string \<Rightarrow> string \<Rightarrow> step_result \<Rightarrow> string \<Rightarrow> 's \<Rightarrow> (job_error + task) \<times> 's"

definition cacheFromEnv :: "'w file_os \<Rightarrow> string \<Rightarrow> 'w \<Rightarrow> cache option \<times> 'w" where
  "cacheFromEnv os dir w =
     (let root = trim_space dir
      in if root = [] then (None, w)
         else (case actionOpen os root w of (Inl _, w1) \<Rightarrow> (None, w1) | (Inr c, w1) \<Rightarrow> (Some c, w1)))"

definition workerExecute :: "exec_env \<Rightarrow> cache_env \<Rightarrow> 'w file_os \<Rightarrow> string \<Rightarrow> lease \<Rightarrow> 'w \<Rightarrow> (error + step_result) \<times> 'w" where
  "workerExecute X C os dir l w = (let (cache, w1) = cacheFromEnv os dir w in ExecuteWith X C os cache l w1)"

text \<open>The heartbeats of a lease at the ticks \<open>nows\<close>.\<close>

definition heartbeats :: "'s worker_store \<Rightarrow> string \<Rightarrow> string \<Rightarrow> string \<Rightarrow> time list \<Rightarrow> 's \<Rightarrow> 's" where
  "heartbeats S tid attempt wid nows s = fold (\<lambda>now s. snd (ws_heartbeat S tid attempt wid now s)) nows s"

definition failedResult :: "lease \<Rightarrow> step_result" where
  "failedResult l = mk_result (tk_plan_id (le_task l)) (tk_kind (le_task l)) ''incomplete'' []"

definition errorText :: "error \<Rightarrow> string" where
  "errorText e = (case e of Errorf m \<Rightarrow> m)"

definition workerOnce :: "'s worker_store \<Rightarrow> (lease \<Rightarrow> 'w \<Rightarrow> (error + step_result) \<times> 'w) \<Rightarrow> ('s \<Rightarrow> 's) \<Rightarrow> time \<Rightarrow> string \<Rightarrow> 's \<Rightarrow> 'w \<Rightarrow> job_error option \<times> 's \<times> 'w" where
  "workerOnce S exec meanwhile now wid s w =
     (case ws_lease S \<lparr>wk_id = wid, wk_slots = 0, wk_job_id = []\<rparr> now s of
        (Inl e, s1) \<Rightarrow> (Some e, s1, w)
      | (Inr l, s1) \<Rightarrow>
          (case exec l w of
             (r, w1) \<Rightarrow>
               (let (res, fail) = (case r of Inl e \<Rightarrow> (failedResult l, errorText e) | Inr x \<Rightarrow> (x, []))
                in case ws_commit S (tk_id (le_task l)) (le_attempt l) res fail (meanwhile s1) of
                     (Inl e, s2) \<Rightarrow> (Some e, s2, w1)
                   | (Inr _, s2) \<Rightarrow> (None, s2, w1))))"

section \<open>The service\<close>

datatype rpc_code = Unavailable | InvalidArgument | FailedPrecondition | Internal | Unauthenticated

datatype rpc_error = RpcError rpc_code string

record lease_request =
  lq_worker_id :: string
  lq_slots :: int
  lq_job_id :: string

record heartbeat_request =
  hq_worker_id :: string
  hq_task_id :: string
  hq_attempt :: string

record commit_request =
  cq_task_id :: string
  cq_attempt :: string
  cq_result :: step_result
  cq_error :: string

text \<open>\<open>LeaseReply\<close>: empty, or a job, a task, an attempt and a number of repetitions.\<close>

datatype lease_reply = LeaseEmpty | LeaseReply job task string int

definition jobErrorText :: "job_error \<Rightarrow> string" where
  "jobErrorText e =
     (case e of
        ErrNotFound \<Rightarrow> ''jobs: not found'' | ErrStaleAttempt \<Rightarrow> ''jobs: stale attempt'' | ErrNotLeased \<Rightarrow> ''jobs: not leased''
      | ErrNoReady \<Rightarrow> ''jobs: no ready task'' | ErrCapacity \<Rightarrow> ''jobs: worker at capacity'' | ErrInvalidID \<Rightarrow> ''jobs: invalid job id''
      | ErrBusy \<Rightarrow> ''jobs: gateway occupied'' | ErrQuota \<Rightarrow> ''jobs: service quota exceeded'' | JobErrorf m \<Rightarrow> m)"

text \<open>The handlers; the store may be missing.\<close>

definition grpcLease :: "'s worker_store option \<Rightarrow> time \<Rightarrow> lease_request \<Rightarrow> 's \<Rightarrow> (rpc_error + lease_reply) \<times> 's" where
  "grpcLease store now req s =
     (case store of
        None \<Rightarrow> (Inl (RpcError Unavailable ''jobs unavailable''), s)
      | Some S \<Rightarrow>
          (case ws_lease S \<lparr>wk_id = lq_worker_id req, wk_slots = lq_slots req, wk_job_id = lq_job_id req\<rparr> now s of
             (Inl e, s1) \<Rightarrow>
               (if e = ErrNoReady \<or> e = ErrCapacity then (Inr LeaseEmpty, s1)
                else if e = ErrInvalidID then (Inl (RpcError InvalidArgument (jobErrorText e)), s1)
                else (Inl (RpcError Internal ''lease failed''), s1))
           | (Inr l, s1) \<Rightarrow> (Inr (LeaseReply (le_job l) (le_task l) (le_attempt l) (le_n l)), s1)))"

definition grpcHeartbeat :: "'s worker_store option \<Rightarrow> time \<Rightarrow> heartbeat_request \<Rightarrow> 's \<Rightarrow> (rpc_error + unit) \<times> 's" where
  "grpcHeartbeat store now req s =
     (case store of
        None \<Rightarrow> (Inl (RpcError Unavailable ''jobs unavailable''), s)
      | Some S \<Rightarrow>
          (case ws_heartbeat S (hq_task_id req) (hq_attempt req) (hq_worker_id req) now s of
             (Some e, s1) \<Rightarrow>
               (if e = ErrStaleAttempt \<or> e = ErrNotLeased \<or> e = ErrNotFound
                then (Inl (RpcError FailedPrecondition (jobErrorText e)), s1)
                else (Inl (RpcError Internal ''heartbeat failed''), s1))
           | (None, s1) \<Rightarrow> (Inr (), s1)))"

definition grpcCommit :: "'s worker_store option \<Rightarrow> commit_request \<Rightarrow> 's \<Rightarrow> (rpc_error + task) \<times> 's" where
  "grpcCommit store req s =
     (case store of
        None \<Rightarrow> (Inl (RpcError Unavailable ''jobs unavailable''), s)
      | Some S \<Rightarrow>
          (case ws_commit S (cq_task_id req) (cq_attempt req) (cq_result req) (cq_error req) s of
             (Inl e, s1) \<Rightarrow>
               (if e = ErrStaleAttempt then (Inl (RpcError FailedPrecondition ''stale attempt''), s1)
                else if e = ErrNotFound \<or> e = ErrNotLeased then (Inl (RpcError FailedPrecondition (jobErrorText e)), s1)
                else (Inl (RpcError Internal ''commit failed''), s1))
           | (Inr t, s1) \<Rightarrow> (Inr t, s1)))"

text \<open>The values of the \<open>authorization\<close> metadata, and the token they present.\<close>

definition presentedToken :: "string list \<Rightarrow> string" where
  "presentedToken auths = (case auths of [] \<Rightarrow> [] | v # _ \<Rightarrow> trim_space (trim_prefix ''Bearer '' v))"

definition tokenInterceptor :: "(string \<Rightarrow> string) \<Rightarrow> string \<Rightarrow> string list \<Rightarrow> ('req \<Rightarrow> 's \<Rightarrow> (rpc_error + 'a) \<times> 's) \<Rightarrow> 'req \<Rightarrow> 's \<Rightarrow> (rpc_error + 'a) \<times> 's" where
  "tokenInterceptor sha token auths handler req s =
     (if token = [] then handler req s
      else if sha (presentedToken auths) \<noteq> sha token then (Inl (RpcError Unauthenticated ''unauthorized''), s)
      else handler req s)"

text \<open>The metadata a client that was dialled with \<open>token\<close> sends.\<close>

definition dialMetadata :: "string \<Rightarrow> string list" where
  "dialMetadata token = (if token = [] then [] else [''Bearer '' @ token])"

section \<open>A round over a connection\<close>

record 's worker_conn =
  cn_lease :: "lease_request \<Rightarrow> 's \<Rightarrow> (rpc_error + lease_reply) \<times> 's"
  cn_heartbeat :: "heartbeat_request \<Rightarrow> 's \<Rightarrow> (rpc_error + unit) \<times> 's"
  cn_commit :: "commit_request \<Rightarrow> 's \<Rightarrow> (rpc_error + task) \<times> 's"

text \<open>A connection to the service with its interceptor, for one reading of the clock.\<close>

definition serverConn :: "(string \<Rightarrow> string) \<Rightarrow> string \<Rightarrow> string list \<Rightarrow> 's worker_store option \<Rightarrow> time \<Rightarrow> 's worker_conn" where
  "serverConn sha token auths store now =
     \<lparr>cn_lease = tokenInterceptor sha token auths (grpcLease store now),
      cn_heartbeat = tokenInterceptor sha token auths (grpcHeartbeat store now),
      cn_commit = tokenInterceptor sha token auths (grpcCommit store)\<rparr>"

datatype remote_error = RemoteError rpc_error | RemoteNoReady

definition remoteFailedResult :: "lease \<Rightarrow> step_result" where
  "remoteFailedResult l =
     (tk_result (le_task l))\<lparr>sr_id := tk_plan_id (le_task l), sr_kind := tk_kind (le_task l), sr_verdict := ''incomplete''\<rparr>"

definition remoteOnce :: "'s worker_conn \<Rightarrow> (lease \<Rightarrow> 'w \<Rightarrow> (error + step_result) \<times> 'w) \<Rightarrow> ('s \<Rightarrow> 's) \<Rightarrow> string \<Rightarrow> int \<Rightarrow> string \<Rightarrow> 's \<Rightarrow> 'w \<Rightarrow> remote_error option \<times> 's \<times> 'w" where
  "remoteOnce conn exec meanwhile wid slots jobID s w =
     (case cn_lease conn \<lparr>lq_worker_id = wid, lq_slots = slots, lq_job_id = jobID\<rparr> s of
        (Inl e, s1) \<Rightarrow> (Some (RemoteError e), s1, w)
      | (Inr LeaseEmpty, s1) \<Rightarrow> (Some RemoteNoReady, s1, w)
      | (Inr (LeaseReply job task attempt n), s1) \<Rightarrow>
          (let l = \<lparr>le_job = job, le_task = task, le_n = n, le_fence = 0, le_attempt = attempt\<rparr>
           in case exec l w of
                (r, w1) \<Rightarrow>
                  (let (res, fail) = (case r of Inl e \<Rightarrow> (remoteFailedResult l, errorText e) | Inr x \<Rightarrow> (x, []))
                   in case cn_commit conn \<lparr>cq_task_id = tk_id task, cq_attempt = attempt, cq_result = res, cq_error = fail\<rparr> (meanwhile s1) of
                        (Inl e, s2) \<Rightarrow> (Some (RemoteError e), s2, w1)
                      | (Inr _, s2) \<Rightarrow> (None, s2, w1))))"

section \<open>Whatever arrives\<close>

text \<open>A store of jobs as a worker sees it; the attempt of a lease is random.\<close>

definition pg_worker :: "net_env \<Rightarrow> string \<Rightarrow> pg_store worker_store" where
  "pg_worker E attempt =
     \<lparr>ws_lease = (\<lambda>w now. pg_lease E w now attempt), ws_heartbeat = pg_heartbeat E, ws_commit = pg_commit E\<rparr>"

text \<open>A call that reaches the service, with its metadata and the clock and random attempt it meets.\<close>

datatype rpc = RpcLease lease_request time string | RpcHeartbeat heartbeat_request time | RpcCommit commit_request

fun serve :: "net_env \<Rightarrow> (string \<Rightarrow> string) \<Rightarrow> string \<Rightarrow> string list \<times> rpc \<Rightarrow> pg_store \<Rightarrow> pg_store" where
  "serve E sha token (auths, RpcLease req now attempt) p =
     snd (cn_lease (serverConn sha token auths (Some (pg_worker E attempt)) now) req p)"
| "serve E sha token (auths, RpcHeartbeat req now) p =
     snd (cn_heartbeat (serverConn sha token auths (Some (pg_worker E [])) now) req p)"
| "serve E sha token (auths, RpcCommit req) p =
     snd (cn_commit (serverConn sha token auths (Some (pg_worker E [])) 0) req p)"

fun rpc_op :: "rpc \<Rightarrow> store_op" where
  "rpc_op (RpcLease req now attempt) = OpLease \<lparr>wk_id = lq_worker_id req, wk_slots = lq_slots req, wk_job_id = lq_job_id req\<rparr> now attempt []"
| "rpc_op (RpcHeartbeat req now) = OpHeartbeat (hq_task_id req) (hq_attempt req) (hq_worker_id req) now []"
| "rpc_op (RpcCommit req) = OpCommit (cq_task_id req) (cq_attempt req) (cq_result req) (cq_error req) []"

lemma interceptor_token:
  assumes "sha (presentedToken auths) = sha token \<Longrightarrow> presentedToken auths = token"
  shows "tokenInterceptor sha token auths handler req s =
    (if token = [] \<or> presentedToken auths = token then handler req s else (Inl (RpcError Unauthenticated ''unauthorized''), s))"
  using assms by (auto simp: tokenInterceptor_def)

lemma serve_step:
  assumes "sha (presentedToken auths) = sha token \<Longrightarrow> presentedToken auths = token" and "token \<noteq> []"
  shows "serve E sha token (auths, c) p = (if presentedToken auths = token then pg_step E (rpc_op c) p else p)"
proof -
  have lease: "snd (grpcLease (Some (pg_worker E a)) now req p) = pg_step E (rpc_op (RpcLease req now a)) p" for req now a
    by (simp add: grpcLease_def pg_worker_def split: prod.splits sum.splits)
  have beat: "snd (grpcHeartbeat (Some (pg_worker E [])) now req p) = pg_step E (rpc_op (RpcHeartbeat req now)) p" for req now
    by (simp add: grpcHeartbeat_def pg_worker_def split: prod.splits option.splits)
  have commit: "snd (grpcCommit (Some (pg_worker E [])) req p) = pg_step E (rpc_op (RpcCommit req)) p" for req
    by (simp add: grpcCommit_def pg_worker_def split: prod.splits sum.splits)
  show ?thesis
    using assms(2) lease beat commit by (cases c) (simp_all add: serverConn_def interceptor_token [OF assms(1)])
qed

lemma serve_run:
  assumes "inj_on sha (insert token (presentedToken ` fst ` set calls))" and "token \<noteq> []"
  shows "fold (serve E sha token) calls p =
    fold (pg_step E) (map (rpc_op \<circ> snd) (filter (\<lambda>c. presentedToken (fst c) = token) calls)) p"
  using assms(1)
proof (induction calls arbitrary: p)
  case (Cons c calls)
  obtain auths r where c: "c = (auths, r)" by force
  have "inj_on sha (insert token (presentedToken ` fst ` set calls))" by (rule inj_on_subset [OF Cons.prems]) auto
  note IH = Cons.IH [OF this]
  have "presentedToken auths = token" if "sha (presentedToken auths) = sha token"
    by (rule inj_onD [OF Cons.prems that]) (simp_all add: c)
  from serve_step [OF this assms(2)] show ?case by (simp add: c IH)
qed simp


text \<open>Without the token a lease is refused; with it the task is leased.\<close>

definition demo_rpcs :: "(string list \<times> rpc) list" where
  "demo_rpcs = [([], RpcLease \<lparr>lq_worker_id = ''w1'', lq_slots = 1, lq_job_id = []\<rparr> 10 ''bad''),
     (dialMetadata ''s3cret'', RpcLease \<lparr>lq_worker_id = ''w1'', lq_slots = 1, lq_job_id = []\<rparr> 10 ''good'')]"


section \<open>Remote and local rounds\<close>

text \<open>A worker that was dialled with the token of the service is let in.\<close>

lemma dialled_token:
  assumes "trim_space token = token"
  shows "tokenInterceptor sha token (dialMetadata token) handler = handler"
proof -
  have "presentedToken (dialMetadata token) = token" if "token \<noteq> []"
    using assms that by (simp add: presentedToken_def dialMetadata_def trim_prefix_def)
  then show ?thesis by (auto simp: tokenInterceptor_def fun_eq_iff)
qed

lemma pg_lease_slots:
  "pg_lease E \<lparr>wk_id = wid, wk_slots = 1, wk_job_id = jid\<rparr> now attempt p = pg_lease E \<lparr>wk_id = wid, wk_slots = 0, wk_job_id = jid\<rparr> now attempt p"
proof -
  let ?w = "\<lambda>n. \<lparr>wk_id = wid, wk_slots = n, wk_job_id = jid\<rparr>"
  have "worker_id (?w 1) = worker_id (?w 0)" "wantedJob (?w 1) = wantedJob (?w 0)" "worker_slots (?w 1) = worker_slots (?w 0)"
    by (simp_all add: worker_id_def wantedJob_def worker_slots_def)
  then show ?thesis unfolding pg_lease_def by (simp only:)
qed

lemma workerExecute_fence: "workerExecute X C os dir (l\<lparr>le_fence := k\<rparr>) = workerExecute X C os dir l"
proof -
  have same: "executeFresh X (l\<lparr>le_fence := k\<rparr>) = executeFresh X l" "FromLease C (l\<lparr>le_fence := k\<rparr>) = FromLease C l"
    "le_task (l\<lparr>le_fence := k\<rparr>) = le_task l"
    by (simp_all add: executeFresh_def leaseDag_def FromLease_def)
  show ?thesis unfolding fun_eq_iff workerExecute_def ExecuteWith_def same by simp
qed

lemma remote_failed: "tk_result (le_task l) = mk_result [] [] [] [] \<Longrightarrow> remoteFailedResult l = failedResult l"
  by (simp add: remoteFailedResult_def failedResult_def mk_result_def)

text \<open>
  C25: A worker over a connection does what a worker beside the store does: with the token of the service, one remote
  round leaves the same jobs and the same files as one local round, whether it finds no task, executes it, or fails. The
  leased task has no result yet.
\<close>

theorem remote_matches_local:
  assumes "trim_space token = token"
    and "\<And>l p'. pg_lease E \<lparr>wk_id = wid, wk_slots = 0, wk_job_id = []\<rparr> now attempt p = (Inr l, p') \<Longrightarrow> tk_result (le_task l) = mk_result [] [] [] []"
  shows "snd (remoteOnce (serverConn sha token (dialMetadata token) (Some (pg_worker E attempt)) now) (workerExecute X C os dir) meanwhile wid 1 [] p w) =
    snd (workerOnce (pg_worker E attempt) (workerExecute X C os dir) meanwhile now wid p w)"
proof -
  obtain r p1 where lease: "pg_lease E \<lparr>wk_id = wid, wk_slots = 0, wk_job_id = []\<rparr> now attempt p = (r, p1)" by force
  show ?thesis
  proof (cases r)
    case (Inl e)
    then show ?thesis
      by (simp add: remoteOnce_def workerOnce_def serverConn_def dialled_token [OF assms(1)] grpcLease_def pg_worker_def pg_lease_slots lease)
  next
    case (Inr l)
    define l' where "l' = l\<lparr>le_fence := 0\<rparr>"
    have l': "\<lparr>le_job = le_job l, le_task = le_task l, le_n = le_n l, le_fence = 0, le_attempt = le_attempt l\<rparr> = l'" by (simp add: l'_def)
    obtain x w1 where x: "workerExecute X C os dir l w = (x, w1)" by force
    have x': "workerExecute X C os dir l' w = (x, w1)" by (simp add: l'_def workerExecute_fence x)
    have res: "remoteFailedResult l' = failedResult l"
      using remote_failed [of l] assms(2) [of l p1] lease Inr by (simp add: l'_def remoteFailedResult_def)
    show ?thesis
      by (simp add: remoteOnce_def workerOnce_def serverConn_def dialled_token [OF assms(1)] grpcLease_def pg_worker_def pg_lease_slots
          lease Inr l' x x' res Let_def grpcCommit_def split: sum.splits prod.splits)
  qed
qed

theorem remote_matches_local_witness:
  "let p = fold (pg_step demo_net) [hd overbook_ops] (NewPostgres no_quota);
       remote = remoteOnce (serverConn (\<lambda>x. x) ''s3cret'' (dialMetadata ''s3cret'') (Some (pg_worker demo_net ''a1'')) 10)
         (workerExecute demo_exec demo_cache_env map_os []) (\<lambda>p. p) ''w1'' 1 [] p Map.empty
    in snd remote = snd (workerOnce (pg_worker demo_net ''a1'') (workerExecute demo_exec demo_cache_env map_os []) (\<lambda>p. p) 10 ''w1'' p Map.empty) \<and>
       fst (snd remote) \<noteq> p"
proof -
  let ?p = "fold (pg_step demo_net) [hd overbook_ops] (NewPostgres no_quota)"
  have trim: "trim_space ''s3cret'' = ''s3cret''" by code_simp
  have "case fst (pg_lease demo_net \<lparr>wk_id = ''w1'', wk_slots = 0, wk_job_id = []\<rparr> 10 ''a1'' ?p) of
      Inl _ \<Rightarrow> True | Inr l \<Rightarrow> tk_result (le_task l) = mk_result [] [] [] []" by code_simp
  then have fresh: "tk_result (le_task l) = mk_result [] [] [] []"
    if "pg_lease demo_net \<lparr>wk_id = ''w1'', wk_slots = 0, wk_job_id = []\<rparr> 10 ''a1'' ?p = (Inr l, p')" for l p' using that by simp
  have moved: "fst (snd (remoteOnce (serverConn (\<lambda>x. x) ''s3cret'' (dialMetadata ''s3cret'') (Some (pg_worker demo_net ''a1'')) 10)
      (workerExecute demo_exec demo_cache_env map_os []) (\<lambda>p. p) ''w1'' 1 [] ?p Map.empty)) \<noteq> ?p" by code_simp
  show ?thesis unfolding Let_def by (intro conjI remote_matches_local [OF trim fresh] moved)
qed

end
