(* ===== verification/Otlp.thy ===== *)
theory Otlp
  imports Ingest Go_Text "HOL-Library.Word"
begin

text \<open>
  Normalizing an OTLP export, \<open>internal/ingest/otlp.go\<close> and \<open>sanitize.go\<close>: the decoded request is a list of resources
  with their spans, and normalization keeps allowlisted metadata, cleaned of control characters, escape sequences and
  query strings. \<open>url.Parse\<close> and the formatting of floating-point numbers are the record \<open>otlp_env\<close>; the protobuf
  and JSON decoders are arguments.
\<close>

section \<open>Runes\<close>

text \<open>The length of the UTF-8 encoding at the front of a text, or 0.\<close>

definition rune_len :: "string \<Rightarrow> nat" where
  "rune_len s =
     (case s of
        [] \<Rightarrow> 0
      | a # t \<Rightarrow>
          if byte_in 0 0x7F a then 1
          else if byte_in 0xC2 0xDF a
          then (case t of b # _ \<Rightarrow> if utf8_tail b then 2 else 0 | _ \<Rightarrow> 0)
          else if byte_in 0xE0 0xEF a
          then (case t of
                  b # c # _ \<Rightarrow>
                    if byte_in (if a = CHR 0xE0 then 0xA0 else 0x80) (if a = CHR 0xED then 0x9F else 0xBF) b \<and> utf8_tail c then 3 else 0
                | _ \<Rightarrow> 0)
          else if byte_in 0xF0 0xF4 a
          then (case t of
                  b # c # d # _ \<Rightarrow>
                    if byte_in (if a = CHR 0xF0 then 0x90 else 0x80) (if a = CHR 0xF4 then 0x8F else 0xBF) b \<and> utf8_tail c \<and> utf8_tail d
                    then 4 else 0
                | _ \<Rightarrow> 0)
          else 0)"

text \<open>The runes of a text, each as its bytes; bytes that start no rune are dropped.\<close>

fun runes :: "string \<Rightarrow> string list" where
  "runes [] = []"
| "runes (a # s) =
     (let n = rune_len (a # s) in if n = 0 then runes s else take n (a # s) # runes (drop (n - 1) s))"

definition to_valid_utf8 :: "string \<Rightarrow> string" where
  "to_valid_utf8 s = concat (runes s)"

definition code_point :: "string \<Rightarrow> nat" where
  "code_point r =
     (case map of_char r of
        [a] \<Rightarrow> a
      | [a, b] \<Rightarrow> (a mod 32) * 64 + b mod 64
      | [a, b, c] \<Rightarrow> ((a mod 16) * 64 + b mod 64) * 64 + c mod 64
      | [a, b, c, d] \<Rightarrow> (((a mod 8) * 64 + b mod 64) * 64 + c mod 64) * 64 + d mod 64
      | _ \<Rightarrow> 0xFFFD)"

text \<open>The ranges of \<open>unicode.Cf\<close>.\<close>

definition formatRanges :: "(nat \<times> nat) list" where
  "formatRanges =
     [(0xAD, 0xAD), (0x600, 0x605), (0x61C, 0x61C), (0x6DD, 0x6DD), (0x70F, 0x70F), (0x890, 0x891), (0x8E2, 0x8E2),
      (0x180E, 0x180E), (0x200B, 0x200F), (0x202A, 0x202E), (0x2060, 0x2064), (0x2066, 0x206F), (0xFEFF, 0xFEFF),
      (0xFFF9, 0xFFFB), (0x110BD, 0x110BD), (0x110CD, 0x110CD), (0x13430, 0x1343F), (0x1BCA0, 0x1BCA3),
      (0x1D173, 0x1D17A), (0xE0001, 0xE0001), (0xE0020, 0xE007F)]"

definition keptRune :: "string \<Rightarrow> bool" where
  "keptRune r =
     (let p = code_point r in \<not> (p < 32 \<or> p = 127) \<and> \<not> list_ex (\<lambda>(lo, hi). lo \<le> p \<and> p \<le> hi) formatRanges)"

section \<open>Cleaning\<close>

record otlp_env =
  oe_url :: "string \<Rightarrow> (string \<times> string) option"
  oe_float :: "64 word \<Rightarrow> string"

text \<open>
  The length of the match of \<open>ansiSeq\<close> at the front of a text, or 0: a control sequence, an operating system command
  with an optional end, or a two-character escape.
\<close>

definition csi_len :: "nat \<Rightarrow> string \<Rightarrow> nat" where
  "csi_len k s =
     (let rest = drop k s; params = takeWhile (byte_in 0x30 0x3F) rest;
          rest' = drop (length params) rest; inter = takeWhile (byte_in 0x20 0x2F) rest'
      in case drop (length inter) rest' of
           c # _ \<Rightarrow> if byte_in 0x40 0x7E c then k + length params + length inter + 1 else 0
         | [] \<Rightarrow> 0)"

definition osc_len :: "string \<Rightarrow> nat" where
  "osc_len s =
     (let body = takeWhile (\<lambda>c. c \<noteq> CHR 0x07 \<and> c \<noteq> CHR 0x1B) (drop 2 s); rest = drop (2 + length body) s
      in 2 + length body + (if prefix [CHR 0x07] rest then 1 else if prefix [CHR 0x1B, CHR 0x5C] rest then 2 else 0))"

definition ansi_len :: "string \<Rightarrow> nat" where
  "ansi_len s =
     (let csi = (if prefix [CHR 0x1B, CHR ''[''] s \<or> prefix [CHR 0xC2, CHR 0x9B] s then csi_len 2 s else 0)
      in if csi > 0 then csi
         else if prefix [CHR 0x1B, CHR '']''] s then osc_len s
         else (case s of
                 e # c # _ \<Rightarrow> if e = CHR 0x1B \<and> (byte_in 0x40 0x5A c \<or> byte_in 0x5C 0x5F c) then 2 else 0
               | _ \<Rightarrow> 0))"

fun strip_ansi :: "string \<Rightarrow> string" where
  "strip_ansi [] = []"
| "strip_ansi (c # s) = (let n = ansi_len (c # s) in if n = 0 then c # strip_ansi s else strip_ansi (drop (n - 1) s))"

definition clipRunes :: "string \<Rightarrow> nat \<Rightarrow> string" where
  "clipRunes s n = (if n = 0 \<or> s = [] then [] else concat (take n (runes s)))"

definition sanitizeText :: "string \<Rightarrow> nat \<Rightarrow> string" where
  "sanitizeText s n = clipRunes (trim_space (concat (filter keptRune (runes (strip_ansi (to_valid_utf8 s)))))) n"

definition maxString :: nat where
  "maxString = 512"

definition stripQueryAndFragment :: "string \<Rightarrow> string" where
  "stripQueryAndFragment s = before CHR ''?'' (before CHR ''#'' s)"

definition is_letter :: "char \<Rightarrow> bool" where
  "is_letter c = (is_lower c \<or> is_upper c)"

definition stripAbsoluteURL :: "otlp_env \<Rightarrow> string \<Rightarrow> string" where
  "stripAbsoluteURL V s =
     (case index_of ''://'' s of
        None \<Rightarrow> s
      | Some idx \<Rightarrow>
          (let scheme = takeWhile is_letter (rev (take idx s)); start = idx - length scheme
           in case oe_url V (drop start s) of
                None \<Rightarrow> []
              | Some (host, path) \<Rightarrow>
                  if host = [] then []
                  else (let p = (if path = [] then ''/'' else path); prefix = trim_space (take start s)
                        in if prefix = [] then p else trim_space (prefix @ '' '' @ p))))"

definition sanitizeName :: "otlp_env \<Rightarrow> string \<Rightarrow> string" where
  "sanitizeName V s = stripAbsoluteURL V (stripQueryAndFragment (sanitizeText s maxString))"

definition sanitizeRoute :: "otlp_env \<Rightarrow> string \<Rightarrow> string" where
  "sanitizeRoute V s0 =
     (let s = sanitizeText s0 maxString
      in if s = [] then [] else if sublist ''://'' s then stripAbsoluteURL V s else stripQueryAndFragment s)"

definition sanitizeFile :: "string \<Rightarrow> string" where
  "sanitizeFile s0 =
     (let s = sanitizeText s0 maxString
      in if s = [] then []
         else (let p = path_clean (replace_char (CHR 0x5C) (CHR ''/'') s)
               in if p = ''.'' \<or> p = ''/'' \<or> prefix ''../'' p \<or> sublist ''/../'' p \<or> sublist ''..'' p then [] else p))"

definition canonicalMethod :: "string \<Rightarrow> string" where
  "canonicalMethod s0 =
     (let s = takeWhile (\<lambda>c. c \<notin> {CHR '' '', CHR 0x09, CHR 0x0D, CHR 0x0A}) (to_upper (trim_space s0))
      in if s \<in> {''GET'', ''POST'', ''PUT'', ''PATCH'', ''DELETE'', ''HEAD'', ''OPTIONS''} then s else [])"

definition canonicalStatus :: "int \<Rightarrow> int" where
  "canonicalStatus n = (if n < 100 \<or> n > 599 then 0 else n)"

section \<open>Spans\<close>

datatype any_value = AnyString string | AnyInt int | AnyDouble "64 word" | AnyBool bool | AnyOther

type_synonym attrs = "(string \<times> any_value option) list"

record otlp_span =
  os_trace_id :: string
  os_span_id :: string
  os_parent_span_id :: string
  os_name :: string
  os_kind :: nat
  os_status :: "nat option"
  os_start :: "64 word"
  os_end :: "64 word"
  os_attrs :: attrs

record resource_spans =
  rs_attrs :: attrs
  rs_scopes :: "otlp_span list list"

record otlp_report =
  or_spans :: "span list"
  or_seen :: nat
  or_dropped :: nat
  or_truncated :: bool

definition anyString :: "otlp_env \<Rightarrow> any_value option \<Rightarrow> string" where
  "anyString V v =
     (case v of
        Some (AnyString s) \<Rightarrow> s
      | Some (AnyInt n) \<Rightarrow> itoa n
      | Some (AnyDouble d) \<Rightarrow> oe_float V d
      | Some (AnyBool b) \<Rightarrow> (if b then ''true'' else ''false'')
      | _ \<Rightarrow> [])"

text \<open>The first attribute of the first key that occurs.\<close>

fun findAttr :: "attrs \<Rightarrow> string list \<Rightarrow> any_value option option" where
  "findAttr as [] = None"
| "findAttr as (key # keys) = (case map_of as key of Some v \<Rightarrow> Some v | None \<Rightarrow> findAttr as keys)"

definition attrString :: "otlp_env \<Rightarrow> attrs \<Rightarrow> string list \<Rightarrow> string" where
  "attrString V as keys = (case findAttr as keys of None \<Rightarrow> [] | Some v \<Rightarrow> anyString V v)"

definition attrInt :: "attrs \<Rightarrow> string list \<Rightarrow> int" where
  "attrInt as keys =
     (case findAttr as keys of
        Some (Some (AnyInt n)) \<Rightarrow> n
      | Some (Some (AnyString s)) \<Rightarrow> (if trim_space s = [] then 0 else (case atoi (trim_space s) of Some n \<Rightarrow> n | None \<Rightarrow> 0))
      | _ \<Rightarrow> 0)"

fun httpRouteLoop :: "otlp_env \<Rightarrow> attrs \<Rightarrow> string list \<Rightarrow> string" where
  "httpRouteLoop V as [] = []"
| "httpRouteLoop V as (key # keys) = (let v = attrString V as [key] in if v \<noteq> [] then v else httpRouteLoop V as keys)"

definition httpRoute :: "otlp_env \<Rightarrow> attrs \<Rightarrow> string" where
  "httpRoute V as = httpRouteLoop V as [''http.route'', ''url.path'', ''http.target'', ''url.full'', ''http.url'']"

definition spanKind :: "nat \<Rightarrow> string" where
  "spanKind k =
     (if k = 1 then ''internal'' else if k = 2 then ''server'' else if k = 3 then ''client''
      else if k = 4 then ''producer'' else if k = 5 then ''consumer'' else [])"

definition statusCode :: "nat option \<Rightarrow> string" where
  "statusCode st = (case st of None \<Rightarrow> [] | Some c \<Rightarrow> if c = 2 then ''error'' else if c = 1 then ''ok'' else [])"

definition isZeroHex :: "string \<Rightarrow> bool" where
  "isZeroHex b = list_all (\<lambda>c. c = CHR 0x00) b"

definition validID :: "string \<Rightarrow> nat \<Rightarrow> bool" where
  "validID b n = (length b = n \<and> \<not> isZeroHex b)"

definition hexID :: "string \<Rightarrow> string" where
  "hexID b = concat (map (\<lambda>c. [hex_digit (of_char c div 16), hex_digit (of_char c mod 16)]) b)"

definition splitMethodRoute :: "string \<Rightarrow> string \<Rightarrow> string \<times> string" where
  "splitMethodRoute method0 route0 =
     (let method = canonicalMethod method0; route = trim_space route0
      in case cut CHR '' '' route of
           None \<Rightarrow> (method, route)
         | Some (m, rest) \<Rightarrow>
             (let cm = canonicalMethod m
              in if cm \<noteq> [] then (if method = [] then cm else method, trim_space rest) else (method, route)))"

definition normalizeSpan :: "otlp_env \<Rightarrow> string \<Rightarrow> otlp_span \<Rightarrow> span option" where
  "normalizeSpan V service sp =
     (if \<not> validID (os_trace_id sp) 16 \<or> \<not> validID (os_span_id sp) 8 then None
      else (let startNS = uint (os_start sp); endNS = uint (os_end sp)
            in if startNS > 2 ^ 63 - 1 \<or> endNS > 2 ^ 63 - 1 then None
               else (let as = os_attrs sp;
                         (method, route) = splitMethodRoute
                            (canonicalMethod (attrString V as [''http.request.method'', ''http.method''])) (sanitizeRoute V (httpRoute V as))
                     in Some \<lparr>sp_trace_id = hexID (os_trace_id sp), sp_span_id = hexID (os_span_id sp),
                           sp_parent_span_id = (if validID (os_parent_span_id sp) 8 then hexID (os_parent_span_id sp) else []),
                           sp_service_name = service, sp_name = sanitizeName V (os_name sp), sp_kind = spanKind (os_kind sp),
                           sp_status_code = statusCode (os_status sp), sp_http_method = method, sp_http_route = route,
                           sp_http_status = canonicalStatus (attrInt as [''http.response.status_code'', ''http.status_code'']),
                           sp_code_function = sanitizeText (attrString V as [''code.function.name'', ''code.function'']) maxString,
                           sp_code_file = sanitizeFile (attrString V as [''code.file.path'', ''code.filepath'']),
                           sp_start_time = startNS, sp_duration_ns = (if endNS \<ge> startNS then endNS - startNS else 0)\<rparr>)))"

text \<open>One span of the export, and the loops over the resources and their spans.\<close>

definition addOtlpSpan :: "otlp_env \<Rightarrow> nat \<Rightarrow> string \<Rightarrow> otlp_span \<Rightarrow> otlp_report \<Rightarrow> otlp_report" where
  "addOtlpSpan V limit service sp out =
     (let out = out\<lparr>or_seen := or_seen out + 1\<rparr>
      in case normalizeSpan V service sp of
           None \<Rightarrow> out\<lparr>or_dropped := or_dropped out + 1\<rparr>
         | Some span \<Rightarrow>
             if length (or_spans out) \<ge> limit then out\<lparr>or_truncated := True\<rparr>
             else out\<lparr>or_spans := or_spans out @ [span]\<rparr>)"

definition serviceName :: "otlp_env \<Rightarrow> attrs \<Rightarrow> string" where
  "serviceName V as = (let s = sanitizeText (attrString V as [''service.name'']) maxString in if s = [] then ''unknown'' else s)"

definition maxSpansBatch :: nat where
  "maxSpansBatch = 10000"

definition normalizeBatch :: "otlp_env \<Rightarrow> resource_spans list option \<Rightarrow> int \<Rightarrow> otlp_report" where
  "normalizeBatch V req limit =
     (let out = \<lparr>or_spans = [], or_seen = 0, or_dropped = 0, or_truncated = False\<rparr>;
          n = (if limit \<le> 0 then maxSpansBatch else nat limit)
      in case req of
           None \<Rightarrow> out
         | Some rss \<Rightarrow> fold (\<lambda>rs. fold (addOtlpSpan V n (serviceName V (rs_attrs rs))) (concat (rs_scopes rs))) rss out)"

definition maxOTLPBytes :: nat where
  "maxOTLPBytes = 4 * 2 ^ 20"

definition DecodeOTLP :: "(string \<Rightarrow> 'r option) \<Rightarrow> (string \<Rightarrow> 'r option) \<Rightarrow> string \<Rightarrow> string \<Rightarrow> error + 'r" where
  "DecodeOTLP json proto contentType body =
     (if body = [] then Inl (Errorf ''empty body'')
      else if length body > maxOTLPBytes then Inl (Errorf ''otlp payload too large'')
      else (let ct = to_lower (trim_space (hd (split_on CHR '';'' contentType)))
            in if ct = ''application/json''
               then (case json body of None \<Rightarrow> Inl (Errorf ''decode otlp json'') | Some r \<Rightarrow> Inr r)
               else if ct \<in> {[], ''application/x-protobuf'', ''application/protobuf''}
               then (case proto body of None \<Rightarrow> Inl (Errorf ''decode otlp protobuf'') | Some r \<Rightarrow> Inr r)
               else Inl (Errorf ''unsupported content type'')))"

definition NormalizeReport :: "otlp_env \<Rightarrow> resource_spans list option \<Rightarrow> otlp_report" where
  "NormalizeReport V req = normalizeBatch V req (int maxSpansBatch)"

definition Rejected :: "otlp_report \<Rightarrow> int" where
  "Rejected r = (let n = int (or_seen r) - int (length (or_spans r)) in if n < 0 then 0 else n)"

end
