(* ===== verification/Otlp_Laws.thy ===== *)
theory Otlp_Laws
  imports Otlp
begin

text \<open>
  What normalization guarantees of every span that it keeps: well-formed identifiers, bounded text without control
  characters, enumerated kinds and methods, and names without query strings. The route of a span can keep a query
  string, as the last section shows.
\<close>

section \<open>Runes\<close>

text \<open>A single rune: its encoding is as long as the text, also when more text follows.\<close>

definition one_rune :: "string \<Rightarrow> bool" where
  "one_rune r \<longleftrightarrow> r \<noteq> [] \<and> (\<forall>t. rune_len (r @ t) = length r)"

definition rune_class :: "string \<Rightarrow> bool" where
  "rune_class r \<longleftrightarrow> (\<exists>a. r = [a] \<and> of_char a < (128 :: nat)) \<or> (\<forall>c\<in>set r. (128 :: nat) \<le> of_char c)"

lemma byte_in_high: "byte_in lo hi c \<Longrightarrow> 128 \<le> lo \<Longrightarrow> (128 :: nat) \<le> of_char c" "utf8_tail c \<Longrightarrow> (128 :: nat) \<le> of_char c"
  by (auto simp: byte_in_def utf8_tail_def)

lemma rune_shape:
  assumes "0 < rune_len s"
  obtains r t where "s = r @ t" and "one_rune r" and "length r = rune_len s" and "rune_class r"
proof -
  obtain a u where s: "s = a # u" using assms by (cases s) (auto simp: rune_len_def)
  define lo3 where "lo3 = (if a = CHR 0xE0 then 0xA0 else 0x80 :: nat)"
  define hi3 where "hi3 = (if a = CHR 0xED then 0x9F else 0xBF :: nat)"
  define lo4 where "lo4 = (if a = CHR 0xF0 then 0x90 else 0x80 :: nat)"
  define hi4 where "hi4 = (if a = CHR 0xF4 then 0x8F else 0xBF :: nat)"
  note len = rune_len_def [of "a # _", simplified list.case, folded lo3_def hi3_def lo4_def hi4_def]
  have lo: "128 \<le> lo3" "128 \<le> lo4" by (simp_all add: lo3_def lo4_def)
  consider "byte_in 0 0x7F a"
    | b t where "\<not> byte_in 0 0x7F a" "byte_in 0xC2 0xDF a" "u = b # t" "utf8_tail b"
    | b c t where "\<not> byte_in 0 0x7F a" "\<not> byte_in 0xC2 0xDF a" "byte_in 0xE0 0xEF a" "u = b # c # t" "byte_in lo3 hi3 b" "utf8_tail c"
    | b c d t where "\<not> byte_in 0 0x7F a" "\<not> byte_in 0xC2 0xDF a" "\<not> byte_in 0xE0 0xEF a" "byte_in 0xF0 0xF4 a" "u = b # c # d # t"
        "byte_in lo4 hi4 b" "utf8_tail c" "utf8_tail d"
    using assms unfolding s len by (simp split: list.splits if_split_asm)
  then show ?thesis
  proof cases
    case 1
    then have "one_rune [a]" "length [a] = rune_len s" "of_char a < (128 :: nat)" by (simp_all add: one_rune_def s len) (simp add: byte_in_def)
    then show ?thesis using that [of "[a]" u] s by (simp add: rune_class_def)
  next
    case (2 b t)
    then have "one_rune [a, b]" "length [a, b] = rune_len s" by (simp_all add: one_rune_def s len)
    then show ?thesis using that [of "[a, b]" t] s 2 byte_in_high by (simp add: rune_class_def)
  next
    case (3 b c t)
    then have "one_rune [a, b, c]" "length [a, b, c] = rune_len s" by (simp_all add: one_rune_def s len)
    then show ?thesis using that [of "[a, b, c]" t] s 3 byte_in_high lo by (simp add: rune_class_def)
  next
    case (4 b c d t)
    then have "one_rune [a, b, c, d]" "length [a, b, c, d] = rune_len s" by (simp_all add: one_rune_def s len)
    then show ?thesis using that [of "[a, b, c, d]" t] s 4 byte_in_high lo by (simp add: rune_class_def)
  qed
qed

lemma rune_bytes: "one_rune r \<Longrightarrow> rune_class r"
proof -
  assume r: "one_rune r"
  then have len: "rune_len r = length r" "r \<noteq> []" by (auto simp: one_rune_def dest: spec [of _ "[]"])
  from len have "0 < rune_len r" by simp
  then obtain r' t where "r = r' @ t" "length r' = rune_len r" "rune_class r'" by (rule rune_shape)
  then show ?thesis using len by simp
qed

lemma runes_step:
  assumes "rune_len (a # s) \<noteq> 0"
  shows "one_rune (take (rune_len (a # s)) (a # s))"
proof -
  from assms have "0 < rune_len (a # s)" by simp
  then obtain r t where "a # s = r @ t" "one_rune r" "length r = rune_len (a # s)" by (rule rune_shape)
  then show ?thesis by (metis append_eq_conv_conj)
qed

lemma runes_one: "r \<in> set (runes s) \<Longrightarrow> one_rune r"
proof (induction s rule: runes.induct)
  case (2 a s)
  then show ?case using runes_step [of a s] by (cases "rune_len (a # s) = 0") (auto simp: Let_def)
qed simp

lemma runes_concat: "list_all one_rune rs \<Longrightarrow> runes (concat rs) = rs"
proof (induction rs)
  case (Cons r rs)
  then obtain a r' where r: "r = a # r'" by (cases r) (auto simp: one_rune_def)
  have "rune_len (a # r' @ concat rs) = length r" using Cons.prems r by (auto simp: one_rune_def)
  then show ?case using Cons r by (simp add: Let_def)
qed simp

lemma runes_clip: "runes (clipRunes s n) = (if n = 0 \<or> s = [] then [] else take n (runes s))"
proof -
  have "list_all one_rune (take n (runes s))" using runes_one by (auto simp: list_all_iff dest: in_set_takeD)
  from runes_concat [OF this] show ?thesis by (simp add: clipRunes_def)
qed

lemma concat_runes_set: "set (concat (runes s)) \<subseteq> set s"
proof (induction s rule: runes.induct)
  case (2 a s)
  show ?case
  proof (cases "rune_len (a # s) = 0")
    case True
    then show ?thesis using 2(1) by (auto simp: Let_def)
  next
    case False
    have "set (take (rune_len (a # s)) (a # s)) \<subseteq> set (a # s)" by (rule set_take_subset)
    moreover have "set (concat (runes (drop (rune_len (a # s) - 1) s))) \<subseteq> set s"
      using 2(2) [OF refl False] set_drop_subset by fastforce
    ultimately show ?thesis using False by (auto simp: Let_def)
  qed
qed simp

section \<open>Clean text\<close>

definition printable :: "string \<Rightarrow> bool" where
  "printable s \<longleftrightarrow> (\<forall>c\<in>set s. (32 :: nat) \<le> of_char c \<and> of_char c \<noteq> (127 :: nat))"

lemma printable_subset: "printable s \<Longrightarrow> set t \<subseteq> set s \<Longrightarrow> printable t"
  unfolding printable_def by blast

lemma printable_append [simp]: "printable (s @ t) \<longleftrightarrow> printable s \<and> printable t"
  unfolding printable_def by auto

lemma printable_Cons [simp]: "printable (c # t) \<longleftrightarrow> (32 :: nat) \<le> of_char c \<and> of_char c \<noteq> (127 :: nat) \<and> printable t"
  unfolding printable_def by auto

lemma printable_Nil [simp]: "printable []"
  unfolding printable_def by simp

lemma printable_trim: "printable s \<Longrightarrow> printable (trim_space s)"
  using printable_subset set_trim_space by blast

lemma kept_printable: "one_rune r \<Longrightarrow> keptRune r \<Longrightarrow> printable r"
  using rune_bytes [of r] by (fastforce simp: rune_class_def keptRune_def code_point_def Let_def printable_def)

lemma sanitizeText_printable: "printable (sanitizeText s n)"
proof -
  let ?t = "concat (filter keptRune (runes (strip_ansi (to_valid_utf8 s))))"
  have "printable r" if "r \<in> set (filter keptRune (runes x))" for r x using that kept_printable runes_one by auto
  then have "printable ?t" by (auto simp: printable_def)
  then have t: "printable (trim_space ?t)" by (rule printable_trim)
  have "set (clipRunes (trim_space ?t) n) \<subseteq> set (trim_space ?t)"
    using concat_runes_set [of "trim_space ?t"] by (auto simp: clipRunes_def dest!: in_set_takeD)
  then show ?thesis using printable_subset [OF t] by (simp add: sanitizeText_def)
qed

lemma sanitizeText_clipped: "length (runes (sanitizeText s n)) \<le> n"
  by (simp add: sanitizeText_def runes_clip)

lemma before_set: "set (before c s) \<subseteq> set s - {c}"
  by (auto simp: before_def dest: set_takeWhileD)

lemma strip_query: "set (stripQueryAndFragment s) \<subseteq> set s - {CHR ''?'', CHR ''#''}"
  using before_set [of "CHR ''?''" "before CHR ''#'' s"] before_set [of "CHR ''#''" s] by (auto simp: stripQueryAndFragment_def)

text \<open>What is used of \<open>url.Parse\<close>: the escaped path of a text is printable and has neither query nor fragment.\<close>

definition url_paths :: "otlp_env \<Rightarrow> bool" where
  "url_paths V \<longleftrightarrow> (\<forall>raw host path. oe_url V raw = Some (host, path) \<longrightarrow> printable path \<and> set path \<inter> {CHR ''?'', CHR ''#''} = {})"

lemma stripAbsoluteURL_set:
  assumes "url_paths V"
  shows "printable s \<Longrightarrow> printable (stripAbsoluteURL V s)"
    and "set s \<inter> {CHR ''?'', CHR ''#''} = {} \<Longrightarrow> set (stripAbsoluteURL V s) \<inter> {CHR ''?'', CHR ''#''} = {}"
proof -
  have path: "printable p" "set p \<inter> {CHR ''?'', CHR ''#''} = {}" if "oe_url V raw = Some (h, p)" for raw h p
    using assms that unfolding url_paths_def by blast+
  have shape: "stripAbsoluteURL V s = s \<or> stripAbsoluteURL V s = [] \<or>
      (\<exists>raw h p n. oe_url V raw = Some (h, p) \<and> set (stripAbsoluteURL V s) \<subseteq> set (take n s) \<union> set '' '' \<union> set ''/'' \<union> set p)"
  proof (cases "index_of ''://'' s")
    case (Some idx)
    let ?start = "idx - length (takeWhile is_letter (rev (take idx s)))"
    show ?thesis
    proof (cases "oe_url V (drop ?start s)")
      case None
      then show ?thesis using Some by (simp add: stripAbsoluteURL_def Let_def)
    next
      case u: (Some hp)
      obtain h p where hp: "hp = (h, p)" by force
      let ?p = "if p = [] then ''/'' else p"
      have "set (trim_space (trim_space (take ?start s) @ '' '' @ ?p)) \<subseteq> set (take ?start s) \<union> set '' '' \<union> set ''/'' \<union> set p"
        using set_trim_space [of "trim_space (take ?start s) @ '' '' @ ?p"] set_trim_space [of "take ?start s"] by (auto split: if_splits)
      moreover have "set ?p \<subseteq> set (take ?start s) \<union> set '' '' \<union> set ''/'' \<union> set p" by auto
      ultimately have "stripAbsoluteURL V s = [] \<or> set (stripAbsoluteURL V s) \<subseteq> set (take ?start s) \<union> set '' '' \<union> set ''/'' \<union> set p"
        using Some u hp by (simp add: stripAbsoluteURL_def Let_def)
      then show ?thesis using u hp by blast
    qed
  qed (simp add: stripAbsoluteURL_def)
  have sub: "set (take n s) \<subseteq> set s" for n by (rule set_take_subset)
  show "printable (stripAbsoluteURL V s)" if "printable s"
    using shape
  proof (elim disjE exE conjE)
    fix raw h p n
    assume u: "oe_url V raw = Some (h, p)" and st: "set (stripAbsoluteURL V s) \<subseteq> set (take n s) \<union> set '' '' \<union> set ''/'' \<union> set p"
    have "printable (s @ '' '' @ ''/'' @ p)" using that path(1) [OF u] by simp
    then show ?thesis by (rule printable_subset) (use st sub in auto)
  qed (use that in simp_all)
  show "set (stripAbsoluteURL V s) \<inter> {CHR ''?'', CHR ''#''} = {}" if "set s \<inter> {CHR ''?'', CHR ''#''} = {}"
    using shape
  proof (elim disjE exE conjE)
    fix raw h p n
    assume u: "oe_url V raw = Some (h, p)" and st: "set (stripAbsoluteURL V s) \<subseteq> set (take n s) \<union> set '' '' \<union> set ''/'' \<union> set p"
    have "(set (take n s) \<union> set '' '' \<union> set ''/'' \<union> set p) \<inter> {CHR ''?'', CHR ''#''} = {}" using that sub [of n] path(2) [OF u] by auto
    then show ?thesis using st by blast
  qed (use that in simp_all)
qed

lemma sanitizeName_clean:
  assumes "url_paths V"
  shows "printable (sanitizeName V s)" and "set (sanitizeName V s) \<inter> {CHR ''?'', CHR ''#''} = {}"
proof -
  let ?t = "stripQueryAndFragment (sanitizeText s maxString)"
  have "printable ?t" using printable_subset [OF sanitizeText_printable, of ?t s maxString] strip_query by blast
  then show "printable (sanitizeName V s)" using stripAbsoluteURL_set(1) [OF assms] by (simp add: sanitizeName_def)
  have "set ?t \<inter> {CHR ''?'', CHR ''#''} = {}" using strip_query [of "sanitizeText s maxString"] by auto
  then show "set (sanitizeName V s) \<inter> {CHR ''?'', CHR ''#''} = {}" using stripAbsoluteURL_set(2) [OF assms] by (simp add: sanitizeName_def)
qed

lemma sanitizeRoute_printable: "url_paths V \<Longrightarrow> printable (sanitizeRoute V s)"
  using stripAbsoluteURL_set(1) [OF _ sanitizeText_printable]
    printable_subset [OF sanitizeText_printable, of "stripQueryAndFragment (sanitizeText s maxString)" s maxString] strip_query [of "sanitizeText s maxString"]
  by (auto simp: sanitizeRoute_def Let_def)

lemma set_join: "set (join sep xs) \<subseteq> set (concat xs) \<union> set sep"
  by (induction sep xs rule: join.induct) auto

lemma set_path_clean: "set (path_clean p) \<subseteq> set p \<union> {CHR ''.'', CHR ''/''}"
proof -
  have split: "x \<in> set (split_on c q) \<Longrightarrow> set x \<subseteq> set q" for x c q
  proof (induction q arbitrary: x)
    case (Cons a q)
    obtain y ys where y: "split_on c q = y # ys" by (meson split_on_nonempty neq_Nil_conv)
    then have "set y \<subseteq> set q" "z \<in> set ys \<Longrightarrow> set z \<subseteq> set q" for z using Cons.IH [of y] Cons.IH [of z] by simp_all
    then show ?case using Cons.prems y by (cases "a = c") auto
  qed simp
  have "set x \<subseteq> set p \<union> {CHR ''.''}" if "x \<in> set (clean_segs r [] (split_on CHR ''/'' p))" for x r
  proof -
    have "x = ''..'' \<or> x \<in> set (split_on CHR ''/'' p)" using clean_segs_set [of r "[]" "split_on CHR ''/'' p"] that by auto
    then show ?thesis using split [of x "CHR ''/''" p] by auto
  qed
  then have "set (join ''/'' (clean_segs r [] (split_on CHR ''/'' p))) \<subseteq> set p \<union> {CHR ''.'', CHR ''/''}" for r
    using set_join [of "''/''" "clean_segs r [] (split_on CHR ''/'' p)"] by fastforce
  then show ?thesis by (auto simp: path_clean_def Let_def split: if_splits)
qed

lemma sanitizeFile_clean: "printable (sanitizeFile s)" "\<not> sublist ''..'' (sanitizeFile s)"
proof -
  let ?t = "sanitizeText s maxString" and ?p = "path_clean (replace_char (CHR 0x5C) (CHR ''/'') (sanitizeText s maxString))"
  have "set (replace_char (CHR 0x5C) (CHR ''/'') ?t) \<subseteq> set ?t \<union> {CHR ''/''}" by (auto simp: replace_char_def)
  then have "set ?p \<subseteq> set (?t @ ''./'')" using set_path_clean [of "replace_char (CHR 0x5C) (CHR ''/'') ?t"] by auto
  then have "printable ?p" using printable_subset [of "?t @ ''./''" ?p] sanitizeText_printable by simp
  then show "printable (sanitizeFile s)" "\<not> sublist ''..'' (sanitizeFile s)" by (auto simp: sanitizeFile_def Let_def)
qed

section \<open>Spans\<close>

definition hex_id :: "nat \<Rightarrow> string \<Rightarrow> bool" where
  "hex_id n s \<longleftrightarrow> length s = n \<and> list_all is_hex s"

lemma hex_digit_hex: "n < 16 \<Longrightarrow> is_hex (hex_digit n)"
  by (auto simp: hex_digit_def is_hex_def is_digit_def)

lemma hexID_hex: "hex_id (2 * length b) (hexID b)"
proof -
  have lt: "(of_char c :: nat) div 16 < 16" for c by (simp add: less_mult_imp_div_less)
  have "length (hexID b) = 2 * length b" by (induction b) (simp_all add: hexID_def)
  moreover have "list_all is_hex (hexID b)" using hex_digit_hex lt by (auto simp: hexID_def list_all_iff)
  ultimately show ?thesis by (simp add: hex_id_def)
qed

definition methods :: "string list" where
  "methods = [''GET'', ''POST'', ''PUT'', ''PATCH'', ''DELETE'', ''HEAD'', ''OPTIONS'']"

definition clean_text :: "string \<Rightarrow> bool" where
  "clean_text s \<longleftrightarrow> printable s \<and> length (runes s) \<le> 512"

text \<open>The shape of a normalized span.\<close>

definition span_wf :: "span \<Rightarrow> bool" where
  "span_wf s \<longleftrightarrow>
     hex_id 32 (sp_trace_id s) \<and> hex_id 16 (sp_span_id s) \<and> (sp_parent_span_id s = [] \<or> hex_id 16 (sp_parent_span_id s)) \<and>
     sp_service_name s \<noteq> [] \<and> clean_text (sp_service_name s) \<and> clean_text (sp_code_function s) \<and>
     printable (sp_name s) \<and> set (sp_name s) \<inter> {CHR ''?'', CHR ''#''} = {} \<and> printable (sp_http_route s) \<and>
     sp_kind s \<in> {[], ''internal'', ''server'', ''client'', ''producer'', ''consumer''} \<and> sp_status_code s \<in> {[], ''ok'', ''error''} \<and>
     (sp_http_method s = [] \<or> sp_http_method s \<in> set methods) \<and> (sp_http_status s = 0 \<or> 100 \<le> sp_http_status s \<and> sp_http_status s \<le> 599) \<and>
     printable (sp_code_file s) \<and> \<not> sublist ''..'' (sp_code_file s) \<and>
     0 \<le> sp_start_time s \<and> sp_start_time s < 2 ^ 63 \<and> 0 \<le> sp_duration_ns s \<and> sp_duration_ns s < 2 ^ 63"

lemma canonicalMethod_range: "canonicalMethod s = [] \<or> canonicalMethod s \<in> set methods"
  by (auto simp: canonicalMethod_def methods_def Let_def)

lemma splitMethodRoute_range:
  assumes "splitMethodRoute m r = (m', r')"
  shows "m' = [] \<or> m' \<in> set methods" and "printable r \<Longrightarrow> printable r'"
proof -
  show "m' = [] \<or> m' \<in> set methods"
    using assms canonicalMethod_range by (auto simp: splitMethodRoute_def Let_def split: option.splits if_splits prod.splits)
  assume p: "printable r"
  then have t: "printable (trim_space r)" by (rule printable_trim)
  have rest: "printable (trim_space b)" if "cut c (trim_space r) = Some (a, b)" for a b c
  proof -
    have "set b \<subseteq> set (dropWhile (\<lambda>x. x \<noteq> c) (trim_space r))" using that by (auto simp: cut_def split: list.splits)
    also have "\<dots> \<subseteq> set (trim_space r)" by (auto dest: set_dropWhileD)
    finally have "set b \<subseteq> set (trim_space r)" .
    then show ?thesis using printable_trim [OF printable_subset [OF t]] by blast
  qed
  show "printable r'"
    using assms t rest by (auto simp: splitMethodRoute_def Let_def split: option.splits if_splits prod.splits)
qed

lemma normalizeSpan_wf:
  assumes V: "url_paths V" and sv: "service \<noteq> []" "clean_text service" and s: "normalizeSpan V service sp = Some s"
  shows "span_wf s"
proof -
  let ?as = "os_attrs sp"
  obtain m r where mr: "splitMethodRoute (canonicalMethod (attrString V ?as [''http.request.method'', ''http.method''])) (sanitizeRoute V (httpRoute V ?as)) = (m, r)"
    by force
  note m = splitMethodRoute_range(1) [OF mr] and r = splitMethodRoute_range(2) [OF mr sanitizeRoute_printable [OF V]]
  have ids: "validID (os_trace_id sp) 16" "validID (os_span_id sp) 8" "uint (os_start sp) \<le> 2 ^ 63 - 1" "uint (os_end sp) \<le> 2 ^ 63 - 1"
    using s by (auto simp: normalizeSpan_def Let_def split: if_splits)
  have hex: "hex_id 32 (hexID (os_trace_id sp))" "hex_id 16 (hexID (os_span_id sp))"
    "validID (os_parent_span_id sp) 8 \<Longrightarrow> hex_id 16 (hexID (os_parent_span_id sp))"
    using ids(1,2) hexID_hex [of "os_trace_id sp"] hexID_hex [of "os_span_id sp"] hexID_hex [of "os_parent_span_id sp"] by (simp_all add: validID_def)
  have "s = \<lparr>sp_trace_id = hexID (os_trace_id sp), sp_span_id = hexID (os_span_id sp),
      sp_parent_span_id = (if validID (os_parent_span_id sp) 8 then hexID (os_parent_span_id sp) else []),
      sp_service_name = service, sp_name = sanitizeName V (os_name sp), sp_kind = spanKind (os_kind sp),
      sp_status_code = statusCode (os_status sp), sp_http_method = m, sp_http_route = r,
      sp_http_status = canonicalStatus (attrInt ?as [''http.response.status_code'', ''http.status_code'']),
      sp_code_function = sanitizeText (attrString V ?as [''code.function.name'', ''code.function'']) maxString,
      sp_code_file = sanitizeFile (attrString V ?as [''code.file.path'', ''code.filepath'']),
      sp_start_time = uint (os_start sp),
      sp_duration_ns = (if uint (os_end sp) \<ge> uint (os_start sp) then uint (os_end sp) - uint (os_start sp) else 0)\<rparr>"
    using s mr ids by (simp add: normalizeSpan_def Let_def)
  moreover have "spanKind k \<in> {[], ''internal'', ''server'', ''client'', ''producer'', ''consumer''}" for k by (simp add: spanKind_def)
  moreover have "statusCode c \<in> {[], ''ok'', ''error''}" for c by (simp add: statusCode_def split: option.splits)
  moreover have "canonicalStatus n = 0 \<or> 100 \<le> canonicalStatus n \<and> canonicalStatus n \<le> 599" for n by (simp add: canonicalStatus_def)
  moreover have "clean_text (sanitizeText t maxString)" for t
    using sanitizeText_printable sanitizeText_clipped [of t maxString] by (simp add: clean_text_def maxString_def)
  moreover have "uint (os_end sp) - uint (os_start sp) < 9223372036854775808"
  proof -
    have "uint (os_end sp) < 9223372036854775808" using ids(4) by simp
    with uint_ge_0 [of "os_start sp"] show ?thesis by linarith
  qed
  ultimately show ?thesis
    unfolding span_wf_def using hex m r sv ids sanitizeName_clean [OF V] sanitizeFile_clean by (intro conjI) simp_all
qed

text \<open>What the loop over the spans keeps.\<close>

definition report_ok :: "nat \<Rightarrow> otlp_report \<Rightarrow> bool" where
  "report_ok limit out \<longleftrightarrow>
     list_all span_wf (or_spans out) \<and> length (or_spans out) \<le> limit \<and> length (or_spans out) + or_dropped out \<le> or_seen out \<and>
     (or_truncated out \<longleftrightarrow> length (or_spans out) + or_dropped out < or_seen out) \<and> (or_truncated out \<longrightarrow> length (or_spans out) = limit)"

lemma addOtlpSpan_ok:
  assumes "url_paths V" and "service \<noteq> []" and "clean_text service" and "report_ok limit out"
  shows "report_ok limit (addOtlpSpan V limit service sp out)" and "or_seen (addOtlpSpan V limit service sp out) = or_seen out + 1"
proof -
  show "report_ok limit (addOtlpSpan V limit service sp out)"
    using assms(4) normalizeSpan_wf [OF assms(1-3)] by (auto simp: addOtlpSpan_def report_ok_def Let_def split: option.splits)
  show "or_seen (addOtlpSpan V limit service sp out) = or_seen out + 1" by (simp add: addOtlpSpan_def Let_def split: option.splits)
qed

lemma serviceName_ok: "serviceName V as \<noteq> []" "clean_text (serviceName V as)"
proof -
  have "clean_text ''unknown''" by code_simp
  then show "serviceName V as \<noteq> []" "clean_text (serviceName V as)"
    using sanitizeText_printable sanitizeText_clipped [of _ 512] by (simp_all add: serviceName_def clean_text_def maxString_def Let_def)
qed

lemma fold_spans_ok:
  assumes "url_paths V" and "service \<noteq> []" and "clean_text service"
  shows "report_ok limit out \<Longrightarrow> report_ok limit (fold (addOtlpSpan V limit service) sps out) \<and>
    or_seen (fold (addOtlpSpan V limit service) sps out) = or_seen out + length sps"
  using addOtlpSpan_ok [OF assms] by (induction sps arbitrary: out) simp_all

lemma fold_resources_ok:
  assumes "url_paths V"
  shows "report_ok limit out \<Longrightarrow>
    report_ok limit (fold (\<lambda>rs. fold (addOtlpSpan V limit (serviceName V (rs_attrs rs))) (concat (rs_scopes rs))) rss out) \<and>
    or_seen (fold (\<lambda>rs. fold (addOtlpSpan V limit (serviceName V (rs_attrs rs))) (concat (rs_scopes rs))) rss out) =
      or_seen out + (\<Sum>rs\<leftarrow>rss. length (concat (rs_scopes rs)))"
proof (induction rss arbitrary: out)
  case (Cons rs rss)
  then show ?case
    using fold_spans_ok [OF assms serviceName_ok, of limit out V "rs_attrs rs" "concat (rs_scopes rs)"] Cons.IH by simp
qed simp

lemma NormalizeReport_ok:
  assumes "url_paths V"
  shows "let r = NormalizeReport V (Some rss) in
    list_all span_wf (or_spans r) \<and> length (or_spans r) \<le> 10000 \<and> or_seen r = (\<Sum>rs\<leftarrow>rss. length (concat (rs_scopes rs))) \<and>
    (or_truncated r \<longleftrightarrow> length (or_spans r) + or_dropped r < or_seen r) \<and> Rejected r = int (or_seen r - length (or_spans r))"
proof -
  have "report_ok 10000 \<lparr>or_spans = [], or_seen = 0, or_dropped = 0, or_truncated = False\<rparr>" by (simp add: report_ok_def)
  from fold_resources_ok [OF assms this, of rss] show ?thesis
    by (auto simp: NormalizeReport_def normalizeBatch_def maxSpansBatch_def report_ok_def Rejected_def Let_def)
qed

text \<open>
  C26: Every span that normalization keeps is well formed: hexadecimal identifiers of the right length, a service, text
  without control characters, a name without query string or fragment, a known kind, method and status, a file without
  parent segments, and times and durations within 63 bits. At most ten thousand spans are kept, every span of the
  export is counted, and the report is marked truncated exactly when a valid span was left out.
\<close>

theorem normalized_spans_wf:
  assumes "url_paths V"
  shows "let r = NormalizeReport V (Some rss) in
    list_all span_wf (or_spans r) \<and> length (or_spans r) \<le> 10000 \<and> or_seen r = (\<Sum>rs\<leftarrow>rss. length (concat (rs_scopes rs))) \<and>
    (or_truncated r \<longleftrightarrow> length (or_spans r) + or_dropped r < or_seen r) \<and> Rejected r = int (or_seen r - length (or_spans r))"
  by (rule NormalizeReport_ok [OF assms])

text \<open>An environment whose only absolute URL is \<open>http://h/x\<close>, and an export with a valid and an invalid span.\<close>

definition demo_otlp_env :: otlp_env where
  "demo_otlp_env = \<lparr>oe_url = (\<lambda>raw. if raw = ''http://h/x'' then Some (''h'', ''/x'') else None), oe_float = (\<lambda>_. ''0'')\<rparr>"

definition demo_otlp_span :: "string \<Rightarrow> otlp_span" where
  "demo_otlp_span tid = \<lparr>os_trace_id = tid, os_span_id = replicate 8 CHR ''b'', os_parent_span_id = [], os_name = ''GET /cart?u=1'', os_kind = 2,
     os_status = Some 2, os_start = 5, os_end = 9, os_attrs = [(''http.request.method'', Some (AnyString ''get'')), (''http.route'', Some (AnyString ''/cart''))]\<rparr>"

definition demo_export :: "resource_spans list" where
  "demo_export = [\<lparr>rs_attrs = [(''service.name'', Some (AnyString ''cart''))],
     rs_scopes = [[demo_otlp_span (replicate 16 CHR ''a''), demo_otlp_span ''short'']]\<rparr>]"

theorem normalized_spans_wf_witness:
  "let r = NormalizeReport demo_otlp_env (Some demo_export) in
    list_all span_wf (or_spans r) \<and> map sp_name (or_spans r) = [''GET /cart''] \<and> map sp_http_method (or_spans r) = [''GET''] \<and>
    or_seen r = 2 \<and> Rejected r = 1"
proof -
  have V: "url_paths demo_otlp_env" by (simp add: url_paths_def demo_otlp_env_def printable_def)
  have run: "map sp_name (or_spans (NormalizeReport demo_otlp_env (Some demo_export))) = [''GET /cart'']"
    "map sp_http_method (or_spans (NormalizeReport demo_otlp_env (Some demo_export))) = [''GET'']"
    "or_seen (NormalizeReport demo_otlp_env (Some demo_export)) = 2" "Rejected (NormalizeReport demo_otlp_env (Some demo_export)) = 1"
    by code_simp+
  show ?thesis using normalized_spans_wf [OF V, of demo_export] run by (simp add: Let_def)
qed

text \<open>
  A route that has an absolute URL after its own path keeps the query string of that path: only the part from the
  scheme on is parsed, and what precedes it is kept as it came.
\<close>

lemma route_keeps_query:
  "sanitizeRoute demo_otlp_env ''/p?token=abc&u=http://h/x'' = ''/p?token=abc&u= /x'' \<and>
   sanitizeName demo_otlp_env ''/p?token=abc&u=http://h/x'' = ''/p'' \<and> sanitizeRoute demo_otlp_env ''/p?token=abc'' = ''/p''"
  by code_simp

end
