(* ===== verification/Span_Postgres.thy ===== *)
theory Span_Postgres
  imports Ingest "HOL-Library.Multiset"
begin

text \<open>
  The span store in Postgres, \<open>internal/ingest/postgres.go\<close>: the table is the list of its rows, read back as spans, and
  each query is the filter, grouping, order and limit of its SQL text. Rows that a query does not order come in the
  order of the list. Times are stored with microseconds. Calls of the database succeed.
\<close>

section \<open>Operations\<close>

definition span_time :: "time \<Rightarrow> time" where
  "span_time t = t div 1000 * 1000"

text \<open>A span as it is read back: a status that is not positive is stored as null and read as 0.\<close>

definition span_row :: "span \<Rightarrow> span" where
  "span_row s = s\<lparr>sp_http_status := (if sp_http_status s > 0 then sp_http_status s else 0), sp_start_time := span_time (sp_start_time s)\<rparr>"

definition same_key :: "span \<Rightarrow> span \<Rightarrow> bool" where
  "same_key s r = (sp_trace_id s = sp_trace_id r \<and> sp_span_id s = sp_span_id r)"

definition upsertRow :: "span \<Rightarrow> span list \<Rightarrow> span list" where
  "upsertRow s rows =
     (if list_ex (same_key s) rows then map (\<lambda>r. if same_key s r then span_row s else r) rows else rows @ [span_row s])"

definition pgUpsertSpans :: "span list \<Rightarrow> span list \<Rightarrow> span list" where
  "pgUpsertSpans spans rows = fold upsertRow spans rows"

definition pgListSpans :: "list_query \<Rightarrow> span list \<Rightarrow> span list" where
  "pgListSpans q rows =
     take (normalizeLimit (lq_limit q))
       (sort_key (\<lambda>s. - sp_start_time s)
         (filter (\<lambda>s. (lq_trace_id q = [] \<or> sp_trace_id s = lq_trace_id q) \<and> (lq_service q = [] \<or> sp_service_name s = lq_service q)) rows))"

text \<open>The probes that the query of the trace window knows.\<close>

definition sqlProbe :: "span \<Rightarrow> bool" where
  "sqlProbe s =
     ((if sp_http_route s \<noteq> [] then sp_http_route s else sp_name s) \<in>
        {''/healthz'', ''/livez'', ''/readyz'', ''/health'', ''GET /healthz'', ''HEAD /healthz''})"

definition traceRows :: "span list \<Rightarrow> string \<Rightarrow> span list" where
  "traceRows rows tid = filter (\<lambda>s. sp_trace_id s = tid) rows"

definition recentTraces :: "span list \<Rightarrow> nat \<Rightarrow> string \<Rightarrow> string list" where
  "recentTraces rows n service =
     take n
       (sort_key (\<lambda>tid. - Max (sp_start_time ` set (traceRows rows tid)))
         (filter (\<lambda>tid. (service = [] \<or> list_ex (\<lambda>s. sp_service_name s = service) (traceRows rows tid)) \<and>
                        list_ex (\<lambda>s. \<not> sqlProbe s) (traceRows rows tid))
           (remdups (map sp_trace_id rows))))"

definition windowRows :: "span list \<Rightarrow> int \<Rightarrow> string \<Rightarrow> span list" where
  "windowRows rows maxTraces service =
     (let recent = recentTraces rows (normalizeTraceWindow maxTraces) (ClipService service)
      in take maxWindowSpans (sort_key (\<lambda>s. (sp_start_time s, sp_span_id s)) (filter (\<lambda>s. sp_trace_id s \<in> set recent) rows)))"

definition pgListTraceWindow :: "int \<Rightarrow> string \<Rightarrow> span list \<Rightarrow> span list" where
  "pgListTraceWindow maxTraces service rows = SelectWindow (windowRows rows maxTraces service) maxTraces service"

definition pgListAttaches :: "int \<Rightarrow> span list \<Rightarrow> attach list" where
  "pgListAttaches limit rows =
     (let names = remdups (filter (\<lambda>n. n \<noteq> []) (map sp_service_name rows));
          groups = map (\<lambda>n. (n, filter (\<lambda>s. sp_service_name s = n) rows)) names;
          out = map (\<lambda>(n, ss). \<lparr>at_service = n, at_spans = length ss, at_last_seen = Max (sp_start_time ` set ss)\<rparr>) groups;
          page = take (clipAttaches limit) (sort_key (\<lambda>a. (- at_last_seen a, at_service a)) out)
      in filter (\<lambda>a. at_service a \<noteq> []) (map (\<lambda>a. a\<lparr>at_service := ClipService (at_service a)\<rparr>) page))"

section \<open>Rows\<close>

definition rows_ok :: "span list \<Rightarrow> bool" where
  "rows_ok rows \<longleftrightarrow> distinct (map (\<lambda>s. (sp_trace_id s, sp_span_id s)) rows)"

lemma span_row_key [simp]: "sp_trace_id (span_row s) = sp_trace_id s" "sp_span_id (span_row s) = sp_span_id s"
  by (simp_all add: span_row_def)

lemma upsertRow_ok: "rows_ok rows \<Longrightarrow> rows_ok (upsertRow s rows)"
proof (cases "list_ex (same_key s) rows")
  case True
  assume "rows_ok rows"
  moreover have "map (\<lambda>r. (sp_trace_id r, sp_span_id r)) (upsertRow s rows) = map (\<lambda>r. (sp_trace_id r, sp_span_id r)) rows"
    using True by (simp add: upsertRow_def same_key_def)
  ultimately show ?thesis by (simp add: rows_ok_def)
qed (auto simp: rows_ok_def upsertRow_def list_ex_iff same_key_def)

lemma pgUpsertSpans_ok: "rows_ok rows \<Longrightarrow> rows_ok (pgUpsertSpans ss rows)"
  unfolding pgUpsertSpans_def by (induction ss arbitrary: rows) (simp_all add: upsertRow_ok)

text \<open>The table holds what the in-process store holds after the same batches, with the precision of the table.\<close>

definition key_safe :: "span \<Rightarrow> bool" where
  "key_safe s \<longleftrightarrow> CHR ''/'' \<notin> set (sp_trace_id s)"

lemma store_key_inj: "key_safe s \<Longrightarrow> key_safe r \<Longrightarrow> (span_store_key s = span_store_key r) = same_key s r"
proof -
  have split: "a @ CHR ''/'' # x = b @ CHR ''/'' # y \<Longrightarrow> CHR ''/'' \<notin> set a \<Longrightarrow> CHR ''/'' \<notin> set b \<Longrightarrow> a = b \<and> x = y"
    for a b x y :: string
  proof (induction a arbitrary: b)
    case Nil then show ?case by (cases b) auto
  next
    case (Cons c a) then show ?case by (cases b) auto
  qed
  show "key_safe s \<Longrightarrow> key_safe r \<Longrightarrow> ?thesis"
    using split [of "sp_trace_id s" "sp_span_id s" "sp_trace_id r" "sp_span_id r"]
    by (auto simp: key_safe_def span_store_key_def same_key_def)
qed

lemma storedSpans_map:
  assumes "memory_ok m"
  shows "storedSpans m = map (\<lambda>k. the (sm_spans m k)) (sm_order m)"
proof -
  have "filter (\<lambda>k. sm_spans m k \<noteq> None) (sm_order m) = sm_order m"
    using assms by (auto simp: memory_ok_def filter_id_conv domIff)
  then show ?thesis by (simp add: storedSpans_def List.map_filter_def comp_def)
qed

lemma stored_upsert:
  assumes ok: "memory_ok m" and safe: "list_all key_safe (storedSpans m)" "key_safe s"
  shows "storedSpans (upsertSpan (span_row s) m) = upsertRow s (storedSpans m)"
proof -
  let ?k = "span_store_key s" and ?m = "upsertSpan (span_row s) m" and ?at = "\<lambda>k. the (sm_spans m k)"
  have key: "span_store_key (span_row s) = ?k" by (simp add: span_store_key_def)
  have same: "(k = ?k) = same_key s (?at k)" if k: "k \<in> set (sm_order m)" for k
  proof -
    obtain r where r: "sm_spans m k = Some r" "span_store_key r = k" using ok k unfolding memory_ok_def by (metis domD)
    have "key_safe r" using safe(1) k r(1) by (force simp: storedSpans_map [OF ok] list_all_iff)
    then show ?thesis using store_key_inj [OF safe(2), of r] r by auto
  qed
  have new: "storedSpans ?m = map (\<lambda>k. the (sm_spans ?m k)) (sm_order ?m)" by (rule storedSpans_map [OF upsertSpan_ok [OF ok]])
  show ?thesis
  proof (cases "?k \<in> set (sm_order m)")
    case True
    then have "sm_spans m ?k \<noteq> None" using ok by (auto simp: memory_ok_def)
    then have "storedSpans ?m = map (\<lambda>k. if k = ?k then span_row s else ?at k) (sm_order m)"
      unfolding new by (auto simp: upsertSpan_def key Let_def)
    moreover have "list_ex (same_key s) (storedSpans m)" using same [OF True] True by (force simp: storedSpans_map [OF ok] list_ex_iff)
    ultimately show ?thesis using same by (simp add: upsertRow_def storedSpans_map [OF ok])
  next
    case False
    then have "sm_spans m ?k = None" using ok by (auto simp: memory_ok_def)
    then have "storedSpans ?m = map ?at (sm_order m) @ [span_row s]"
      unfolding new using False by (auto simp: upsertSpan_def key Let_def)
    moreover have "\<not> list_ex (same_key s) (storedSpans m)" using same False by (force simp: storedSpans_map [OF ok] list_ex_iff)
    ultimately show ?thesis by (simp add: upsertRow_def storedSpans_map [OF ok])
  qed
qed

lemma upsertRow_safe: "key_safe s \<Longrightarrow> list_all key_safe rows \<Longrightarrow> list_all key_safe (upsertRow s rows)"
  by (auto simp: upsertRow_def list_all_iff key_safe_def)

lemma stored_upserts:
  assumes "memory_ok m" and "list_all key_safe (storedSpans m)" and "list_all key_safe ss"
  shows "storedSpans (UpsertSpans (map span_row ss) m) = pgUpsertSpans ss (storedSpans m)"
  using assms unfolding UpsertSpans_def pgUpsertSpans_def
  by (induction ss arbitrary: m) (simp_all add: stored_upsert upsertSpan_ok upsertRow_safe)

section \<open>The window\<close>

text \<open>The group of a trace holds the rows of the trace, in their order.\<close>

lemma collectTraces_rows:
  "t \<in> set (collectTraces spans) \<Longrightarrow> ti_spans t = traceRows spans (ti_id t)"
  "ti_id ` set (collectTraces spans) = sp_trace_id ` set spans - {[]}"
proof -
  let ?step = "\<lambda>s ts. if sp_trace_id s = [] then ts else addTrace s ts"
  have add: "ti_spans t = traceRows (done1 @ [s]) (ti_id t)"
    if "t \<in> set (addTrace s ts)" "\<forall>t\<in>set ts. ti_spans t = traceRows done1 (ti_id t)" "distinct (map ti_id ts)"
      "sp_trace_id s \<notin> set (map ti_id ts) \<Longrightarrow> traceRows done1 (sp_trace_id s) = []" for t ts done1 s
    using that
  proof (induction ts)
    case (Cons u ts)
    show ?case
    proof (cases "ti_id u = sp_trace_id s")
      case True
      then show ?thesis using Cons.prems by (auto simp: traceRows_def)
    next
      case False
      then show ?thesis using Cons by (auto simp: traceRows_def)
    qed
  qed (auto simp: traceRows_def)
  have inv: "(\<forall>t\<in>set (fold ?step spans []). ti_spans t = traceRows spans (ti_id t)) \<and> distinct (map ti_id (fold ?step spans [])) \<and>
      ti_id ` set (fold ?step spans []) = sp_trace_id ` set spans - {[]}"
  proof (induction spans rule: rev_induct)
    case (snoc s spans)
    let ?ts = "fold ?step spans []"
    show ?case
    proof (cases "sp_trace_id s = []")
      case True
      have "ti_id t \<noteq> []" if "t \<in> set ?ts" for t using snoc that by blast
      then show ?thesis using snoc True by (auto simp: traceRows_def)
    next
      case False
      have "traceRows spans (sp_trace_id s) = []" if "sp_trace_id s \<notin> set (map ti_id ?ts)"
      proof -
        have "sp_trace_id s \<notin> sp_trace_id ` set spans" using snoc that False by simp
        then show ?thesis unfolding traceRows_def filter_empty_conv by (metis imageI)
      qed
      then have "\<forall>t\<in>set (addTrace s ?ts). ti_spans t = traceRows (spans @ [s]) (ti_id t)" using add [of _ s ?ts spans] snoc by blast
      then show ?thesis using snoc False addTrace_distinct [of ?ts s] addTrace_ids [of s ?ts] by auto
    qed
  qed simp
  show "t \<in> set (collectTraces spans) \<Longrightarrow> ti_spans t = traceRows spans (ti_id t)"
    "ti_id ` set (collectTraces spans) = sp_trace_id ` set spans - {[]}" using inv by (simp_all add: collectTraces_def)
qed

lemma traceRows_sorted:
  assumes "rows_ok rows" and "mset xs = mset (traceRows rows tid)"
  shows "sortTraceSpans xs = sortTraceSpans (traceRows rows tid)"
proof -
  let ?k = "\<lambda>s. (sp_start_time s, sp_span_id s)"
  have "inj_on sp_span_id (set (traceRows rows tid))"
  proof (rule inj_onI)
    fix x y
    assume x: "x \<in> set (traceRows rows tid)" and y: "y \<in> set (traceRows rows tid)" and "sp_span_id x = sp_span_id y"
    then have "(sp_trace_id x, sp_span_id x) = (sp_trace_id y, sp_span_id y)" by (auto simp: traceRows_def)
    moreover have "inj_on (\<lambda>s. (sp_trace_id s, sp_span_id s)) (set rows)" using assms(1) by (simp add: rows_ok_def distinct_map)
    ultimately show "x = y" using x y by (auto simp: traceRows_def dest: inj_onD)
  qed
  moreover have "set xs = set (traceRows rows tid)" using assms(2) by (metis set_mset_mset)
  ultimately have "inj_on ?k (set xs)" by (auto simp: inj_on_def)
  then show ?thesis unfolding sortTraceSpans_def using assms(2) by (intro sort_key_inj_key_eq) auto
qed

text \<open>Two lists of traces in the order of the window that have the same traces list them in the same order.\<close>

lemma desc_unique:
  fixes xs ys :: "'a :: linorder list"
  assumes "sorted_wrt (\<lambda>a b. b \<le> a) xs" and "sorted_wrt (\<lambda>a b. b \<le> a) ys" and "distinct xs" and "distinct ys" and "set xs = set ys"
  shows "xs = ys"
proof -
  have "sorted (rev xs)" "sorted (rev ys)" using assms(1,2) by (simp_all add: sorted_wrt_rev)
  then have "rev xs = rev ys" using assms(3-5) by (intro sorted_distinct_set_unique) auto
  then show ?thesis by simp
qed

lemma image_within: "I \<subseteq> f ` A \<Longrightarrow> f ` {x \<in> A. f x \<in> I} = I"
  by auto

definition trace_last :: "span list \<Rightarrow> string \<Rightarrow> time" where
  "trace_last rows tid = Max (sp_start_time ` set (traceRows rows tid))"

definition trace_wanted :: "span list \<Rightarrow> string \<Rightarrow> string \<Rightarrow> bool" where
  "trace_wanted rows service tid \<longleftrightarrow>
     (service = [] \<or> list_ex (\<lambda>s. sp_service_name s = service) (traceRows rows tid)) \<and> list_ex (\<lambda>s. \<not> probeRoute s) (traceRows rows tid)"

lemma group_facts:
  assumes "t \<in> set (groupTraces rows)"
  shows "ti_spans t = traceRows rows (ti_id t)" and "ti_last t = trace_last rows (ti_id t)"
    and "eligible_trace service t \<longleftrightarrow> trace_wanted rows service (ti_id t)"
proof -
  have t: "t \<in> set (collectTraces rows)" using assms by simp
  show sp: "ti_spans t = traceRows rows (ti_id t)" by (rule collectTraces_rows(1) [OF t])
  have "trace_ok t" using collectTraces_ok [of rows] t by (simp add: list_all_iff)
  then show "ti_last t = trace_last rows (ti_id t)" by (simp add: trace_ok_def trace_last_def sp)
  show "eligible_trace service t \<longleftrightarrow> trace_wanted rows service (ti_id t)"
    by (auto simp: eligible_trace_def trace_wanted_def probeOnly_def traceTouches_def sp list_ex_iff list_all_iff)
qed

lemma group_order:
  "map (\<lambda>t. (ti_last t, ti_id t)) (groupTraces rows) = map (\<lambda>tid. (trace_last rows tid, tid)) (map ti_id (groupTraces rows))"
  using group_facts(2) by simp

lemma group_distinct: "distinct (map ti_id (groupTraces rows))"
  using groupTraces_partition by blast

lemma group_sorted: "sorted_wrt (\<lambda>a b. b \<le> a) (map (\<lambda>tid. (trace_last rows tid, tid)) (map ti_id (groupTraces rows)))"
  unfolding group_order [symmetric] using groupTraces_partition [of rows] by (simp add: sorted_wrt_map)

text \<open>The query takes the traces that the window keeps, when the two agree on what a probe is.\<close>

definition same_probes :: "span list \<Rightarrow> bool" where
  "same_probes rows \<longleftrightarrow> (\<forall>s\<in>set rows. sqlProbe s = probeRoute s)"

definition distinct_times :: "span list \<Rightarrow> bool" where
  "distinct_times rows \<longleftrightarrow> inj_on (trace_last rows) (sp_trace_id ` set rows)"

lemma recent_traces:
  assumes "same_probes rows" and "distinct_times rows" and "\<forall>s\<in>set rows. sp_trace_id s \<noteq> []"
  shows "recentTraces rows n service = take n (map ti_id (filter (eligible_trace service) (groupTraces rows)))"
proof -
  let ?R = "map ti_id (filter (eligible_trace service) (groupTraces rows))"
  let ?I = "filter (trace_wanted rows service) (remdups (map sp_trace_id rows))"
  have ids: "set (map ti_id (groupTraces rows)) = sp_trace_id ` set rows" using collectTraces_rows(2) [of rows] assms(3) by auto
  have R: "?R = filter (trace_wanted rows service) (map ti_id (groupTraces rows))"
    unfolding filter_map comp_def using group_facts(3) [of _ rows service] by (intro arg_cong [where f = "map ti_id"] filter_cong) auto
  have dR: "distinct ?R" unfolding R using group_distinct by (rule distinct_filter)
  have set: "set ?R = set ?I" unfolding R using ids by auto
  have "sorted_wrt (\<lambda>a b. b \<le> a) (map (\<lambda>tid. (trace_last rows tid, tid)) ?R)"
    unfolding R using group_sorted [of rows] by (simp add: sorted_wrt_map sorted_wrt_filter)
  then have "sorted (map (\<lambda>tid. - trace_last rows tid) ?R)"
    by (auto simp: sorted_wrt_map elim: sorted_wrt_mono_rel [rotated])
  moreover have "mset ?I = mset ?R" using iffD1 [OF set_eq_iff_mset_eq_distinct, of ?I ?R] set dR by simp
  moreover have "inj_on (\<lambda>tid. - trace_last rows tid) (set ?I)"
    using assms(2) by (auto simp: distinct_times_def inj_on_def)
  ultimately have "sort_key (\<lambda>tid. - trace_last rows tid) ?I = ?R" by (intro sort_key_inj_key_eq)
  moreover have "list_ex (\<lambda>s. \<not> sqlProbe s) (traceRows rows tid) = list_ex (\<lambda>s. \<not> probeRoute s) (traceRows rows tid)" for tid
    using assms(1) by (auto simp: same_probes_def traceRows_def list_ex_iff)
  ultimately show ?thesis by (simp add: recentTraces_def trace_last_def [symmetric] trace_wanted_def [symmetric])
qed

text \<open>
  C40: The two span stores agree on the trace window: for the same spans, with distinct keys and at most ten thousand of
  them, the query and the selection that follows it return what the in-process store returns. The query orders traces
  by their last start time only, so these times differ, and it has its own list of probes, which agrees with the
  selection on the stored spans.
\<close>

theorem pg_window_matches:
  assumes "rows_ok rows" and "same_probes rows" and "distinct_times rows" and "\<forall>s\<in>set rows. sp_trace_id s \<noteq> []"
    and "length rows \<le> maxWindowSpans"
  shows "pgListTraceWindow n service rows = SelectWindow rows n service"
proof -
  define svc where "svc = ClipService service"
  define N where "N = normalizeTraceWindow n"
  define R where "R = take N (filter (eligible_trace svc) (groupTraces rows))"
  define W where "W = windowRows rows n service"
  have R: "set R \<subseteq> set (groupTraces rows)" "\<forall>t\<in>set R. eligible_trace svc t" "length R \<le> N" "distinct (map ti_id R)"
    "sorted_wrt (\<lambda>a b. b \<le> a) (map (\<lambda>tid. (trace_last rows tid, tid)) (map ti_id R))"
    using set_take_subset [of N "filter (eligible_trace svc) (groupTraces rows)"] group_sorted [of rows] group_distinct [of rows]
    by (auto simp: R_def take_map [symmetric] distinct_map_filter sorted_wrt_map sorted_wrt_filter sorted_wrt_take)
  have W: "W = sort_key (\<lambda>s. (sp_start_time s, sp_span_id s)) (filter (\<lambda>s. sp_trace_id s \<in> ti_id ` set R) rows)"
  proof -
    have "recentTraces rows N svc = map ti_id R" using recent_traces [OF assms(2-4)] by (simp add: R_def take_map)
    moreover have "length (filter (\<lambda>s. sp_trace_id s \<in> ti_id ` set R) rows) \<le> maxWindowSpans" by (rule order_trans [OF length_filter_le assms(5)])
    ultimately show ?thesis by (simp add: W_def windowRows_def flip: N_def svc_def)
  qed
  have "ti_id ` set R \<subseteq> ti_id ` set (groupTraces rows)" by (rule image_mono [OF R(1)])
  then have ids: "ti_id ` set R \<subseteq> sp_trace_id ` set rows" using collectTraces_rows(2) [of rows] by auto
  have rows: "mset (traceRows W tid) = mset (traceRows rows tid)" if "tid \<in> ti_id ` set R" for tid
  proof -
    have "traceRows (filter (\<lambda>s. sp_trace_id s \<in> ti_id ` set R) rows) tid = traceRows rows tid"
      using that unfolding traceRows_def filter_filter by (intro filter_cong) auto
    moreover have "mset (traceRows W tid) = mset (traceRows (filter (\<lambda>s. sp_trace_id s \<in> ti_id ` set R) rows) tid)"
      unfolding W traceRows_def mset_filter mset_sort ..
    ultimately show ?thesis by simp
  qed
  have same: "set (traceRows W tid) = set (traceRows rows tid)" if "tid \<in> ti_id ` set R" for tid
    using rows [OF that] by (metis set_mset_mset)
  have "sp_trace_id ` {s \<in> set rows. sp_trace_id s \<in> ti_id ` set R} = ti_id ` set R" by (rule image_within [OF ids])
  then have "sp_trace_id ` set W = ti_id ` set R" by (simp add: W)
  then have set_ids: "ti_id ` set (groupTraces W) = ti_id ` set R"
    using collectTraces_rows(2) [of W] ids assms(4) by auto
  have order: "map ti_id (groupTraces W) = map ti_id R"
  proof -
    let ?f = "\<lambda>tid. (trace_last rows tid, tid)"
    have eq: "map (\<lambda>tid. (trace_last W tid, tid)) (map ti_id (groupTraces W)) = map ?f (map ti_id (groupTraces W))"
      using same set_ids by (intro map_cong refl) (auto simp: trace_last_def)
    have "sorted_wrt (\<lambda>a b. b \<le> a) (map ?f (map ti_id (groupTraces W)))" using group_sorted [of W] unfolding eq .
    moreover have "distinct (map ?f (map ti_id (groupTraces W)))" "distinct (map ?f (map ti_id R))"
      using group_distinct [of W] R(4) by (auto simp: distinct_map inj_on_def)
    moreover have "set (map ?f (map ti_id (groupTraces W))) = set (map ?f (map ti_id R))" using set_ids by (metis set_map)
    ultimately have "map ?f (map ti_id (groupTraces W)) = map ?f (map ti_id R)" using R(5) by (intro desc_unique)
    then have "map snd (map ?f (map ti_id (groupTraces W))) = map snd (map ?f (map ti_id R))" by (rule arg_cong)
    then show ?thesis by (simp add: comp_def)
  qed
  have "eligible_trace svc t" if t: "t \<in> set (groupTraces W)" for t
  proof -
    have tid: "ti_id t \<in> ti_id ` set R" using set_ids t by blast
    then obtain u where u: "u \<in> set R" "ti_id u = ti_id t" by auto
    then have "trace_wanted rows svc (ti_id t)" using R(1,2) group_facts(3) by (metis subsetD)
    then have "trace_wanted W svc (ti_id t)" using same [OF tid] by (simp add: trace_wanted_def list_ex_iff)
    then show ?thesis using group_facts(3) [OF t] by simp
  qed
  then have all: "filter (eligible_trace svc) (groupTraces W) = groupTraces W" by (simp add: filter_id_conv)
  have "length (groupTraces W) = length R" using arg_cong [OF order, of length] by simp
  then have whole: "take N (groupTraces W) = groupTraces W" using R(3) by simp
  have "map (\<lambda>t. sortTraceSpans (ti_spans t)) (groupTraces W) = map (\<lambda>tid. sortTraceSpans (traceRows W tid)) (map ti_id (groupTraces W))"
    using group_facts(1) [of _ W] by simp
  also have "\<dots> = map (\<lambda>tid. sortTraceSpans (traceRows rows tid)) (map ti_id R)"
    unfolding order using traceRows_sorted [OF assms(1) rows] by (intro map_cong refl) auto
  also have "\<dots> = map (\<lambda>t. sortTraceSpans (ti_spans t)) R"
    using group_facts(1) [of _ rows] R(1) by auto
  finally have groups: "map (\<lambda>t. sortTraceSpans (ti_spans t)) (groupTraces W) = map (\<lambda>t. sortTraceSpans (ti_spans t)) R" .
  show ?thesis
    unfolding pgListTraceWindow_def SelectWindow_spec W_def [symmetric] svc_def [symmetric] N_def [symmetric] all whole groups R_def ..
qed

text \<open>A readiness probe of a service without a route, and a request.\<close>

definition ready_span :: "string \<Rightarrow> time \<Rightarrow> span" where
  "ready_span t start = (demo_span t ''1'' start)\<lparr>sp_name := ''GET /readyz'', sp_http_route := []\<rparr>"

theorem pg_window_matches_witness:
  "map sp_trace_id (pgListTraceWindow 1 [] [demo_span ''a'' ''1'' 1000, demo_span ''b'' ''1'' 2000, demo_span ''b'' ''2'' 1500]) = [''b'', ''b'']"
proof -
  let ?rows = "[demo_span ''a'' ''1'' 1000, demo_span ''b'' ''1'' 2000, demo_span ''b'' ''2'' 1500]"
  have "rows_ok ?rows" "same_probes ?rows" by (simp add: rows_ok_def demo_span_def, unfold same_probes_def, code_simp)
  moreover have "trace_last ?rows ''a'' = 1000" "trace_last ?rows ''b'' = 2000"
    by (simp_all add: trace_last_def traceRows_def demo_span_def)
  then have "distinct_times ?rows" by (simp add: distinct_times_def inj_on_def demo_span_def)
  moreover have "\<forall>s\<in>set ?rows. sp_trace_id s \<noteq> []" "length ?rows \<le> maxWindowSpans" by (simp_all add: demo_span_def maxWindowSpans_def)
  ultimately have "pgListTraceWindow 1 [] ?rows = SelectWindow ?rows 1 []" by (rule pg_window_matches)
  moreover have "map sp_trace_id (SelectWindow ?rows 1 []) = [''b'', ''b'']" by code_simp
  ultimately show ?thesis by simp
qed

text \<open>
  Readiness probes can hide every request from the window of the Postgres store: the query does not know the probe
  \<open>GET /readyz\<close>, so its traces fill the trace limit, and the selection that does know it then drops them. The
  in-process store with the same spans returns the request.
\<close>

lemma pg_window_starved:
  "pgListTraceWindow 1 [] (pgUpsertSpans [demo_span ''a'' ''1'' 1000, ready_span ''b'' 2000] []) = [] \<and>
   ListTraceWindow 1 [] (UpsertSpans [demo_span ''a'' ''1'' 1000, ready_span ''b'' 2000] \<lparr>sm_spans = Map.empty, sm_order = []\<rparr>) =
     [demo_span ''a'' ''1'' 1000]"
  by code_simp

end
