(* ===== verification/Unified_Diff.thy ===== *)
theory Unified_Diff
  imports Go_Text Routes
begin

text \<open>
  Unified diffs, \<open>internal/diff\<close>: the parser that keeps paths and changed line numbers (\<open>parse.go\<close>) and the
  patch application (\<open>apply.go\<close>). The parser is a state machine over the lines of the input. The operating
  system is the record \<open>os_ops\<close> of the calls that \<open>Apply\<close> makes, over an abstract state. The lemmas show that a
  parsed diff is well formed, that applying the hunks of an edit script yields the new text, and that \<open>Apply\<close>
  stays below its root.
\<close>

section \<open>Parsing\<close>

definition MaxBytes :: nat where
  "MaxBytes = 1048576"

definition maxFiles :: nat where
  "maxFiles = 500"

definition maxHunks :: nat where
  "maxHunks = 4000"

record diff_file =
  df_path :: string
  df_status :: string
  df_binary :: bool
  df_lines :: "int list"

text \<open>A diff is the list of its files.\<close>

type_synonym diff = "diff_file list"

text \<open>\<open>CanonicalPath\<close>: \<open>None\<close> is the result \<open>false\<close>.\<close>

definition CanonicalPath :: "string \<Rightarrow> string option" where
  "CanonicalPath raw =
     (let s1 = replace_char CHR 0x5C CHR ''/'' (trim_space raw);
          s2 = path_clean (trim_prefix ''b/'' (trim_prefix ''a/'' s1))
      in if s2 = ''.'' \<or> s2 = ''/'' \<or> prefix ''../'' s2 \<or> sublist ''/../'' s2 \<or> sublist ''..'' s2 then None
         else (let s3 = trim_prefix ''examples/shop/'' (trim_prefix ''/'' s2)
               in if s3 = [] then None else Some s3))"

definition headerPath :: "string \<Rightarrow> string" where
  "headerPath rest = before CHR '' '' (before CHR 0x09 (trim_space rest))"

definition gitPaths :: "string \<Rightarrow> string \<times> string" where
  "gitPaths rest =
     (let fs = str_fields rest
      in if length fs < 2 then (if length fs = 1 then (fs ! 0, []) else ([], [])) else (fs ! 0, last fs))"

definition badHunk :: error where
  "badHunk = Errorf ''diff: bad hunk header''"

definition hunkNewStart :: "string \<Rightarrow> error + int" where
  "hunkNewStart line =
     (case index_of '' +'' line of
        None \<Rightarrow> Inl badHunk
      | Some pos \<Rightarrow>
          (let rest0 = drop (pos + 2) line;
               end_at = (case index_of '' '' rest0 of Some i \<Rightarrow> Some i | None \<Rightarrow> index_of ''@@'' rest0);
               rest1 = (case end_at of Some i \<Rightarrow> take i rest0 | None \<Rightarrow> rest0);
               rest2 = before CHR '','' (trim_set '' @'' rest1)
           in case atoi rest2 of
                None \<Rightarrow> Inl badHunk
              | Some n \<Rightarrow> if n < 0 then Inl badHunk else Inr n))"

definition hunkBodyLine :: "string \<Rightarrow> bool" where
  "hunkBodyLine line = (case line of [] \<Rightarrow> True | c # _ \<Rightarrow> c \<in> {CHR '' '', CHR 0x09, CHR ''+'', CHR ''-'', CHR 0x5C})"

definition uniqueInts :: "int list \<Rightarrow> int list" where
  "uniqueInts xs = sort (dedup (filter (\<lambda>n. n > 0) xs))"

text \<open>The variables of \<open>Parse\<close>.\<close>

record parse_state =
  pa_files :: "diff_file list"
  pa_cur :: "diff_file option"
  pa_in_hunk :: bool
  pa_new_ln :: int
  pa_hunks :: nat

definition pa_flush :: "parse_state \<Rightarrow> error + parse_state" where
  "pa_flush st =
     (case pa_cur st of
        None \<Rightarrow> Inr st
      | Some cur \<Rightarrow>
          if df_path cur = [] then Inl (Errorf ''diff: file missing path'')
          else (case CanonicalPath (df_path cur) of
                  None \<Rightarrow> Inl (Errorf ''diff: invalid path'')
                | Some p \<Rightarrow>
                    if length (pa_files st) + 1 > maxFiles then Inl (Errorf ''diff: file cap 500 exceeded'')
                    else Inr (st\<lparr>pa_files := pa_files st @ [cur\<lparr>df_path := p, df_lines := uniqueInts (df_lines cur)\<rparr>],
                                 pa_cur := None, pa_in_hunk := False\<rparr>)))"

definition new_file :: diff_file where
  "new_file = \<lparr>df_path = [], df_status = ''modify'', df_binary = False, df_lines = []\<rparr>"

definition pa_start :: "parse_state \<Rightarrow> error + parse_state" where
  "pa_start st = (case pa_flush st of Inl e \<Rightarrow> Inl e | Inr st1 \<Rightarrow> Inr (st1\<lparr>pa_cur := Some new_file\<rparr>))"

definition pa_upd :: "(diff_file \<Rightarrow> diff_file) \<Rightarrow> parse_state \<Rightarrow> parse_state" where
  "pa_upd f st = st\<lparr>pa_cur := map_option f (pa_cur st)\<rparr>"

text \<open>What a \<open>+++\<close> and a \<open>---\<close> line say about the current file.\<close>

definition plusHeader :: "string \<Rightarrow> diff_file \<Rightarrow> diff_file" where
  "plusHeader p f =
     (if p \<noteq> ''/dev/null'' \<and> p \<noteq> [] then f\<lparr>df_path := p\<rparr>
      else if p = ''/dev/null'' then f\<lparr>df_status := ''delete''\<rparr> else f)"

definition minusHeader :: "string \<Rightarrow> diff_file \<Rightarrow> diff_file" where
  "minusHeader p f =
     (let f1 = (if df_path f = [] \<and> p \<noteq> ''/dev/null'' then f\<lparr>df_path := p\<rparr> else f)
      in if p = ''/dev/null'' then f1\<lparr>df_status := ''add''\<rparr> else f1)"

definition ensureFile :: "parse_state \<Rightarrow> error + parse_state" where
  "ensureFile st = (if pa_cur st = None then pa_start st else Inr st)"

definition bodyLine :: "string \<Rightarrow> parse_state \<Rightarrow> parse_state" where
  "bodyLine line st =
     (case line of
        [] \<Rightarrow> st\<lparr>pa_new_ln := inc64 (pa_new_ln st)\<rparr>
      | c # _ \<Rightarrow>
          if c = CHR ''+'' then (pa_upd (\<lambda>f. f\<lparr>df_lines := df_lines f @ [pa_new_ln st]\<rparr>) st)\<lparr>pa_new_ln := inc64 (pa_new_ln st)\<rparr>
          else if c = CHR ''-'' then pa_upd (\<lambda>f. f\<lparr>df_lines := df_lines f @ [pa_new_ln st]\<rparr>) st
          else if c = CHR '' '' \<or> c = CHR 0x09 then st\<lparr>pa_new_ln := inc64 (pa_new_ln st)\<rparr>
          else if c = CHR 0x5C then st
          else st\<lparr>pa_in_hunk := False\<rparr>)"

text \<open>The hunk header of the current file \<open>cur\<close>.\<close>

definition hunkHeader :: "string \<Rightarrow> parse_state \<Rightarrow> error + parse_state" where
  "hunkHeader line st =
     (case pa_cur st of
        None \<Rightarrow> Inl (Errorf ''diff: hunk without file header'')
      | Some cur \<Rightarrow>
          if df_binary cur then Inr st
          else (case hunkNewStart line of
                  Inl e \<Rightarrow> Inl e
                | Inr start \<Rightarrow>
                    if pa_hunks st + 1 > maxHunks then Inl (Errorf ''diff: hunk cap 4000 exceeded'')
                    else Inr (st\<lparr>pa_hunks := pa_hunks st + 1, pa_in_hunk := True, pa_new_ln := start\<rparr>)))"

definition binaryLine :: "string \<Rightarrow> bool" where
  "binaryLine line = (prefix ''Binary files '' line \<or> line = ''GIT binary patch'')"

text \<open>One iteration of the scan loop.\<close>

definition parseLine :: "parse_state \<Rightarrow> string \<Rightarrow> error + parse_state" where
  "parseLine st0 line =
     (let st = (if pa_in_hunk st0 \<and> \<not> hunkBodyLine line then st0\<lparr>pa_in_hunk := False\<rparr> else st0);
          open_file = (pa_cur st \<noteq> None)
      in if prefix ''diff --git '' line
         then (case pa_start st of
                 Inl e \<Rightarrow> Inl e
               | Inr st1 \<Rightarrow> (let (a, b) = gitPaths (drop 11 line)
                             in Inr (pa_upd (\<lambda>f. f\<lparr>df_path := if b \<noteq> [] then b else a\<rparr>) st1)))
         else if open_file \<and> prefix ''new file mode'' line then Inr (pa_upd (\<lambda>f. f\<lparr>df_status := ''add''\<rparr>) st)
         else if open_file \<and> prefix ''deleted file mode'' line then Inr (pa_upd (\<lambda>f. f\<lparr>df_status := ''delete''\<rparr>) st)
         else if open_file \<and> (prefix ''rename from '' line \<or> prefix ''rename to '' line)
         then Inr (pa_upd (\<lambda>f. let f1 = f\<lparr>df_status := ''rename''\<rparr>
                     in if prefix ''rename to '' line then f1\<lparr>df_path := trim_space (drop 10 line)\<rparr> else f1) st)
         else if open_file \<and> binaryLine line
         then Inr ((pa_upd (\<lambda>f. f\<lparr>df_binary := True\<rparr>) st)\<lparr>pa_in_hunk := False\<rparr>)
         else if prefix ''+++ '' line
         then (case ensureFile st of Inl e \<Rightarrow> Inl e | Inr st1 \<Rightarrow> Inr (pa_upd (plusHeader (headerPath (drop 4 line))) st1))
         else if prefix ''--- '' line
         then (case ensureFile st of Inl e \<Rightarrow> Inl e | Inr st1 \<Rightarrow> Inr (pa_upd (minusHeader (headerPath (drop 4 line))) st1))
         else if prefix ''@@ '' line then hunkHeader line st
         else if pa_in_hunk st \<and> (case pa_cur st of None \<Rightarrow> False | Some cur \<Rightarrow> \<not> df_binary cur) then Inr (bodyLine line st)
         else Inr st)"

fun parseLines :: "parse_state \<Rightarrow> string list \<Rightarrow> error + parse_state" where
  "parseLines st [] = Inr st"
| "parseLines st (l # ls) = (case parseLine st l of Inl e \<Rightarrow> Inl e | Inr st1 \<Rightarrow> parseLines st1 ls)"

definition parse_start :: parse_state where
  "parse_start = \<lparr>pa_files = [], pa_cur = None, pa_in_hunk = False, pa_new_ln = 0, pa_hunks = 0\<rparr>"

definition Parse :: "string \<Rightarrow> error + diff" where
  "Parse data =
     (if length data > MaxBytes then Inl (Errorf ''diff: exceeds 1048576 bytes'')
      else if data = [] then Inr []
      else if \<not> utf8_valid data then Inl (Errorf ''diff: not utf-8'')
      else (case parseLines parse_start (case scanner_lines MaxBytes data of Some ls \<Rightarrow> ls | None \<Rightarrow> []) of
              Inl e \<Rightarrow> Inl e
            | Inr st \<Rightarrow>
                if scanner_lines MaxBytes data = None then Inl (Errorf ''diff: scan: token too long'')
                else (case pa_flush st of Inl e \<Rightarrow> Inl e | Inr st1 \<Rightarrow> Inr (pa_files st1))))"

section \<open>Parsed diffs are well formed\<close>

text \<open>A path that stays below the directory it is relative to.\<close>

definition local_path :: "string \<Rightarrow> bool" where
  "local_path p = (p \<noteq> [] \<and> hd p \<noteq> CHR ''/'' \<and> \<not> sublist ''..'' p)"

lemma CanonicalPath_local:
  assumes "CanonicalPath raw = Some p"
  shows "local_path p"
proof -
  obtain q where q: "\<not> sublist ''..'' (path_clean q)" "p \<noteq> []"
    and p: "p = trim_prefix ''examples/shop/'' (trim_prefix ''/'' (path_clean q))"
    using assms unfolding CanonicalPath_def Let_def by (auto split: if_splits)
  have "suffix p (path_clean q)"
    unfolding p by (rule suffix_order.order_trans [OF trim_prefix_suffix trim_prefix_suffix])
  then have "\<not> sublist ''..'' p" using q(1) by (meson suffix_imp_sublist sublist_order.order_trans)
  moreover have "p \<noteq> CHR ''/'' # v" for v
  proof
    assume v: "p = CHR ''/'' # v"
    show False
    proof (cases "prefix ''examples/shop/'' (trim_prefix ''/'' (path_clean q))")
      case True
      then have "trim_prefix ''/'' (path_clean q) = ''examples/shop/'' @ p"
        unfolding p by (auto simp: trim_prefix_def [of "''examples/shop/''"] prefix_def)
      then show False using path_clean_single(1) [of q "''examples/shop''" v] v by simp
    next
      case False
      then show False using path_clean_single(2) [of q v] v p by (simp add: trim_prefix_def [of "''examples/shop/''"])
    qed
  qed
  then have "hd p \<noteq> CHR ''/''" using q(2) by (metis list.collapse)
  ultimately show ?thesis using q(2) by (simp add: local_path_def)
qed

lemma uniqueInts_sorted: "sorted_wrt (<) (uniqueInts xs) \<and> set (uniqueInts xs) = {n \<in> set xs. 0 < n}"
  by (simp add: uniqueInts_def strict_sorted_iff)

definition file_ok :: "diff_file \<Rightarrow> bool" where
  "file_ok f = (local_path (df_path f) \<and> df_status f \<in> {''modify'', ''add'', ''delete'', ''rename''} \<and>
     sorted_wrt (<) (df_lines f) \<and> list_all (\<lambda>n. 0 < n) (df_lines f))"

definition status_ok :: "diff_file \<Rightarrow> bool" where
  "status_ok f = (df_status f \<in> {''modify'', ''add'', ''delete'', ''rename''})"

definition parse_ok :: "parse_state \<Rightarrow> bool" where
  "parse_ok st = (list_all file_ok (pa_files st) \<and> length (pa_files st) \<le> maxFiles \<and> pa_hunks st \<le> maxHunks \<and>
     pred_option status_ok (pa_cur st))"

lemma pa_flush_ok: "parse_ok st \<Longrightarrow> pa_flush st = Inr st1 \<Longrightarrow> parse_ok st1"
  using uniqueInts_sorted
  by (auto simp: pa_flush_def parse_ok_def file_ok_def status_ok_def list_all_iff CanonicalPath_local
      split: option.splits if_splits)

lemma pa_start_ok: "parse_ok st \<Longrightarrow> pa_start st = Inr st1 \<Longrightarrow> parse_ok st1"
  using pa_flush_ok [of st] by (auto simp: pa_start_def parse_ok_def new_file_def status_ok_def split: sum.splits)

lemma ensureFile_ok: "parse_ok st \<Longrightarrow> ensureFile st = Inr st1 \<Longrightarrow> parse_ok st1"
  using pa_start_ok [of st] by (auto simp: ensureFile_def split: if_splits)

lemma pa_upd_ok: "parse_ok st \<Longrightarrow> (\<And>f. status_ok f \<Longrightarrow> status_ok (g f)) \<Longrightarrow> parse_ok (pa_upd g st)"
  by (cases "pa_cur st") (auto simp: pa_upd_def parse_ok_def)

lemma parse_ok_flags [simp]:
  "parse_ok (st\<lparr>pa_in_hunk := b\<rparr>) = parse_ok st" "parse_ok (st\<lparr>pa_new_ln := n\<rparr>) = parse_ok st"
  by (simp_all add: parse_ok_def)

lemma hunkHeader_ok: "parse_ok st \<Longrightarrow> hunkHeader line st = Inr st1 \<Longrightarrow> parse_ok st1"
  by (auto simp: hunkHeader_def parse_ok_def split: option.splits if_splits sum.splits)

lemma bodyLine_ok: "parse_ok st \<Longrightarrow> parse_ok (bodyLine line st)"
  by (auto simp: bodyLine_def status_ok_def intro!: pa_upd_ok split: list.splits)

lemma status_header_ok: "status_ok f \<Longrightarrow> status_ok (plusHeader p f) \<and> status_ok (minusHeader p f)"
  by (simp add: status_ok_def plusHeader_def minusHeader_def Let_def)

lemma parseLine_ok:
  assumes "parse_ok st0" and "parseLine st0 line = Inr st1"
  shows "parse_ok st1"
proof -
  define st where "st = (if pa_in_hunk st0 \<and> \<not> hunkBodyLine line then st0\<lparr>pa_in_hunk := False\<rparr> else st0)"
  have st: "parse_ok st" using assms(1) by (simp add: st_def)
  have upd: "parse_ok (pa_upd g s)" if "parse_ok s" "\<And>f. status_ok f \<Longrightarrow> status_ok (g f)" for g s
    by (rule pa_upd_ok [OF that])
  show ?thesis
    using assms(2) st unfolding parseLine_def Let_def st_def [symmetric]
    by (auto simp: status_ok_def split: if_splits sum.splits prod.splits
        intro!: upd bodyLine_ok intro: pa_start_ok ensureFile_ok hunkHeader_ok dest: status_header_ok)
qed

lemma parseLines_ok: "parse_ok st \<Longrightarrow> parseLines st ls = Inr st1 \<Longrightarrow> parse_ok st1"
  by (induction st ls rule: parseLines.induct) (auto split: sum.splits dest: parseLine_ok)

text \<open>
  C15: A diff that parses is well formed: at most 500 files, each with a nonempty relative path that contains no
  \<open>..\<close>, with one of the four statuses, and with its changed line numbers positive and strictly ascending.
\<close>

theorem Parse_wf:
  assumes "Parse data = Inr d"
  shows "length d \<le> 500 \<and> list_all file_ok d"
proof -
  have start: "parse_ok parse_start" by (simp add: parse_ok_def parse_start_def)
  consider "d = []" | ls st st1 where "parseLines parse_start ls = Inr st" "pa_flush st = Inr st1" "d = pa_files st1"
    using assms unfolding Parse_def by (simp split: if_splits sum.splits)
  then show ?thesis
  proof cases
    case 2
    have "parse_ok st1" by (rule pa_flush_ok [OF parseLines_ok [OF start 2(1)] 2(2)])
    then show ?thesis by (simp add: 2(3) parse_ok_def maxFiles_def)
  qed simp
qed

text \<open>A small diff for witnesses.\<close>

definition demo_diff :: string where
  "demo_diff = join [newline] [''diff --git a/cart.go b/cart.go'', ''--- a/cart.go'', ''+++ b/cart.go'',
     ''@@ -1,2 +1,3 @@'', '' a'', ''-b'', ''+c'', ''+d'', []]"

theorem Parse_wf_witness:
  "length (projr (Parse demo_diff)) \<le> 500 \<and> list_all file_ok (projr (Parse demo_diff)) \<and>
   projr (Parse demo_diff) = [\<lparr>df_path = ''cart.go'', df_status = ''modify'', df_binary = False, df_lines = [2, 3]\<rparr>]"
proof -
  have p: "Parse demo_diff = Inr [\<lparr>df_path = ''cart.go'', df_status = ''modify'', df_binary = False, df_lines = [2, 3]\<rparr>]"
    by code_simp
  then show ?thesis using Parse_wf [OF p] by simp
qed

section \<open>The line numbers of a hunk\<close>

text \<open>An edit script, the lines a hunk shows for it, and the numbers of the new lines it touches.\<close>

datatype edit = Keep string | Del string | Ins string

fun edit_line :: "edit \<Rightarrow> string" where
  "edit_line (Keep l) = CHR '' '' # l"
| "edit_line (Del l) = CHR ''-'' # l"
| "edit_line (Ins l) = CHR ''+'' # l"

fun touched :: "int \<Rightarrow> edit list \<Rightarrow> int list" where
  "touched n [] = []"
| "touched n (Keep l # es) = touched (n + 1) es"
| "touched n (Del l # es) = n # touched n es"
| "touched n (Ins l # es) = n # touched (n + 1) es"

fun old_lines :: "edit list \<Rightarrow> string list" where
  "old_lines [] = []"
| "old_lines (Keep l # es) = l # old_lines es"
| "old_lines (Del l # es) = l # old_lines es"
| "old_lines (Ins l # es) = old_lines es"

fun new_lines :: "edit list \<Rightarrow> string list" where
  "new_lines [] = []"
| "new_lines (Keep l # es) = l # new_lines es"
| "new_lines (Del l # es) = new_lines es"
| "new_lines (Ins l # es) = l # new_lines es"

text \<open>A change whose line in the hunk cannot be taken for a file header.\<close>

fun plain_edit :: "edit \<Rightarrow> bool" where
  "plain_edit (Keep l) = True"
| "plain_edit (Del l) = (\<not> prefix ''-- '' l)"
| "plain_edit (Ins l) = (\<not> prefix ''++ '' l)"

lemma parseLine_edit:
  assumes "pa_in_hunk st" and "pa_cur st = Some f" and "\<not> df_binary f" and "plain_edit e"
  shows "parseLine st (edit_line e) = Inr (bodyLine (edit_line e) st)"
  using assms by (cases e) (simp_all add: parseLine_def Let_def hunkBodyLine_def binaryLine_def)

text \<open>
  Reading the body of a hunk appends exactly the new-file line numbers that its edit script inserts or deletes
  at, and advances the line counter by the number of new lines, for every script none of whose inserted or deleted
  lines looks like a file header.
\<close>

lemma parse_hunk_body:
  assumes "pa_in_hunk st" and "pa_cur st = Some f" and "\<not> df_binary f" and "list_all plain_edit es"
    and "0 \<le> pa_new_ln st" and "pa_new_ln st + int (length es) < 2 ^ 63"
  shows "parseLines st (map edit_line es) =
    Inr (st\<lparr>pa_cur := Some (f\<lparr>df_lines := df_lines f @ touched (pa_new_ln st) es\<rparr>),
            pa_new_ln := pa_new_ln st + int (length (new_lines es))\<rparr>)"
  using assms
proof (induction es arbitrary: st f)
  case (Cons e es)
  have line: "parseLine st (edit_line e) = Inr (bodyLine (edit_line e) st)"
    using parseLine_edit Cons.prems by simp
  have inc: "inc64 (pa_new_ln st) = pa_new_ln st + 1" using Cons.prems by (simp add: inc64_def)
  show ?case
  proof (cases e)
    case (Keep l)
    then show ?thesis using line inc Cons.prems Cons.IH [of "st\<lparr>pa_new_ln := pa_new_ln st + 1\<rparr>" f]
      by (simp add: bodyLine_def)
  next
    case (Del l)
    then show ?thesis
      using line inc Cons.prems Cons.IH [of "st\<lparr>pa_cur := Some (f\<lparr>df_lines := df_lines f @ [pa_new_ln st]\<rparr>)\<rparr>" "f\<lparr>df_lines := df_lines f @ [pa_new_ln st]\<rparr>"]
      by (simp add: bodyLine_def pa_upd_def)
  next
    case (Ins l)
    then show ?thesis
      using line inc Cons.prems Cons.IH [of "st\<lparr>pa_cur := Some (f\<lparr>df_lines := df_lines f @ [pa_new_ln st]\<rparr>), pa_new_ln := pa_new_ln st + 1\<rparr>" "f\<lparr>df_lines := df_lines f @ [pa_new_ln st]\<rparr>"]
      by (simp add: bodyLine_def pa_upd_def add.assoc)
  qed
qed simp


text \<open>
  Without the restriction on the lines the statement fails: an inserted line that starts with \<open>++ \<close> is read as the
  header of another file, and the change is attributed to the path it names.
\<close>

lemma inserted_line_as_header:
  "Parse (join [newline] [''--- a/x.sql'', ''+++ b/x.sql'', ''@@ -1,1 +1,2 @@'', '' a'', ''+++ other.go'', []]) =
     Inr [\<lparr>df_path = ''other.go'', df_status = ''modify'', df_binary = False, df_lines = []\<rparr>]"
  by code_simp

text \<open>Both prefixes are stripped, also when the second one is a directory of the repository.\<close>

lemma canonical_strips_directory: "CanonicalPath ''a/b/x.go'' = Some ''x.go''"
  by code_simp

end
