(* ===== verification/Source_Graph.thy ===== *)
theory Source_Graph
  imports Go_Text
begin

text \<open>
  The static source graph, \<open>internal/source\<close>: the graph with its indexes (\<open>graph.go\<close>), the check of a decoded
  snapshot (\<open>snapshot.go\<close>) and the builder that turns type-checked packages into nodes and edges (\<open>load.go\<close>).
  What the Go type checker reports of a package is the record \<open>go_package\<close>. The lemmas show that the indexes
  answer as the edge list does, and that every graph the builder produces passes the snapshot check.
\<close>

section \<open>The graph\<close>

record node =
  nd_id :: string
  nd_kind :: string
  nd_name :: string
  nd_pkg :: string
  nd_file :: string
  nd_line :: int
  nd_end_line :: int

record edge =
  ed_from :: string
  ed_to :: string
  ed_kind :: string
  ed_provenance :: string

record neighbor =
  nb_node :: node
  nb_kind :: string
  nb_direction :: string

record snapshot =
  ss_module :: string
  ss_nodes :: "node list"
  ss_edges :: "edge list"

record sgraph =
  sg_module :: string
  sg_nodes :: "node list"
  sg_edges :: "edge list"
  sg_by_id :: "string \<rightharpoonup> nat"
  sg_out :: "string \<Rightarrow> nat list"
  sg_in :: "string \<Rightarrow> nat list"

definition maxNodes :: nat where
  "maxNodes = 20000"

definition sourceMaxEdges :: nat where
  "sourceMaxEdges = 80000"

text \<open>\<open>index\<close>: the last node of an id wins; the edges of an id are listed in order.\<close>

definition sg_index :: "sgraph \<Rightarrow> sgraph" where
  "sg_index g =
     g\<lparr>sg_by_id := fold (\<lambda>(i, n) m. m(nd_id n \<mapsto> i)) (enumerate 0 (sg_nodes g)) Map.empty,
       sg_out := fold (\<lambda>(i, e) m. m(ed_from e := m (ed_from e) @ [i])) (enumerate 0 (sg_edges g)) (\<lambda>_. []),
       sg_in := fold (\<lambda>(i, e) m. m(ed_to e := m (ed_to e) @ [i])) (enumerate 0 (sg_edges g)) (\<lambda>_. [])\<rparr>"

definition graph_of :: "string \<Rightarrow> node list \<Rightarrow> edge list \<Rightarrow> sgraph" where
  "graph_of m ns es = sg_index \<lparr>sg_module = m, sg_nodes = ns, sg_edges = es, sg_by_id = Map.empty, sg_out = (\<lambda>_. []), sg_in = (\<lambda>_. [])\<rparr>"

definition sg_snapshot :: "sgraph \<Rightarrow> snapshot" where
  "sg_snapshot g = \<lparr>ss_module = sg_module g, ss_nodes = sg_nodes g, ss_edges = sg_edges g\<rparr>"

definition Node :: "sgraph \<Rightarrow> string \<Rightarrow> node option" where
  "Node g i = map_option (\<lambda>k. sg_nodes g ! k) (sg_by_id g i)"

definition Neighbors :: "sgraph \<Rightarrow> string \<Rightarrow> neighbor list option" where
  "Neighbors g i =
     (if sg_by_id g i = None then None
      else (let outs = List.map_filter (\<lambda>k. let e = sg_edges g ! k
                  in map_option (\<lambda>n. \<lparr>nb_node = n, nb_kind = ed_kind e, nb_direction = ''out''\<rparr>) (Node g (ed_to e))) (sg_out g i);
                ins = List.map_filter (\<lambda>k. let e = sg_edges g ! k
                  in map_option (\<lambda>n. \<lparr>nb_node = n, nb_kind = ed_kind e, nb_direction = ''in''\<rparr>) (Node g (ed_from e))) (sg_in g i)
            in Some (sort_key (\<lambda>n. (nb_direction n, nb_kind n, nd_id (nb_node n))) (outs @ ins))))"

section \<open>Snapshots\<close>

definition validateNode :: "node \<Rightarrow> error option" where
  "validateNode n =
     (if nd_id n = [] then Some (Errorf ''source: node missing id'')
      else if nd_kind n \<in> {''package'', ''file'', ''function''} then None
      else Some (Errorf ''source: unknown node kind''))"

definition validateEdge :: "edge \<Rightarrow> string list \<Rightarrow> error option" where
  "validateEdge e seen =
     (if ed_from e \<notin> set seen then Some (Errorf ''source: dangling edge from'')
      else if ed_to e \<notin> set seen then Some (Errorf ''source: dangling edge to'')
      else if ed_kind e \<notin> {''imports'', ''contains'', ''calls''} then Some (Errorf ''source: unknown edge kind'')
      else if ed_provenance e \<notin> {''types'', ''syntax''} then Some (Errorf ''source: unknown provenance'')
      else None)"

text \<open>The loop over the nodes, with the ids \<open>seen\<close> so far; and the loop over the edges.\<close>

fun validateNodes :: "node list \<Rightarrow> string list \<Rightarrow> error + string list" where
  "validateNodes [] seen = Inr seen"
| "validateNodes (n # ns) seen =
     (case validateNode n of
        Some e \<Rightarrow> Inl e
      | None \<Rightarrow> if nd_id n \<in> set seen then Inl (Errorf ''source: duplicate node'')
                else validateNodes ns (seen @ [nd_id n]))"

fun validateEdges :: "edge list \<Rightarrow> string list \<Rightarrow> error option" where
  "validateEdges [] seen = None"
| "validateEdges (e # es) seen = (case validateEdge e seen of Some err \<Rightarrow> Some err | None \<Rightarrow> validateEdges es seen)"

definition FromSnapshot :: "snapshot \<Rightarrow> error + sgraph" where
  "FromSnapshot snap =
     (if trim_space (ss_module snap) = [] then Inl (Errorf ''source: snapshot missing module'')
      else if length (ss_nodes snap) > maxNodes then Inl (Errorf ''source: snapshot node cap 20000 exceeded'')
      else if length (ss_edges snap) > sourceMaxEdges then Inl (Errorf ''source: snapshot edge cap 80000 exceeded'')
      else (case validateNodes (ss_nodes snap) [] of
              Inl e \<Rightarrow> Inl e
            | Inr seen \<Rightarrow>
                (case validateEdges (ss_edges snap) seen of
                   Some e \<Rightarrow> Inl e
                 | None \<Rightarrow> Inr (graph_of (ss_module snap) (ss_nodes snap) (ss_edges snap)))))"

section \<open>Building the graph\<close>

text \<open>
  What the type checker says of a package: its import path and name, whether it was type checked, its errors, the
  path of its module (empty if unknown), its imports
  (with the name of a loaded import), and its files. A file has its path below the module root, if it lies there,
  and its function declarations in source order: full name, name, package path (or none), position, last line and
  the functions its body calls, if it has a body.
\<close>

record go_func =
  gf_full_name :: string
  gf_name :: string
  gf_pkg :: "string option"
  gf_file :: "string option"
  gf_line :: int

record go_decl =
  gd_func :: go_func
  gd_end :: int
  gd_calls :: "go_func list"

record go_package =
  gp_path :: string
  gp_name :: string
  gp_typed :: bool
  gp_errors :: "string list"
  gp_module :: string
  gp_imports :: "(string \<times> string option) list"
  gp_files :: "(string option \<times> go_decl list) list"

record builder =
  bd_module :: string
  bd_nodes :: "node list"
  bd_edges :: "edge list"
  bd_ends :: "string \<rightharpoonup> int"
  bd_funcs :: nat

definition inModule :: "string \<Rightarrow> string \<Rightarrow> bool" where
  "inModule pkgPath modulePath = (pkgPath = modulePath \<or> prefix (modulePath @ ''/'') pkgPath)"

definition pkgID :: "string \<Rightarrow> string" where
  "pkgID p = ''pkg:'' @ p"

definition fileID :: "string \<Rightarrow> string" where
  "fileID rel = ''file:'' @ rel"

definition funcID :: "string \<Rightarrow> string" where
  "funcID n = ''func:'' @ n"

text \<open>\<open>node\<close> and \<open>edge\<close> of the builder; the sets \<open>seenN\<close> and \<open>seenE\<close> hold what is in the lists.\<close>

definition bd_node :: "node \<Rightarrow> builder \<Rightarrow> error + builder" where
  "bd_node n b =
     (if nd_id n = [] then Inl (Errorf ''source: empty node id'')
      else if nd_id n \<in> set (map nd_id (bd_nodes b)) then Inr b
      else if length (bd_nodes b) + 1 > maxNodes then Inl (Errorf ''source: node cap 20000 exceeded'')
      else Inr (b\<lparr>bd_nodes := bd_nodes b @ [n]\<rparr>))"

definition edge_key :: "string \<Rightarrow> string \<Rightarrow> string \<Rightarrow> string" where
  "edge_key from to kind = from @ [CHR 0x00] @ to @ [CHR 0x00] @ kind"

definition bd_edge :: "string \<Rightarrow> string \<Rightarrow> string \<Rightarrow> string \<Rightarrow> builder \<Rightarrow> error + builder" where
  "bd_edge from to kind provenance b =
     (if from = [] \<or> to = [] \<or> from = to then Inr b
      else if edge_key from to kind \<in> set (map (\<lambda>e. edge_key (ed_from e) (ed_to e) (ed_kind e)) (bd_edges b)) then Inr b
      else if length (bd_edges b) + 1 > sourceMaxEdges then Inl (Errorf ''source: edge cap 80000 exceeded'')
      else Inr (b\<lparr>bd_edges := bd_edges b @ [\<lparr>ed_from = from, ed_to = to, ed_kind = kind, ed_provenance = provenance\<rparr>]\<rparr>))"

definition funcNode :: "go_func \<Rightarrow> error + node" where
  "funcNode f =
     (case gf_pkg f of
        None \<Rightarrow> Inl (Errorf ''source: function has no package'')
      | Some p \<Rightarrow> Inr \<lparr>nd_id = funcID (gf_full_name f), nd_kind = ''function'', nd_name = gf_name f, nd_pkg = p,
                        nd_file = (case gf_file f of Some rel \<Rightarrow> rel | None \<Rightarrow> []), nd_line = gf_line f, nd_end_line = 0\<rparr>)"

text \<open>The calls in the body of the function \<open>fid\<close>, in the order of the syntax tree.\<close>

fun walkCalls :: "string \<Rightarrow> go_func list \<Rightarrow> builder \<Rightarrow> error + builder" where
  "walkCalls fid [] b = Inr b"
| "walkCalls fid (c # cs) b =
     (case gf_pkg c of
        None \<Rightarrow> walkCalls fid cs b
      | Some p \<Rightarrow>
          if \<not> inModule p (bd_module b) then walkCalls fid cs b
          else (case funcNode c of
                  Inl e \<Rightarrow> Inl e
                | Inr cnode \<Rightarrow>
                    (case bd_node cnode b of
                       Inl e \<Rightarrow> Inl e
                     | Inr b1 \<Rightarrow>
                         (case bd_edge fid (nd_id cnode) ''calls'' ''types'' b1 of
                            Inl e \<Rightarrow> Inl e
                          | Inr b2 \<Rightarrow> walkCalls fid cs b2))))"

fun walkFile :: "string \<Rightarrow> go_decl list \<Rightarrow> builder \<Rightarrow> error + builder" where
  "walkFile fid [] b = Inr b"
| "walkFile fid (d # ds) b =
     (case funcNode (gd_func d) of
        Inl e \<Rightarrow> Inl e
      | Inr fnNode \<Rightarrow>
          (case bd_node fnNode b of
             Inl e \<Rightarrow> Inl e
           | Inr b1 \<Rightarrow>
               (let b2 = b1\<lparr>bd_funcs := bd_funcs b1 + 1, bd_ends := (bd_ends b1)(nd_id fnNode \<mapsto> gd_end d)\<rparr>
                in case bd_edge fid (nd_id fnNode) ''contains'' ''syntax'' b2 of
                     Inl e \<Rightarrow> Inl e
                   | Inr b3 \<Rightarrow>
                       (case walkCalls (nd_id fnNode) (gd_calls d) b3 of
                          Inl e \<Rightarrow> Inl e
                        | Inr b4 \<Rightarrow> walkFile fid ds b4))))"

fun addImports :: "string \<Rightarrow> (string \<times> string option) list \<Rightarrow> builder \<Rightarrow> error + builder" where
  "addImports pkg [] b = Inr b"
| "addImports pkg ((importPath, ip) # is) b =
     (case ip of
        None \<Rightarrow> addImports pkg is b
      | Some name \<Rightarrow>
          if \<not> inModule importPath (bd_module b) then addImports pkg is b
          else (case bd_node \<lparr>nd_id = pkgID importPath, nd_kind = ''package'', nd_name = (if name = [] then importPath else name),
                              nd_pkg = importPath, nd_file = [], nd_line = 0, nd_end_line = 0\<rparr> b of
                  Inl e \<Rightarrow> Inl e
                | Inr b1 \<Rightarrow>
                    (case bd_edge (pkgID pkg) (pkgID importPath) ''imports'' ''types'' b1 of
                       Inl e \<Rightarrow> Inl e
                     | Inr b2 \<Rightarrow> addImports pkg is b2)))"

fun addFiles :: "string \<Rightarrow> (string option \<times> go_decl list) list \<Rightarrow> builder \<Rightarrow> error + builder" where
  "addFiles pkg [] b = Inr b"
| "addFiles pkg ((rel, ds) # fs) b =
     (case rel of
        None \<Rightarrow> addFiles pkg fs b
      | Some r \<Rightarrow>
          (case bd_node \<lparr>nd_id = fileID r, nd_kind = ''file'', nd_name = path_base r, nd_pkg = pkg, nd_file = r,
                         nd_line = 0, nd_end_line = 0\<rparr> b of
             Inl e \<Rightarrow> Inl e
           | Inr b1 \<Rightarrow>
               (case bd_edge (pkgID pkg) (fileID r) ''contains'' ''syntax'' b1 of
                  Inl e \<Rightarrow> Inl e
                | Inr b2 \<Rightarrow>
                    (case walkFile (fileID r) ds b2 of Inl e \<Rightarrow> Inl e | Inr b3 \<Rightarrow> addFiles pkg fs b3))))"

definition addPackage :: "go_package \<Rightarrow> builder \<Rightarrow> error + builder" where
  "addPackage p b =
     (if \<not> gp_typed p then Inl (Errorf ''source: package missing types'')
      else (case bd_node \<lparr>nd_id = pkgID (gp_path p), nd_kind = ''package'', nd_name = (if gp_name p = [] then gp_path p else gp_name p),
                          nd_pkg = gp_path p, nd_file = [], nd_line = 0, nd_end_line = 0\<rparr> b of
              Inl e \<Rightarrow> Inl e
            | Inr b1 \<Rightarrow>
                (case addImports (gp_path p) (gp_imports p) b1 of
                   Inl e \<Rightarrow> Inl e
                 | Inr b2 \<Rightarrow> addFiles (gp_path p) (gp_files p) b2)))"

definition bd_graph :: "builder \<Rightarrow> sgraph" where
  "bd_graph b =
     graph_of (bd_module b)
       (sort_key nd_id (map (\<lambda>n. case bd_ends b (nd_id n) of Some l \<Rightarrow> n\<lparr>nd_end_line := l\<rparr> | None \<Rightarrow> n) (bd_nodes b)))
       (sort_key (\<lambda>e. (ed_from e, ed_to e, ed_kind e)) (bd_edges b))"

fun addPackages :: "go_package list \<Rightarrow> builder \<Rightarrow> error + builder" where
  "addPackages [] b = Inr b"
| "addPackages (p # ps) b =
     (if \<not> inModule (gp_path p) (bd_module b) then addPackages ps b
      else (case addPackage p b of Inl e \<Rightarrow> Inl e | Inr b1 \<Rightarrow> addPackages ps b1))"

definition newBuilder :: "string \<Rightarrow> builder" where
  "newBuilder m = \<lparr>bd_module = m, bd_nodes = [], bd_edges = [], bd_ends = Map.empty, bd_funcs = 0\<rparr>"

text \<open>\<open>Load\<close> from the point where the packages are loaded.\<close>

definition modulePathOf :: "go_package list \<Rightarrow> string" where
  "modulePathOf pkgs = (case find (\<lambda>p. gp_module p \<noteq> []) pkgs of Some p \<Rightarrow> gp_module p | None \<Rightarrow> [])"

definition LoadPackages :: "go_package list \<Rightarrow> error + sgraph" where
  "LoadPackages pkgs =
     (if pkgs = [] then Inl (Errorf ''source: no packages'')
      else if list_ex (\<lambda>p. gp_errors p \<noteq> []) pkgs then Inl (Errorf ''source: load'')
      else if modulePathOf pkgs = [] then Inl (Errorf ''source: module path missing'')
      else (case addPackages pkgs (newBuilder (modulePathOf pkgs)) of
              Inl e \<Rightarrow> Inl e
            | Inr b \<Rightarrow> if bd_funcs b = 0 then Inl (Errorf ''source: no functions'') else Inr (bd_graph b)))"

section \<open>The builder produces valid snapshots\<close>

definition node_ok :: "node \<Rightarrow> bool" where
  "node_ok n = (nd_id n \<noteq> [] \<and> nd_kind n \<in> {''package'', ''file'', ''function''})"

definition edge_ok :: "string set \<Rightarrow> edge \<Rightarrow> bool" where
  "edge_ok ids e = (ed_from e \<in> ids \<and> ed_to e \<in> ids \<and> ed_kind e \<in> {''imports'', ''contains'', ''calls''} \<and>
     ed_provenance e \<in> {''types'', ''syntax''})"

definition bd_ids :: "builder \<Rightarrow> string set" where
  "bd_ids b = nd_id ` set (bd_nodes b)"

definition builder_ok :: "builder \<Rightarrow> bool" where
  "builder_ok b = (distinct (map nd_id (bd_nodes b)) \<and> list_all node_ok (bd_nodes b) \<and> length (bd_nodes b) \<le> maxNodes \<and>
     length (bd_edges b) \<le> sourceMaxEdges \<and> list_all (edge_ok (bd_ids b)) (bd_edges b))"

text \<open>A step of the builder keeps its invariant, its module and its nodes.\<close>

definition extends :: "builder \<Rightarrow> builder \<Rightarrow> bool" where
  "extends b b' = (builder_ok b' \<and> bd_ids b \<subseteq> bd_ids b' \<and> bd_module b' = bd_module b)"

lemma extends_trans [trans]: "extends b b1 \<Longrightarrow> extends b1 b2 \<Longrightarrow> extends b b2"
  by (auto simp: extends_def)

lemma extends_refl: "builder_ok b \<Longrightarrow> extends b b"
  by (simp add: extends_def)

lemma edge_ok_mono: "edge_ok A e \<Longrightarrow> A \<subseteq> B \<Longrightarrow> edge_ok B e"
  by (auto simp: edge_ok_def)

lemma bd_node_extends:
  assumes "builder_ok b" and "nd_kind n \<in> {''package'', ''file'', ''function''}" and "bd_node n b = Inr b'"
  shows "extends b b' \<and> nd_id n \<in> bd_ids b'"
proof (cases "nd_id n \<in> bd_ids b")
  case True
  then have "b' = b" using assms(3) by (simp add: bd_node_def bd_ids_def split: if_splits)
  then show ?thesis using True assms(1) by (simp add: extends_refl)
next
  case False
  then have b': "b' = b\<lparr>bd_nodes := bd_nodes b @ [n]\<rparr>" "nd_id n \<noteq> []" "length (bd_nodes b) + 1 \<le> maxNodes"
    using assms(3) by (auto simp: bd_node_def bd_ids_def split: if_splits)
  have "bd_ids b' = insert (nd_id n) (bd_ids b)" by (simp add: b' bd_ids_def)
  moreover have "list_all (edge_ok (bd_ids b')) (bd_edges b')"
    using assms(1) edge_ok_mono [of "bd_ids b" _ "bd_ids b'"] calculation by (auto simp: builder_ok_def list_all_iff b'(1))
  ultimately show ?thesis
    using assms(1,2) b' False by (auto simp: extends_def builder_ok_def node_ok_def bd_ids_def)
qed

lemma bd_edge_extends:
  assumes "builder_ok b" and "from \<in> bd_ids b" and "to \<in> bd_ids b"
    and "kind \<in> {''imports'', ''contains'', ''calls''}" and "prov \<in> {''types'', ''syntax''}"
    and "bd_edge from to kind prov b = Inr b'"
  shows "extends b b'"
  using assms by (auto simp: bd_edge_def extends_def builder_ok_def edge_ok_def bd_ids_def split: if_splits)

lemma funcNode_kind: "funcNode f = Inr n \<Longrightarrow> nd_kind n = ''function''"
  by (auto simp: funcNode_def split: option.splits)

lemma extendsD: "extends b b' \<Longrightarrow> builder_ok b'" "extends b b' \<Longrightarrow> i \<in> bd_ids b \<Longrightarrow> i \<in> bd_ids b'"
  by (auto simp: extends_def)

lemma node_edge_extends:
  assumes "builder_ok b" and "fid \<in> bd_ids b" and "nd_kind n \<in> {''package'', ''file'', ''function''}"
    and "bd_node n b = Inr b1" and "kind \<in> {''imports'', ''contains'', ''calls''}" and "prov \<in> {''types'', ''syntax''}"
    and "bd_edge fid (nd_id n) kind prov b1 = Inr b2"
  shows "extends b b2 \<and> nd_id n \<in> bd_ids b2"
proof -
  note n = bd_node_extends [OF assms(1,3,4)]
  have "extends b1 b2"
    by (rule bd_edge_extends [OF _ _ _ assms(5-7)]) (use n extendsD assms(2) in blast)+
  then show ?thesis using n extends_trans extendsD by blast
qed

lemma walkCalls_extends:
  "builder_ok b \<Longrightarrow> fid \<in> bd_ids b \<Longrightarrow> walkCalls fid cs b = Inr b' \<Longrightarrow> extends b b'"
proof (induction fid cs b rule: walkCalls.induct)
  case (2 fid c cs b)
  consider (skip) "walkCalls fid cs b = Inr b'" "gf_pkg c = None \<or> (\<exists>p. gf_pkg c = Some p \<and> \<not> inModule p (bd_module b))"
    | (call) p n b1 b2 where "gf_pkg c = Some p" "inModule p (bd_module b)" "funcNode c = Inr n" "bd_node n b = Inr b1"
        "bd_edge fid (nd_id n) ''calls'' ''types'' b1 = Inr b2" "walkCalls fid cs b2 = Inr b'"
    using "2.prems"(3) by (auto split: option.splits if_splits sum.splits)
  then show ?case
  proof cases
    case skip
    then show ?thesis using "2.IH"(1,2) "2.prems"(1,2) by auto
  next
    case call
    have e: "extends b b2"
      using node_edge_extends [OF "2.prems"(1,2) _ call(4) _ _ call(5)] funcNode_kind [OF call(3)] by simp
    have "extends b2 b'"
      by (rule "2.IH"(3) [OF call(1) _ call(3,4,5) extendsD(1) [OF e] extendsD(2) [OF e "2.prems"(2)] call(6)]) (simp add: call(2))
    then show ?thesis using e extends_trans by blast
  qed
qed (simp add: extends_refl)

lemma walkFile_extends:
  "builder_ok b \<Longrightarrow> fid \<in> bd_ids b \<Longrightarrow> walkFile fid ds b = Inr b' \<Longrightarrow> extends b b'"
proof (induction fid ds b rule: walkFile.induct)
  case (2 fid d ds b)
  obtain n b1 where n: "funcNode (gd_func d) = Inr n" "bd_node n b = Inr b1"
    using "2.prems"(3) by (auto split: sum.splits)
  define b2 where "b2 = b1\<lparr>bd_funcs := bd_funcs b1 + 1, bd_ends := (bd_ends b1)(nd_id n \<mapsto> gd_end d)\<rparr>"
  obtain b3 b4 where w: "bd_edge fid (nd_id n) ''contains'' ''syntax'' b2 = Inr b3" "walkCalls (nd_id n) (gd_calls d) b3 = Inr b4"
      "walkFile fid ds b4 = Inr b'"
    using "2.prems"(3) n by (auto simp: b2_def Let_def split: sum.splits)
  note e1 = bd_node_extends [OF "2.prems"(1) _ n(2)]
  have k: "nd_kind n \<in> {''package'', ''file'', ''function''}" using funcNode_kind [OF n(1)] by simp
  have e2: "extends b b2 \<and> nd_id n \<in> bd_ids b2"
    using e1 [OF k] by (simp add: extends_def builder_ok_def bd_ids_def b2_def)
  have e3: "extends b2 b3"
    by (rule bd_edge_extends [OF _ _ _ _ _ w(1)]) (use e2 extendsD "2.prems"(2) in auto)
  have e4: "extends b3 b4"
    by (rule walkCalls_extends [OF _ _ w(2)]) (use e2 e3 extendsD in blast)+
  have e: "extends b b4" using e2 e3 e4 extends_trans by blast
  have "extends b4 b'"
    by (rule "2.IH" [OF n b2_def w(1,2) extendsD(1) [OF e] extendsD(2) [OF e "2.prems"(2)] w(3)])
  then show ?case using e extends_trans by blast
qed (simp add: extends_refl)

lemma addImports_extends:
  "builder_ok b \<Longrightarrow> pkgID pkg \<in> bd_ids b \<Longrightarrow> addImports pkg is b = Inr b' \<Longrightarrow> extends b b'"
proof (induction pkg "is" b rule: addImports.induct)
  case (2 pkg importPath ip "is" b)
  consider (skip) "addImports pkg is b = Inr b'" "ip = None \<or> (\<exists>n. ip = Some n \<and> \<not> inModule importPath (bd_module b))"
    | (imp) name n b1 b2 where "ip = Some name" "inModule importPath (bd_module b)"
        "n = \<lparr>nd_id = pkgID importPath, nd_kind = ''package'', nd_name = (if name = [] then importPath else name),
              nd_pkg = importPath, nd_file = [], nd_line = 0, nd_end_line = 0\<rparr>"
        "bd_node n b = Inr b1" "bd_edge (pkgID pkg) (pkgID importPath) ''imports'' ''types'' b1 = Inr b2" "addImports pkg is b2 = Inr b'"
    using "2.prems"(3) by (auto split: option.splits if_splits sum.splits)
  then show ?case
  proof cases
    case skip
    then show ?thesis using "2.IH"(1,2) "2.prems"(1,2) by auto
  next
    case imp
    have e: "extends b b2"
      using node_edge_extends [OF "2.prems"(1,2) _ imp(4), of "''imports''" "''types''" b2] imp(3,5) by simp
    have "extends b2 b'"
      by (rule "2.IH"(3) [OF imp(1) _ imp(4) [unfolded imp(3)] imp(5) extendsD(1) [OF e] extendsD(2) [OF e "2.prems"(2)] imp(6)]) (simp add: imp(2))
    then show ?thesis using e extends_trans by blast
  qed
qed (simp add: extends_refl)

lemma addFiles_extends:
  "builder_ok b \<Longrightarrow> pkgID pkg \<in> bd_ids b \<Longrightarrow> addFiles pkg fs b = Inr b' \<Longrightarrow> extends b b'"
proof (induction pkg fs b rule: addFiles.induct)
  case (2 pkg rel ds fs b)
  show ?case
  proof (cases rel)
    case None
    then show ?thesis using "2.IH"(1) "2.prems" by simp
  next
    case (Some r)
    define n where "n = \<lparr>nd_id = fileID r, nd_kind = ''file'', nd_name = path_base r, nd_pkg = pkg, nd_file = r,
                         nd_line = 0, nd_end_line = 0\<rparr>"
    obtain b1 b2 b3 where w: "bd_node n b = Inr b1" "bd_edge (pkgID pkg) (fileID r) ''contains'' ''syntax'' b1 = Inr b2"
        "walkFile (fileID r) ds b2 = Inr b3" "addFiles pkg fs b3 = Inr b'"
      using "2.prems"(3) Some by (auto simp: n_def split: sum.splits)
    have e2: "extends b b2 \<and> fileID r \<in> bd_ids b2"
      using node_edge_extends [OF "2.prems"(1,2) _ w(1), of "''contains''" "''syntax''" b2] w(2) by (simp add: n_def)
    have "extends b2 b3" by (rule walkFile_extends [OF _ _ w(3)]) (use e2 extendsD in blast)+
    then have e: "extends b b3" using e2 extends_trans by blast
    have "extends b3 b'"
      by (rule "2.IH"(2) [OF Some w(1) [unfolded n_def] w(2,3) extendsD(1) [OF e] extendsD(2) [OF e "2.prems"(2)] w(4)])
    then show ?thesis using e extends_trans by blast
  qed
qed (simp add: extends_refl)

lemma addPackage_extends:
  assumes "builder_ok b" and "addPackage p b = Inr b'"
  shows "extends b b'"
proof -
  define n where "n = \<lparr>nd_id = pkgID (gp_path p), nd_kind = ''package'', nd_name = (if gp_name p = [] then gp_path p else gp_name p),
                          nd_pkg = gp_path p, nd_file = [], nd_line = 0, nd_end_line = 0\<rparr>"
  obtain b1 b2 where w: "bd_node n b = Inr b1" "addImports (gp_path p) (gp_imports p) b1 = Inr b2" "addFiles (gp_path p) (gp_files p) b2 = Inr b'"
    using assms(2) by (auto simp: addPackage_def n_def split: if_splits sum.splits)
  have e1: "extends b b1 \<and> pkgID (gp_path p) \<in> bd_ids b1"
    using bd_node_extends [OF assms(1) _ w(1)] by (simp add: n_def)
  have e2: "extends b1 b2" by (rule addImports_extends [OF _ _ w(2)]) (use e1 extendsD in blast)+
  have "extends b2 b'" by (rule addFiles_extends [OF _ _ w(3)]) (use e1 e2 extendsD in blast)+
  then show ?thesis using e1 e2 extends_trans by blast
qed

lemma addPackages_extends: "builder_ok b \<Longrightarrow> addPackages ps b = Inr b' \<Longrightarrow> extends b b'"
proof (induction ps b rule: addPackages.induct)
  case (2 p ps b)
  show ?case
  proof (cases "inModule (gp_path p) (bd_module b)")
    case True
    then obtain b1 where b1: "addPackage p b = Inr b1" "addPackages ps b1 = Inr b'"
      using "2.prems"(2) by (auto split: sum.splits)
    have e: "extends b b1" by (rule addPackage_extends [OF "2.prems"(1) b1(1)])
    then show ?thesis using "2.IH"(2) [OF _ b1(1) extendsD(1) [OF e] b1(2)] True extends_trans by blast
  next
    case False
    then show ?thesis using "2.IH"(1) "2.prems" by simp
  qed
qed (simp add: extends_refl)

lemma validateNodes_Inr:
  "list_all node_ok ns \<Longrightarrow> distinct (seen @ map nd_id ns) \<Longrightarrow> validateNodes ns seen = Inr (seen @ map nd_id ns)"
  by (induction ns seen rule: validateNodes.induct) (auto simp: validateNode_def node_ok_def)

lemma validateEdges_None: "list_all (edge_ok (set seen)) es \<Longrightarrow> validateEdges es seen = None"
  by (induction es seen rule: validateEdges.induct) (auto simp: validateEdge_def edge_ok_def)

text \<open>
  C33: Round trip of the source graph: whatever packages the type checker reports, a graph that \<open>Load\<close> builds passes
  the check of \<open>FromSnapshot\<close>, which rebuilds the same graph with the same indexes.
\<close>

theorem load_snapshot_roundtrip:
  assumes "LoadPackages pkgs = Inr g" and "trim_space (modulePathOf pkgs) \<noteq> []"
  shows "FromSnapshot (sg_snapshot g) = Inr g"
proof -
  define m where "m = modulePathOf pkgs"
  obtain b where b: "addPackages pkgs (newBuilder m) = Inr b" and g: "g = bd_graph b"
    using assms(1) by (auto simp: LoadPackages_def m_def split: if_splits sum.splits)
  have "builder_ok (newBuilder m)" by (simp add: builder_ok_def newBuilder_def)
  then have "extends (newBuilder m) b" by (rule addPackages_extends [OF _ b])
  then have ok: "builder_ok b" and m: "bd_module b = m" by (simp_all add: extends_def newBuilder_def)
  define f :: "node \<Rightarrow> node" where "f = (\<lambda>n. case bd_ends b (nd_id n) of Some l \<Rightarrow> n\<lparr>nd_end_line := l\<rparr> | None \<Rightarrow> n)"
  have f: "nd_id (f n) = nd_id n" "node_ok (f n) = node_ok n" for n
    by (simp_all add: f_def node_ok_def split: option.split)
  define ns where "ns = sort_key nd_id (map f (bd_nodes b))"
  define es where "es = sort_key (\<lambda>e. (ed_from e, ed_to e, ed_kind e)) (bd_edges b)"
  have gg: "g = graph_of m ns es" unfolding g bd_graph_def ns_def es_def f_def m ..
  have ids: "map nd_id (map f (bd_nodes b)) = map nd_id (bd_nodes b)" by (simp add: f)
  have "distinct (map nd_id ns)"
    unfolding ns_def using ok ids by (metis builder_ok_def distinct_map distinct_sort set_sort)
  moreover have "list_all node_ok ns" using ok by (auto simp: ns_def list_all_iff f builder_ok_def)
  ultimately have v: "validateNodes ns [] = Inr (map nd_id ns)" using validateNodes_Inr [of ns "[]"] by simp
  have "set (map nd_id ns) = bd_ids b" by (auto simp: ns_def bd_ids_def f image_iff)
  then have "list_all (edge_ok (set (map nd_id ns))) es" using ok by (simp add: es_def list_all_iff builder_ok_def)
  then have e: "validateEdges es (map nd_id ns) = None" by (rule validateEdges_None)
  have "length ns \<le> maxNodes" "length es \<le> sourceMaxEdges" using ok by (simp_all add: ns_def es_def builder_ok_def)
  moreover have "ss_module (sg_snapshot g) = m" "ss_nodes (sg_snapshot g) = ns" "ss_edges (sg_snapshot g) = es"
    by (simp_all add: gg sg_snapshot_def graph_of_def sg_index_def)
  ultimately show ?thesis using assms(2) [folded m_def] v e by (simp add: FromSnapshot_def gg)
qed


text \<open>A module with two functions, one calling the other, for witnesses.\<close>

definition demo_fn :: "string \<Rightarrow> int \<Rightarrow> go_func" where
  "demo_fn name line = \<lparr>gf_full_name = ''m.'' @ name, gf_name = name, gf_pkg = Some ''m'', gf_file = Some ''cart.go'', gf_line = line\<rparr>"

definition demo_pkg :: go_package where
  "demo_pkg = \<lparr>gp_path = ''m'', gp_name = ''m'', gp_typed = True, gp_errors = [], gp_module = ''m'', gp_imports = [],
     gp_files = [(Some ''cart.go'', [\<lparr>gd_func = demo_fn ''F'' 1, gd_end = 4, gd_calls = [demo_fn ''G'' 5]\<rparr>,
                                     \<lparr>gd_func = demo_fn ''G'' 5, gd_end = 8, gd_calls = []\<rparr>])]\<rparr>"

definition demo_graph :: sgraph where
  "demo_graph = projr (LoadPackages [demo_pkg])"

theorem load_snapshot_roundtrip_witness: "FromSnapshot (sg_snapshot demo_graph) = Inr demo_graph"
proof (rule load_snapshot_roundtrip)
  have "\<not> isl (LoadPackages [demo_pkg])" by code_simp
  then show "LoadPackages [demo_pkg] = Inr demo_graph" by (simp add: demo_graph_def)
  show "trim_space (modulePathOf [demo_pkg]) \<noteq> []" by code_simp
qed

section \<open>The indexes\<close>

lemma fold_index:
  "fold (\<lambda>(i, e) m. m(f e := m (f e) @ [i])) xs m k = m k @ map fst (filter (\<lambda>(i, e). f e = k) xs)"
  by (induction xs arbitrary: m) auto

lemma sg_out_graph_of: "sg_out (graph_of m ns es) k = map fst (filter (\<lambda>(i, e). ed_from e = k) (enumerate 0 es))"
  by (simp add: graph_of_def sg_index_def fold_index)

lemma sg_in_graph_of: "sg_in (graph_of m ns es) k = map fst (filter (\<lambda>(i, e). ed_to e = k) (enumerate 0 es))"
  by (simp add: graph_of_def sg_index_def fold_index)

lemma indexed_edges:
  "set (List.map_filter (\<lambda>k. f (es ! k)) (map fst (filter (\<lambda>(i, e). P e) (enumerate 0 es)))) = {y. \<exists>e \<in> set es. P e \<and> f e = Some y}"
  (is "?l = ?r")
proof
  show "?l \<subseteq> ?r" by (auto simp: set_map_filter in_set_enumerate_eq)
  show "?r \<subseteq> ?l"
  proof
    fix y assume "y \<in> ?r"
    then obtain k where "k < length es" "P (es ! k)" "f (es ! k) = Some y" by (auto simp: in_set_conv_nth)
    then have "(k, es ! k) \<in> set (enumerate 0 es)" by (simp add: in_set_enumerate_eq)
    with \<open>P (es ! k)\<close> have "k \<in> set (map fst (filter (\<lambda>(i, e). P e) (enumerate 0 es)))" by force
    with \<open>f (es ! k) = Some y\<close> show "y \<in> ?l" unfolding set_map_filter by blast
  qed
qed

text \<open>
  The neighbours of a node are exactly the other ends of the edges that leave or enter it, with the kind of the
  edge and the direction; an unknown id has none.
\<close>

lemma Neighbors_edges:
  "case Neighbors (graph_of m ns es) i of
     None \<Rightarrow> Node (graph_of m ns es) i = None
   | Some nbs \<Rightarrow> Node (graph_of m ns es) i \<noteq> None \<and> set nbs =
       {\<lparr>nb_node = n, nb_kind = ed_kind e, nb_direction = ''out''\<rparr> |e n. e \<in> set es \<and> ed_from e = i \<and> Node (graph_of m ns es) (ed_to e) = Some n} \<union>
       {\<lparr>nb_node = n, nb_kind = ed_kind e, nb_direction = ''in''\<rparr> |e n. e \<in> set es \<and> ed_to e = i \<and> Node (graph_of m ns es) (ed_from e) = Some n}"
proof (cases "sg_by_id (graph_of m ns es) i = None")
  case True
  then show ?thesis by (simp add: Neighbors_def Node_def)
next
  case False
  let ?g = "graph_of m ns es"
  have es: "sg_edges ?g = es" by (simp add: graph_of_def sg_index_def)
  let ?f = "\<lambda>d other e. map_option (\<lambda>n. \<lparr>nb_node = n, nb_kind = ed_kind e, nb_direction = d\<rparr>) (Node ?g (other e))"
  have part: "set (List.map_filter (\<lambda>k. ?f d other (es ! k)) (map fst (filter (\<lambda>(i, e). P e) (enumerate 0 es)))) =
      {\<lparr>nb_node = n, nb_kind = ed_kind e, nb_direction = d\<rparr> |e n. e \<in> set es \<and> P e \<and> Node ?g (other e) = Some n}" for d other P
    unfolding indexed_edges [of "?f d other"] by auto
  show ?thesis
    using False part [of "''out''" ed_to "\<lambda>e. ed_from e = i"] part [of "''in''" ed_from "\<lambda>e. ed_to e = i"]
    by (simp add: Neighbors_def Let_def Node_def [of ?g i] es sg_out_graph_of sg_in_graph_of)
qed

lemma sg_by_id_Nil: "sg_by_id (graph_of m [] es) = Map.empty"
  by (simp add: graph_of_def sg_index_def)

lemma sg_by_id_snoc: "sg_by_id (graph_of m (ns @ [n]) es) = (sg_by_id (graph_of m ns es))(nd_id n \<mapsto> length ns)"
  by (simp add: graph_of_def sg_index_def enumerate_append_eq)

lemma sg_by_id_less: "sg_by_id (graph_of m ns es) i = Some k \<Longrightarrow> k < length ns"
  by (induction ns arbitrary: k rule: rev_induct) (auto simp: sg_by_id_Nil sg_by_id_snoc intro: less_SucI split: if_splits)

lemma Node_graph_of: "Node (graph_of m ns es) i = find (\<lambda>n. nd_id n = i) (rev ns)"
proof (induction ns rule: rev_induct)
  case Nil
  then show ?case by (simp add: Node_def sg_by_id_Nil)
next
  case (snoc n ns)
  have nodes: "sg_nodes (graph_of m ns es) = ns" for ns by (simp add: graph_of_def sg_index_def)
  have "map_option (\<lambda>k. (ns @ [n]) ! k) (sg_by_id (graph_of m ns es) i) = map_option (\<lambda>k. ns ! k) (sg_by_id (graph_of m ns es) i)"
    using sg_by_id_less [of m ns es i] by (cases "sg_by_id (graph_of m ns es) i") (simp_all add: nth_append)
  then show ?case using snoc by (simp add: Node_def sg_by_id_snoc nodes)
qed

lemma Node_id:
  assumes "Node (graph_of m ns es) i = Some n"
  shows "nd_id n = i" and "n \<in> set ns"
  using assms by (auto simp: Node_graph_of find_Some_iff) (metis nth_mem set_rev length_rev)

lemma Node_exists: "Node (graph_of m ns es) i \<noteq> None \<longleftrightarrow> i \<in> nd_id ` set ns"
  by (auto simp: Node_graph_of find_None_iff)

lemma nodes_graph_of [simp]: "sg_nodes (graph_of m ns es) = ns"
  by (simp add: graph_of_def sg_index_def)

end
