(* ===== verification/Trace_Graph.thy ===== *)
theory Trace_Graph
  imports Ingest Go_Text
begin

text \<open>
  The runtime graph derived from stored spans, \<open>internal/graph/graph.go\<close>: services, cross-service edges,
  root-to-leaf paths and the entry route of every span. The spans of a trace are an association list from span ids
  in the order of their first occurrence; the code iterates over a Go map instead, whose order is not specified.
  The entry computation takes that order as an argument, and its result is shown not to depend on it. The other
  results are sorted; only two paths that print alike, because a service name contains a slash, may be listed in
  either order by the code.
\<close>

record service =
  sv_name :: string
  sv_span_count :: nat

record trace_edge =
  te_from :: string
  te_to :: string
  te_count :: nat
  te_provenance :: string

record trace_path =
  tp_services :: "string list"
  tp_traces :: nat
  tp_provenance :: string

record entry_route =
  er_trace_id :: string
  er_span_id :: string
  er_method :: string
  er_route :: string

record graph_snapshot =
  gs_entry_by_span :: "string \<times> string \<rightharpoonup> entry_route"
  gs_entry_routes :: "entry_route list"
  gs_services :: "service list"
  gs_edges :: "trace_edge list"
  gs_paths :: "trace_path list"
  gs_span_count :: nat
  gs_trace_count :: nat

definition ProvenanceObservedParent :: string where
  "ProvenanceObservedParent = ''observed_parent''"

definition maxPaths :: nat where
  "maxPaths = 100"

definition maxServices :: nat where
  "maxServices = 500"

definition traceMaxEdges :: nat where
  "traceMaxEdges = 2000"

definition nul :: string where
  "nul = [CHR 0x00]"

section \<open>Collecting the traces\<close>

type_synonym trace_nodes = "(string \<times> span) list"

text \<open>\<open>byID[s.SpanID]\<close> is overwritten in place or added.\<close>

fun put_span :: "string \<Rightarrow> span \<Rightarrow> trace_nodes \<Rightarrow> trace_nodes" where
  "put_span i s [] = [(i, s)]"
| "put_span i s ((j, t) # ns) = (if j = i then (i, s) # ns else (j, t) # put_span i s ns)"

fun put_trace :: "string \<Rightarrow> span \<Rightarrow> (string \<times> trace_nodes) list \<Rightarrow> (string \<times> trace_nodes) list" where
  "put_trace t s [] = [(t, [(sp_span_id s, s)])]"
| "put_trace t s ((u, ns) # ts) =
     (if u = t then (u, put_span (sp_span_id s) s ns) # ts else (u, ns) # put_trace t s ts)"

definition counted :: "span \<Rightarrow> bool" where
  "counted s = (sp_trace_id s \<noteq> [] \<and> sp_span_id s \<noteq> [])"

definition traces_of :: "span list \<Rightarrow> (string \<times> trace_nodes) list" where
  "traces_of spans = fold (\<lambda>s ts. put_trace (sp_trace_id s) s ts) (filter counted spans) []"

section \<open>Entry routes\<close>

definition routedServer :: "span \<Rightarrow> bool" where
  "routedServer s = (equal_fold (trim_space (sp_kind s)) ''server'' \<and> trim_space (sp_http_method s) \<noteq> [] \<and>
     trim_space (sp_http_route s) \<noteq> [])"

record ancestry =
  an_complete :: bool
  an_entry :: entry_route

definition no_entry :: entry_route where
  "no_entry = \<lparr>er_trace_id = [], er_span_id = [], er_method = [], er_route = []\<rparr>"

definition no_ancestry :: ancestry where
  "no_ancestry = \<lparr>an_complete = False, an_entry = no_entry\<rparr>"

text \<open>
  The inner loop of \<open>traceEntries\<close>: it walks up from \<open>cursor\<close> until a resolved span, a missing or repeated one, or a
  root. \<open>chain\<close> holds the spans visited, the last one first; \<open>seen\<close> is the set of its elements.
\<close>

function climb :: "trace_nodes \<Rightarrow> (string \<rightharpoonup> ancestry) \<Rightarrow> string list \<Rightarrow> string \<Rightarrow> string list \<times> ancestry" where
  "climb byID resolved chain cursor =
     (case resolved cursor of
        Some cached \<Rightarrow> (chain, cached)
      | None \<Rightarrow>
          (case map_of byID cursor of
             None \<Rightarrow> (chain, no_ancestry)
           | Some node \<Rightarrow>
               if cursor \<in> set chain then (chain, no_ancestry)
               else if sp_parent_span_id node = [] then (cursor # chain, no_ancestry\<lparr>an_complete := True\<rparr>)
               else climb byID resolved (cursor # chain) (sp_parent_span_id node)))"
  by pat_completeness auto

termination
proof (relation "measure (\<lambda>(byID, _, chain, _). card (set (map fst byID) - set chain))")
  fix byID :: trace_nodes and resolved :: "string \<rightharpoonup> ancestry" and chain cursor and node :: span
  assume "map_of byID cursor = Some node" and "cursor \<notin> set chain"
  then have "cursor \<in> set (map fst byID) - set chain" by (auto dest: map_of_SomeD simp: rev_image_eqI)
  then have "card (set (map fst byID) - set (cursor # chain)) < card (set (map fst byID) - set chain)"
    by (intro psubset_card_mono) auto
  then show "((byID, resolved, cursor # chain, sp_parent_span_id node), (byID, resolved, chain, cursor))
      \<in> measure (\<lambda>(byID, _, chain, _). card (set (map fst byID) - set chain))" by simp
qed auto

declare climb.simps [simp del]

text \<open>The loop down the chain, which resolves every span on it.\<close>

definition descend :: "string \<Rightarrow> span \<Rightarrow> string \<Rightarrow> ancestry \<Rightarrow> ancestry" where
  "descend traceID node i parent =
     (if an_complete parent \<and> er_span_id (an_entry parent) = [] \<and> routedServer node
      then parent\<lparr>an_entry := \<lparr>er_trace_id = traceID, er_span_id = i, er_method = sp_http_method node, er_route = sp_http_route node\<rparr>\<rparr>
      else parent)"

fun settleChain :: "string \<Rightarrow> trace_nodes \<Rightarrow> string list \<Rightarrow> ancestry \<Rightarrow> (string \<rightharpoonup> ancestry) \<Rightarrow> (string \<rightharpoonup> ancestry)" where
  "settleChain traceID byID [] parent resolved = resolved"
| "settleChain traceID byID (i # chain) parent resolved =
     (case map_of byID i of
        None \<Rightarrow> settleChain traceID byID chain parent (resolved(i \<mapsto> parent))
      | Some node \<Rightarrow>
          (let p = descend traceID node i parent in settleChain traceID byID chain p (resolved(i \<mapsto> p))))"

text \<open>The outer loop over the spans of the trace, in the order \<open>ks\<close>.\<close>

fun resolveAll :: "string \<Rightarrow> trace_nodes \<Rightarrow> string list \<Rightarrow> (string \<rightharpoonup> ancestry) \<Rightarrow> (string \<rightharpoonup> ancestry)" where
  "resolveAll traceID byID [] resolved = resolved"
| "resolveAll traceID byID (i # ks) resolved =
     (case climb byID resolved [] i of
        (chain, parent) \<Rightarrow> resolveAll traceID byID ks (settleChain traceID byID chain parent resolved))"

definition traceEntries :: "string \<Rightarrow> trace_nodes \<Rightarrow> string list \<Rightarrow> (string \<rightharpoonup> entry_route)" where
  "traceEntries traceID byID ks =
     (\<lambda>i. case resolveAll traceID byID ks Map.empty i of
            Some a \<Rightarrow> if an_complete a \<and> er_span_id (an_entry a) \<noteq> [] then Some (an_entry a) else None
          | None \<Rightarrow> None)"

section \<open>Edges and paths\<close>

text \<open>The parent of a span, if it is in the same trace.\<close>

definition parent_in :: "trace_nodes \<Rightarrow> span \<Rightarrow> span option" where
  "parent_in byID s = (if sp_parent_span_id s = [] then None else map_of byID (sp_parent_span_id s))"

definition edge_keys :: "trace_nodes \<Rightarrow> string list" where
  "edge_keys byID =
     List.map_filter (\<lambda>(i, s). case parent_in byID s of
         None \<Rightarrow> None
       | Some p \<Rightarrow> (let from = sp_service_name p; to = sp_service_name s
                    in if from = [] \<or> to = [] \<or> from = to then None else Some (from @ nul @ to))) byID"

definition children_of :: "trace_nodes \<Rightarrow> string \<Rightarrow> string list" where
  "children_of byID i = map fst (filter (\<lambda>(j, s). sp_parent_span_id s = i \<and> parent_in byID s \<noteq> None) byID)"

text \<open>\<open>walkPaths\<close> returns the keys under which it records the trace; \<open>visiting\<close> is the set of spans on the way.\<close>

definition extend_path :: "string list \<Rightarrow> string \<Rightarrow> string list" where
  "extend_path services name =
     (if name \<noteq> [] \<and> (services = [] \<or> last services \<noteq> name) then services @ [name] else services)"

function walkPaths :: "trace_nodes \<Rightarrow> string list \<Rightarrow> string list \<Rightarrow> string \<Rightarrow> string list" where
  "walkPaths byID services visiting i =
     (case map_of byID i of
        None \<Rightarrow> []
      | Some node \<Rightarrow>
          if i \<in> set visiting then []
          else (let next = extend_path services (sp_service_name node)
                in if children_of byID i = [] then (if next = [] then [] else [join nul next])
                   else concat (map (walkPaths byID next (i # visiting)) (children_of byID i))))"
  by pat_completeness auto

termination
proof (relation "measure (\<lambda>(byID, _, visiting, _). card (set (map fst byID) - set visiting))")
  fix byID :: trace_nodes and services visiting :: "string list" and i and node :: span and "next" and c
  assume "map_of byID i = Some node" and "i \<notin> set visiting"
  then have "i \<in> set (map fst byID) - set visiting" by (auto dest: map_of_SomeD simp: rev_image_eqI)
  then have "card (set (map fst byID) - set (i # visiting)) < card (set (map fst byID) - set visiting)"
    by (intro psubset_card_mono) auto
  then show "((byID, next, i # visiting, c), (byID, services, visiting, i))
      \<in> measure (\<lambda>(byID, _, visiting, _). card (set (map fst byID) - set visiting))" by simp
qed auto

declare walkPaths.simps [simp del]

definition path_keys :: "trace_nodes \<Rightarrow> string list" where
  "path_keys byID =
     concat (map (\<lambda>(i, s). walkPaths byID [] [] i) (filter (\<lambda>(i, s). parent_in byID s = None) byID))"

section \<open>The snapshot\<close>

text \<open>The counters are lists with repetitions; a map from keys to counts lists each key once.\<close>

definition servicesFromCount :: "string list \<Rightarrow> service list" where
  "servicesFromCount names =
     take maxServices (sort_key (\<lambda>s. (- int (sv_span_count s), sv_name s))
       (map (\<lambda>n. \<lparr>sv_name = n, sv_span_count = count_list names n\<rparr>) (remdups names)))"

definition edgesFromCount :: "string list \<Rightarrow> trace_edge list" where
  "edgesFromCount keys =
     take traceMaxEdges (sort_key (\<lambda>e. (- int (te_count e), te_from e, te_to e))
       (List.map_filter (\<lambda>k. map_option (\<lambda>(from, to).
            \<lparr>te_from = from, te_to = to, te_count = count_list keys k, te_provenance = ProvenanceObservedParent\<rparr>) (cut CHR 0x00 k))
          (remdups keys)))"

text \<open>\<open>keys\<close> lists, for every trace, each of its path keys once.\<close>

definition pathsFromTraces :: "string list \<Rightarrow> trace_path list" where
  "pathsFromTraces keys =
     take maxPaths (sort_key (\<lambda>p. (- int (tp_traces p), join ''/'' (tp_services p)))
       (map (\<lambda>k. \<lparr>tp_services = (if k = [] then [] else split_on CHR 0x00 k), tp_traces = count_list keys k,
                  tp_provenance = ProvenanceObservedParent\<rparr>) (remdups keys)))"

definition entry_list :: "string \<Rightarrow> trace_nodes \<Rightarrow> entry_route list" where
  "entry_list t byID =
     List.map_filter (\<lambda>i. case traceEntries t byID (map fst byID) i of
         Some e \<Rightarrow> if er_span_id e = i then Some e else None
       | None \<Rightarrow> None) (map fst byID)"

definition Build :: "span list \<Rightarrow> graph_snapshot" where
  "Build spans =
     (let ts = traces_of spans
      in \<lparr>gs_entry_by_span = (\<lambda>(t, i). case map_of ts t of None \<Rightarrow> None | Some byID \<Rightarrow> traceEntries t byID (map fst byID) i),
          gs_entry_routes = sort_key (\<lambda>e. (er_trace_id e, er_span_id e)) (concat (map (\<lambda>(t, byID). entry_list t byID) ts)),
          gs_services = servicesFromCount (filter (\<lambda>n. n \<noteq> []) (map sp_service_name (filter counted spans))),
          gs_edges = edgesFromCount (concat (map (\<lambda>(t, byID). edge_keys byID) ts)),
          gs_paths = pathsFromTraces (concat (map (\<lambda>(t, byID). remdups (path_keys byID)) ts)),
          gs_span_count = length (filter counted spans),
          gs_trace_count = length ts\<rparr>)"

definition EntryForSpan :: "graph_snapshot \<Rightarrow> string \<Rightarrow> string \<Rightarrow> entry_route option" where
  "EntryForSpan s t i = gs_entry_by_span s (t, i)"

section \<open>Entry routes do not depend on the iteration order\<close>

text \<open>The spans from the root of a trace down to a span, when every parent is there.\<close>

inductive lineage :: "trace_nodes \<Rightarrow> string \<Rightarrow> string list \<Rightarrow> bool" for byID where
  root: "map_of byID i = Some s \<Longrightarrow> sp_parent_span_id s = [] \<Longrightarrow> lineage byID i [i]"
| child: "map_of byID i = Some s \<Longrightarrow> sp_parent_span_id s \<noteq> [] \<Longrightarrow> lineage byID (sp_parent_span_id s) path \<Longrightarrow>
    lineage byID i (path @ [i])"

lemma lineage_inv:
  assumes "lineage byID i p"
  shows "\<exists>s. map_of byID i = Some s \<and> (sp_parent_span_id s = [] \<and> p = [i] \<or>
    sp_parent_span_id s \<noteq> [] \<and> (\<exists>path. p = path @ [i] \<and> lineage byID (sp_parent_span_id s) path))"
  using assms by (rule lineage.cases) blast+

lemma lineage_unique: "lineage byID i p \<Longrightarrow> lineage byID i q \<Longrightarrow> p = q"
proof (induction arbitrary: q rule: lineage.induct)
  case (root i s)
  show ?case using lineage_inv [OF root.prems] root.hyps by auto
next
  case (child i s path)
  obtain path' where "q = path' @ [i]" "lineage byID (sp_parent_span_id s) path'"
    using lineage_inv [OF child.prems] child.hyps by auto
  then show ?case using child.IH by simp
qed

text \<open>Inversion for a span that is in the trace, and for one that is not.\<close>

lemma lineage_Some:
  assumes "lineage byID i path" and "map_of byID i = Some s" and "sp_parent_span_id s \<noteq> []"
  obtains path' where "lineage byID (sp_parent_span_id s) path'" and "path = path' @ [i]"
  using lineage_inv [OF assms(1)] assms(2,3) by auto

lemma lineage_None: "map_of byID i = None \<Longrightarrow> \<not> lineage byID i path"
  using lineage_inv by fastforce

definition fold_path :: "string \<Rightarrow> trace_nodes \<Rightarrow> string list \<Rightarrow> ancestry" where
  "fold_path t byID path = fold (\<lambda>j a. case map_of byID j of Some s \<Rightarrow> descend t s j a | None \<Rightarrow> a) path (no_ancestry\<lparr>an_complete := True\<rparr>)"

text \<open>What the ancestry of a span should be.\<close>

definition resolves :: "string \<Rightarrow> trace_nodes \<Rightarrow> string \<Rightarrow> ancestry \<Rightarrow> bool" where
  "resolves t byID i a = ((\<exists>path. lineage byID i path \<and> a = fold_path t byID path) \<or>
     (\<forall>path. \<not> lineage byID i path) \<and> a = no_ancestry)"

lemma resolves_unique: "resolves t byID i a \<Longrightarrow> resolves t byID i b \<Longrightarrow> a = b"
  unfolding resolves_def using lineage_unique by blast

lemma descend_none [simp]: "descend t s i no_ancestry = no_ancestry"
  by (simp add: descend_def no_ancestry_def)

lemma resolves_root:
  assumes "map_of byID i = Some s" and "sp_parent_span_id s = []"
  shows "resolves t byID i (descend t s i (no_ancestry\<lparr>an_complete := True\<rparr>))"
  unfolding resolves_def using assms
  by (intro disjI1 exI [of _ "[i]"]) (simp add: lineage.root fold_path_def)

lemma resolves_child:
  assumes "map_of byID i = Some s" and "sp_parent_span_id s \<noteq> []" and "resolves t byID (sp_parent_span_id s) b"
  shows "resolves t byID i (descend t s i b)"
proof (cases "\<exists>path. lineage byID (sp_parent_span_id s) path")
  case True
  then obtain path where p: "lineage byID (sp_parent_span_id s) path" "b = fold_path t byID path"
    using assms(3) by (auto simp: resolves_def)
  show ?thesis unfolding resolves_def
    by (intro disjI1 exI [of _ "path @ [i]"]) (use lineage.child [OF assms(1,2) p(1)] assms(1) p(2) in \<open>simp add: fold_path_def\<close>)
next
  case False
  then have "b = no_ancestry" using assms(3) by (auto simp: resolves_def)
  moreover have "\<not> lineage byID i path" for path using False lineage_Some [OF _ assms(1,2)] by blast
  ultimately show ?thesis by (auto simp: resolves_def)
qed

text \<open>A chain of spans that leads up to \<open>c\<close>, its topmost span first.\<close>

fun linked :: "trace_nodes \<Rightarrow> string list \<Rightarrow> string \<Rightarrow> bool" where
  "linked byID [] c = True"
| "linked byID (i # chain) c = (c \<noteq> [] \<and> (\<exists>s. map_of byID i = Some s \<and> sp_parent_span_id s = c) \<and> linked byID chain i)"

text \<open>Walking down the chain from \<open>a\<close> gives every span on it the right ancestry.\<close>

fun settles_to :: "string \<Rightarrow> trace_nodes \<Rightarrow> string list \<Rightarrow> ancestry \<Rightarrow> bool" where
  "settles_to t byID [] a = True"
| "settles_to t byID (i # chain) a =
     (\<exists>s. map_of byID i = Some s \<and> resolves t byID i (descend t s i a) \<and> settles_to t byID chain (descend t s i a))"

lemma linked_settles: "linked byID chain c \<Longrightarrow> resolves t byID c a \<Longrightarrow> settles_to t byID chain a"
proof (induction chain arbitrary: c a)
  case (Cons i chain)
  then obtain s where s: "map_of byID i = Some s" "sp_parent_span_id s = c" "c \<noteq> []" "linked byID chain i" by auto
  have "resolves t byID i (descend t s i a)" using resolves_child [OF s(1)] s Cons.prems(2) by simp
  then show ?case using s Cons.IH by auto
qed simp

lemma linked_lineage:
  "linked byID chain c \<Longrightarrow> j \<in> set chain \<Longrightarrow> lineage byID j path \<Longrightarrow> \<exists>path'. lineage byID c path' \<and> length path' < length path"
proof (induction chain arbitrary: c)
  case (Cons i chain)
  then obtain s where s: "map_of byID i = Some s" "sp_parent_span_id s = c" "c \<noteq> []" "linked byID chain i" by auto
  have up: "\<exists>path'. lineage byID c path' \<and> length path' < length p" if "lineage byID i p" for p
    by (rule lineage_Some [OF that s(1)]) (use s in auto)
  show ?case
  proof (cases "j = i")
    case True
    then show ?thesis using up Cons.prems(3) by blast
  next
    case False
    then obtain p where "lineage byID i p" "length p < length path"
      using Cons.IH [OF s(4)] Cons.prems by auto
    then show ?thesis using up by fastforce
  qed
qed simp

lemma cycle_resolves:
  assumes "linked byID chain c" and "c \<in> set chain"
  shows "resolves t byID c no_ancestry"
proof -
  have "\<not> lineage byID c path" for path
    using linked_lineage [OF assms, of path] lineage_unique by fastforce
  then show ?thesis by (simp add: resolves_def)
qed

definition resolved_ok :: "string \<Rightarrow> trace_nodes \<Rightarrow> (string \<rightharpoonup> ancestry) \<Rightarrow> bool" where
  "resolved_ok t byID resolved = (\<forall>i a. resolved i = Some a \<longrightarrow> resolves t byID i a)"

lemma climb_settles:
  assumes "resolved_ok t byID resolved" and "linked byID chain cursor" and "climb byID resolved chain cursor = (chain', a)"
  shows "settles_to t byID chain' a"
  using assms
proof (induction byID resolved chain cursor rule: climb.induct)
  case (1 byID resolved chain cursor)
  note climb = "1.prems"(3) [unfolded climb.simps [of byID resolved chain cursor]]
  show ?case
  proof (cases "resolved cursor")
    case (Some cached)
    then have "resolves t byID cursor cached" using "1.prems"(1) by (simp add: resolved_ok_def)
    then show ?thesis using linked_settles "1.prems"(2) climb Some by auto
  next
    case none: None
    show ?thesis
    proof (cases "map_of byID cursor")
      case None
      then have "resolves t byID cursor no_ancestry" using lineage_None by (simp add: resolves_def)
      then show ?thesis using linked_settles "1.prems"(2) climb none None by auto
    next
      case (Some node)
      consider "cursor \<in> set chain" | "cursor \<notin> set chain" "sp_parent_span_id node = []"
        | "cursor \<notin> set chain" "sp_parent_span_id node \<noteq> []" by blast
      then show ?thesis
      proof cases
        case 1
        then show ?thesis using cycle_resolves linked_settles "1.prems"(2) climb none Some by auto
      next
        case 2
        have "resolves t byID cursor (descend t node cursor (no_ancestry\<lparr>an_complete := True\<rparr>))"
          by (rule resolves_root [OF Some 2(2)])
        then show ?thesis using linked_settles [OF "1.prems"(2)] climb none Some 2 by auto
      next
        case 3
        then show ?thesis using "1.IH" [OF none Some] "1.prems" climb none Some by auto
      qed
    qed
  qed
qed

lemma settleChain_ok:
  "resolved_ok t byID resolved \<Longrightarrow> settles_to t byID chain a \<Longrightarrow> resolved_ok t byID (settleChain t byID chain a resolved)"
proof (induction t byID chain a resolved rule: settleChain.induct)
  case (2 t byID i chain parent resolved)
  then obtain s where s: "map_of byID i = Some s" "resolves t byID i (descend t s i parent)" "settles_to t byID chain (descend t s i parent)"
    by auto
  have "resolved_ok t byID (resolved(i \<mapsto> descend t s i parent))" using "2.prems"(1) s(2) by (simp add: resolved_ok_def)
  from "2.IH"(2) [OF s(1) refl this s(3)] show ?case by (simp add: s(1) Let_def fun_upd_def)
qed simp

lemma settleChain_dom: "dom (settleChain t byID chain a resolved) = dom resolved \<union> set chain"
proof (induction chain arbitrary: a resolved)
  case (Cons i chain)
  show ?case by (cases "map_of byID i") (auto simp: Let_def Cons.IH)
qed simp

lemma climb_chain: "climb byID resolved chain cursor = (chain', a) \<Longrightarrow> set chain \<subseteq> set chain' \<and>
   (resolved cursor = None \<and> map_of byID cursor \<noteq> None \<longrightarrow> cursor \<in> set chain')"
proof (induction byID resolved chain cursor rule: climb.induct)
  case (1 byID resolved chain cursor)
  show ?case
  proof (cases "resolved cursor = None \<and> map_of byID cursor \<noteq> None \<and> cursor \<notin> set chain")
    case True
    then obtain node where node: "map_of byID cursor = Some node" by blast
    show ?thesis
    proof (cases "sp_parent_span_id node = []")
      case root: True
      then show ?thesis using "1.prems" True node unfolding climb.simps [of byID resolved chain cursor] by auto
    next
      case False
      then have "climb byID resolved (cursor # chain) (sp_parent_span_id node) = (chain', a)"
        using "1.prems" True node unfolding climb.simps [of byID resolved chain cursor] by simp
      then show ?thesis using "1.IH" [OF _ node _ False] True by simp
    qed
  next
    case False
    then show ?thesis using "1.prems" unfolding climb.simps [of byID resolved chain cursor]
      by (auto split: option.splits)
  qed
qed

lemma resolveAll_ok:
  "resolved_ok t byID resolved \<Longrightarrow> resolved_ok t byID (resolveAll t byID ks resolved) \<and>
     dom resolved \<subseteq> dom (resolveAll t byID ks resolved) \<and>
     (set ks \<inter> dom (map_of byID) \<subseteq> dom (resolveAll t byID ks resolved))"
proof (induction t byID ks resolved rule: resolveAll.induct)
  case (2 t byID i ks resolved)
  obtain chain a where c: "climb byID resolved [] i = (chain, a)" by (cases "climb byID resolved [] i")
  have s: "settles_to t byID chain a" by (rule climb_settles [OF "2.prems" _ c]) simp
  note ih = "2.IH" [OF c [symmetric] settleChain_ok [OF "2.prems" s]]
  have "i \<in> dom resolved \<union> set chain" if "i \<in> dom (map_of byID)"
    using climb_chain [OF c] that by auto
  then show ?case using ih c by (auto simp: settleChain_dom)
qed simp

text \<open>The entry found on a complete path: the first routed server span.\<close>

definition routed_at :: "trace_nodes \<Rightarrow> string \<Rightarrow> bool" where
  "routed_at byID j = (case map_of byID j of Some s \<Rightarrow> routedServer s | None \<Rightarrow> False)"

lemma fold_path_find:
  assumes "[] \<notin> set path"
  shows "fold_path t byID path = \<lparr>an_complete = True, an_entry = (case find (routed_at byID) path of
      None \<Rightarrow> no_entry
    | Some j \<Rightarrow> \<lparr>er_trace_id = t, er_span_id = j, er_method = sp_http_method (the (map_of byID j)), er_route = sp_http_route (the (map_of byID j))\<rparr>)\<rparr>"
proof -
  let ?step = "\<lambda>j a. case map_of byID j of Some s \<Rightarrow> descend t s j a | None \<Rightarrow> a"
  have keep: "fold ?step p a = a" if "er_span_id (an_entry a) \<noteq> []" for p a
    using that by (induction p) (auto simp: descend_def split: option.splits)
  have "fold ?step p \<lparr>an_complete = True, an_entry = no_entry\<rparr> = \<lparr>an_complete = True, an_entry = (case find (routed_at byID) p of
      None \<Rightarrow> no_entry
    | Some j \<Rightarrow> \<lparr>er_trace_id = t, er_span_id = j, er_method = sp_http_method (the (map_of byID j)), er_route = sp_http_route (the (map_of byID j))\<rparr>)\<rparr>"
    if "[] \<notin> set p" for p
    using that
  proof (induction p)
    case (Cons j p)
    show ?case
    proof (cases "map_of byID j")
      case None
      then show ?thesis using Cons by (simp add: routed_at_def)
    next
      case (Some s)
      show ?thesis
      proof (cases "routedServer s")
        case True
        have "j \<noteq> []" using Cons.prems by auto
        then show ?thesis using True Some keep by (simp add: routed_at_def descend_def no_entry_def)
      next
        case False
        then show ?thesis using Cons Some by (simp add: routed_at_def descend_def)
      qed
    qed
  qed simp
  then show ?thesis using assms by (simp add: fold_path_def no_ancestry_def)
qed

lemma lineage_dom: "lineage byID i path \<Longrightarrow> set path \<subseteq> dom (map_of byID)"
  by (induction rule: lineage.induct) auto

text \<open>
  C31: The memoised search for entry routes equals its specification for every iteration order of the spans: a span
  has an entry exactly when its ancestry up to a root is complete and holds a routed server span, and the entry is the
  first such span from the root. Missing parents and cycles of parent links give none.
\<close>

theorem traceEntries_spec:
  assumes "set ks = set (map fst byID)" and "[] \<notin> set ks"
  shows "traceEntries t byID ks i = Some e \<longleftrightarrow>
    (\<exists>path j s. lineage byID i path \<and> find (routed_at byID) path = Some j \<and> map_of byID j = Some s \<and>
       e = \<lparr>er_trace_id = t, er_span_id = j, er_method = sp_http_method s, er_route = sp_http_route s\<rparr>)"
proof -
  have dom: "dom (map_of byID) = set ks" using assms(1) by (simp add: dom_map_of_conv_image_fst)
  have ok: "resolved_ok t byID (resolveAll t byID ks Map.empty)" and cover: "set ks \<subseteq> dom (resolveAll t byID ks Map.empty)"
    using resolveAll_ok [of t byID Map.empty ks] dom by (auto simp: resolved_ok_def)
  show ?thesis
  proof (cases "\<exists>path. lineage byID i path")
    case True
    then obtain path where path: "lineage byID i path" by blast
    then have ne: "[] \<notin> set path" using lineage_dom [OF path] assms(2) dom by auto
    have "i \<in> set ks" using path dom lineage_None [of byID i] by blast
    then obtain a where a: "resolveAll t byID ks Map.empty i = Some a" using cover by blast
    have "resolves t byID i (fold_path t byID path)" using path by (auto simp: resolves_def)
    then have af: "a = fold_path t byID path" using ok a resolves_unique unfolding resolved_ok_def by blast
    have rhs: "(\<exists>path' j s. lineage byID i path' \<and> Q path' j s) \<longleftrightarrow> (\<exists>j s. Q path j s)" for Q :: "string list \<Rightarrow> string \<Rightarrow> span \<Rightarrow> bool"
      using path lineage_unique [OF path] by blast
    show ?thesis
    proof (cases "find (routed_at byID) path")
      case None
      then show ?thesis unfolding rhs by (simp add: traceEntries_def a af fold_path_find [OF ne] no_entry_def)
    next
      case (Some j)
      then obtain s where s: "map_of byID j = Some s" by (auto simp: find_Some_iff routed_at_def split: option.splits)
      have "j \<noteq> []" using Some ne by (metis find_Some_iff nth_mem)
      then show ?thesis unfolding rhs by (simp add: traceEntries_def a af fold_path_find [OF ne] Some s eq_commute)
    qed
  next
    case False
    then have "a = no_ancestry" if "resolveAll t byID ks Map.empty i = Some a" for a
      using ok that by (auto simp: resolved_ok_def resolves_def)
    then show ?thesis using False by (auto simp: traceEntries_def no_ancestry_def split: option.splits)
  qed
qed

text \<open>A trace for the witness: a routed server span with one child.\<close>

definition demo_node :: "string \<Rightarrow> string \<Rightarrow> string \<Rightarrow> string \<Rightarrow> span" where
  "demo_node i parent svc kind = \<lparr>sp_trace_id = ''t'', sp_span_id = i, sp_parent_span_id = parent, sp_service_name = svc,
     sp_name = ''n'', sp_kind = kind, sp_status_code = [], sp_http_method = ''GET'', sp_http_route = ''/cart'',
     sp_http_status = 200, sp_code_function = ''m.F'', sp_code_file = ''cart.go'', sp_start_time = 0, sp_duration_ns = 1\<rparr>"

definition demo_trace :: trace_nodes where
  "demo_trace = [(''b'', demo_node ''b'' ''a'' ''cart'' ''internal''), (''a'', demo_node ''a'' [] ''gateway'' ''server'')]"

theorem traceEntries_spec_witness:
  "\<exists>path j s. lineage demo_trace ''b'' path \<and> find (routed_at demo_trace) path = Some j \<and> map_of demo_trace j = Some s \<and>
     \<lparr>er_trace_id = ''t'', er_span_id = ''a'', er_method = ''GET'', er_route = ''/cart''\<rparr> =
     \<lparr>er_trace_id = ''t'', er_span_id = j, er_method = sp_http_method s, er_route = sp_http_route s\<rparr>"
proof (rule traceEntries_spec [THEN iffD1])
  show "set [''b'', ''a''] = set (map fst demo_trace)" by (simp add: demo_trace_def)
  show "[] \<notin> set [''b'', ''a'']" by simp
  show "traceEntries ''t'' demo_trace [''b'', ''a''] ''b'' =
    Some \<lparr>er_trace_id = ''t'', er_span_id = ''a'', er_method = ''GET'', er_route = ''/cart''\<rparr>" by code_simp
qed

section \<open>Edges are observed parent links\<close>

text \<open>The caller and callee service of every parent link within a trace.\<close>

definition service_pairs :: "trace_nodes \<Rightarrow> (string \<times> string) list" where
  "service_pairs byID =
     List.map_filter (\<lambda>(i, s). case parent_in byID s of
         None \<Rightarrow> None
       | Some p \<Rightarrow> (let from = sp_service_name p; to = sp_service_name s
                    in if from = [] \<or> to = [] \<or> from = to then None else Some (from, to))) byID"

definition pair_key :: "string \<times> string \<Rightarrow> string" where
  "pair_key = (\<lambda>(from, to). from @ nul @ to)"

lemma edge_keys_pairs: "edge_keys byID = map pair_key (service_pairs byID)"
proof -
  have mf: "List.map_filter f xs = map g (List.map_filter h xs)" if "\<And>x. f x = map_option g (h x)" for f g h and xs :: "(string \<times> span) list"
    by (induction xs) (auto simp: List.map_filter_simps that split: option.splits)
  show ?thesis unfolding edge_keys_def service_pairs_def
    by (rule mf) (simp add: pair_key_def Let_def split: prod.split option.split)
qed

lemma put_span_set: "(i, s) \<in> set (put_span j t ns) \<Longrightarrow> (i, s) \<in> set ns \<or> s = t"
  by (induction j t ns rule: put_span.induct) (auto split: if_splits)

lemma put_trace_spans:
  "(u, ns) \<in> set (put_trace t s ts) \<Longrightarrow> (i, x) \<in> set ns \<Longrightarrow> x = s \<or> (\<exists>v ms. (v, ms) \<in> set ts \<and> (i, x) \<in> set ms)"
proof (induction t s ts rule: put_trace.induct)
  case (2 t s u' ns' ts)
  then show ?case by (auto split: if_splits dest: put_span_set)
qed auto

lemma traces_of_spans: "(t, byID) \<in> set (traces_of spans) \<Longrightarrow> (i, s) \<in> set byID \<Longrightarrow> s \<in> set spans"
proof -
  have "(t, byID) \<in> set (fold (\<lambda>s ts. put_trace (sp_trace_id s) s ts) xs ts) \<Longrightarrow> (i, s) \<in> set byID \<Longrightarrow>
      s \<in> set xs \<or> (\<exists>v ms. (v, ms) \<in> set ts \<and> (i, s) \<in> set ms)" for xs ts
  proof (induction xs arbitrary: ts)
    case (Cons x xs)
    then show ?case using put_trace_spans [of _ _ "sp_trace_id x" x ts i s] by fastforce
  qed auto
  then show "(t, byID) \<in> set (traces_of spans) \<Longrightarrow> (i, s) \<in> set byID \<Longrightarrow> s \<in> set spans"
    unfolding traces_of_def by fastforce
qed

lemma service_pairs_spans:
  assumes "(f, t) \<in> set (service_pairs byID)"
  shows "f \<noteq> t \<and> f \<noteq> [] \<and> t \<noteq> [] \<and> (\<exists>i p. (i, p) \<in> set byID \<and> f = sp_service_name p)"
proof -
  obtain i s p where "(i, s) \<in> set byID" "parent_in byID s = Some p" "f = sp_service_name p" "t = sp_service_name s" "f \<noteq> t" "f \<noteq> []" "t \<noteq> []"
    using assms by (auto simp: service_pairs_def set_map_filter Let_def split: option.splits if_splits)
  then show ?thesis by (auto simp: parent_in_def split: if_splits dest: map_of_SomeD)
qed

lemma cut_pair_key: "CHR 0x00 \<notin> set (fst p) \<Longrightarrow> cut CHR 0x00 (pair_key p) = Some p"
proof -
  have "cut c (xs @ c # ys) = Some (xs, ys)" if "c \<notin> set xs" for c xs ys
    using that by (induction xs) (auto simp: cut_def split: list.splits)
  then show "CHR 0x00 \<notin> set (fst p) \<Longrightarrow> cut CHR 0x00 (pair_key p) = Some p" by (cases p) (simp add: pair_key_def nul_def)
qed

definition pair_edge :: "(string \<times> string) list \<Rightarrow> string \<times> string \<Rightarrow> trace_edge" where
  "pair_edge pairs p = \<lparr>te_from = fst p, te_to = snd p, te_count = count_list pairs p, te_provenance = ProvenanceObservedParent\<rparr>"

lemma edgesFromCount_pairs:
  assumes "\<And>p. p \<in> set pairs \<Longrightarrow> CHR 0x00 \<notin> set (fst p)"
  shows "edgesFromCount (map pair_key pairs) =
    take traceMaxEdges (sort_key (\<lambda>e. (- int (te_count e), te_from e, te_to e)) (map (pair_edge pairs) (remdups pairs)))"
proof -
  have cutp: "cut CHR 0x00 (pair_key p) = Some p" if "p \<in> set pairs" for p by (rule cut_pair_key [OF assms [OF that]])
  have inj: "inj_on pair_key (set pairs)" by (rule inj_onI) (metis cutp option.inject)
  have cnt: "count_list (map pair_key xs) (pair_key p) = count_list xs p" if "set xs \<subseteq> set pairs" "p \<in> set pairs" for xs p
    using that inj by (induction xs) (auto simp: inj_on_def)
  have rd: "remdups (map pair_key xs) = map pair_key (remdups xs)" if "set xs \<subseteq> set pairs" for xs
    using that inj by (induction xs) (auto simp: inj_on_def)
  have "List.map_filter (\<lambda>k. map_option (\<lambda>(from, to). \<lparr>te_from = from, te_to = to, te_count = count_list (map pair_key pairs) k,
      te_provenance = ProvenanceObservedParent\<rparr>) (cut CHR 0x00 k)) (map pair_key xs) = map (pair_edge pairs) xs" if "set xs \<subseteq> set pairs" for xs
    using that by (induction xs) (auto simp: List.map_filter_simps cutp cnt pair_edge_def split: prod.splits)
  then show ?thesis unfolding edgesFromCount_def by (simp add: rd)
qed

definition observed_pairs :: "span list \<Rightarrow> (string \<times> string) list" where
  "observed_pairs spans = concat (map (\<lambda>(t, byID). service_pairs byID) (traces_of spans))"

lemma observed_pairs_service:
  assumes "p \<in> set (observed_pairs spans)"
  shows "fst p \<noteq> snd p \<and> fst p \<noteq> [] \<and> snd p \<noteq> [] \<and> (\<exists>s \<in> set spans. fst p = sp_service_name s)"
proof -
  obtain t byID where t: "(t, byID) \<in> set (traces_of spans)" "p \<in> set (service_pairs byID)"
    using assms by (auto simp: observed_pairs_def)
  then show ?thesis using service_pairs_spans [of "fst p" "snd p" byID] traces_of_spans [OF t(1)] by auto
qed

lemma gs_edges_pairs:
  assumes "list_all (\<lambda>s. CHR 0x00 \<notin> set (sp_service_name s)) spans"
  shows "gs_edges (Build spans) = take traceMaxEdges (sort_key (\<lambda>e. (- int (te_count e), te_from e, te_to e))
    (map (pair_edge (observed_pairs spans)) (remdups (observed_pairs spans))))"
proof -
  have "concat (map (\<lambda>(t, byID). edge_keys byID) ts) = map pair_key (concat (map (\<lambda>(t, byID). service_pairs byID) ts))" for ts :: "(string \<times> trace_nodes) list"
    by (induction ts) (auto simp: edge_keys_pairs)
  then have "gs_edges (Build spans) = edgesFromCount (map pair_key (observed_pairs spans))"
    by (simp add: Build_def Let_def observed_pairs_def)
  also have "\<dots> = take traceMaxEdges (sort_key (\<lambda>e. (- int (te_count e), te_from e, te_to e))
      (map (pair_edge (observed_pairs spans)) (remdups (observed_pairs spans))))"
  proof (rule edgesFromCount_pairs)
    fix p assume "p \<in> set (observed_pairs spans)"
    then obtain s where "s \<in> set spans" "fst p = sp_service_name s" using observed_pairs_service by blast
    then show "CHR 0x00 \<notin> set (fst p)" using assms by (simp add: list_all_iff)
  qed
  finally show ?thesis .
qed

text \<open>
  C32: Every edge of the runtime graph is an observed dependency: its ends are different named services, and its
  count is the number of spans of the callee whose parent span, in the same trace, belongs to the caller. Up to the
  cap of 2000 edges none is missing. Service names are assumed to hold no NUL byte.
\<close>

theorem Build_edges:
  assumes "list_all (\<lambda>s. CHR 0x00 \<notin> set (sp_service_name s)) spans"
  shows "list_all (\<lambda>e. te_from e \<noteq> te_to e \<and> te_from e \<noteq> [] \<and> te_to e \<noteq> [] \<and>
      te_count e = count_list (observed_pairs spans) (te_from e, te_to e) \<and> 0 < te_count e) (gs_edges (Build spans)) \<and>
    (length (remdups (observed_pairs spans)) \<le> 2000 \<longrightarrow>
       (\<lambda>e. (te_from e, te_to e)) ` set (gs_edges (Build spans)) = set (observed_pairs spans))"
proof (intro conjI impI)
  let ?ok = "\<lambda>e. te_from e \<noteq> te_to e \<and> te_from e \<noteq> [] \<and> te_to e \<noteq> [] \<and>
      te_count e = count_list (observed_pairs spans) (te_from e, te_to e) \<and> 0 < te_count e"
  have "?ok (pair_edge (observed_pairs spans) p)" if "p \<in> set (observed_pairs spans)" for p
    using observed_pairs_service [OF that] that by (simp add: pair_edge_def count_list_0_iff neq0_conv [symmetric])
  moreover have "\<exists>p \<in> set (observed_pairs spans). e = pair_edge (observed_pairs spans) p" if "e \<in> set (gs_edges (Build spans))" for e
    using in_set_takeD [OF that [unfolded gs_edges_pairs [OF assms]]] by (simp add: image_iff)
  ultimately show "list_all ?ok (gs_edges (Build spans))" unfolding list_all_iff by blast
  assume "length (remdups (observed_pairs spans)) \<le> 2000"
  then show "(\<lambda>e. (te_from e, te_to e)) ` set (gs_edges (Build spans)) = set (observed_pairs spans)"
    by (simp add: gs_edges_pairs [OF assms] traceMaxEdges_def image_image pair_edge_def)
qed

theorem Build_edges_witness:
  "list_all (\<lambda>e. te_from e \<noteq> te_to e \<and> te_from e \<noteq> [] \<and> te_to e \<noteq> [] \<and>
      te_count e = count_list (observed_pairs (map snd demo_trace)) (te_from e, te_to e) \<and> 0 < te_count e) (gs_edges (Build (map snd demo_trace))) \<and>
   (\<lambda>e. (te_from e, te_to e)) ` set (gs_edges (Build (map snd demo_trace))) = {(''gateway'', ''cart'')}"
proof -
  have p: "observed_pairs (map snd demo_trace) = [(''gateway'', ''cart'')]" by code_simp
  have "list_all (\<lambda>s. CHR 0x00 \<notin> set (sp_service_name s)) (map snd demo_trace)" by code_simp
  from Build_edges [OF this] show ?thesis by (simp add: p)
qed

end
