(* ===== verification/Locate.thy ===== *)
theory Locate
  imports Source_Graph Trace_Graph "HOL-Library.Multiset"
begin

text \<open>
  The join of a span window onto the source graph, \<open>internal/locate/bind.go\<close>. A span is bound to a function only by
  its code attributes. \<open>sort.Slice\<close> is modelled by a stable sort; it is not stable in Go, and what is shown of the
  bindings does not depend on their order.
\<close>

record binding =
  bi_trace_id :: string
  bi_span_id :: string
  bi_service_name :: string
  bi_span_name :: string
  bi_code_function :: string
  bi_code_file :: string
  bi_source_id :: string
  bi_source_name :: string
  bi_file :: string
  bi_line :: int
  bi_http_method :: string
  bi_http_route :: string
  bi_provenance :: string

record unmapped =
  un_trace_id :: string
  un_span_id :: string
  un_service_name :: string
  un_span_name :: string
  un_code_function :: string
  un_code_file :: string
  un_reason :: string

record locate_snapshot =
  ls_bindings :: "binding list"
  ls_unmapped :: "unmapped list"
  ls_bound :: nat
  ls_unmapped_count :: nat
  ls_span_count :: nat

definition maxBindings :: nat where
  "maxBindings = 2000"

definition maxUnmappedReturned :: nat where
  "maxUnmappedReturned = 200"

section \<open>Binding one span\<close>

definition normalizeFile :: "string \<Rightarrow> string option" where
  "normalizeFile raw =
     (let s1 = path_clean (replace_char CHR 0x5C CHR ''/'' (trim_space raw))
      in if s1 = ''.'' \<or> s1 = ''/'' \<or> prefix ''../'' s1 \<or> sublist ''/../'' s1 then None
         else (let s2 = trim_prefix ''examples/shop/'' (trim_prefix ''/'' s1)
               in if s2 = [] \<or> sublist ''..'' s2 then None else Some s2))"

definition functionName :: "string \<Rightarrow> string" where
  "functionName codeFunction =
     (let s = trim_space codeFunction
      in if CHR ''.'' \<in> set s \<and> last s \<noteq> CHR ''.'' then rev (takeWhile (\<lambda>c. c \<noteq> CHR ''.'') (rev s)) else s)"

text \<open>The files are a set, here the list of its elements; a file without functions has no entry in \<open>si_funcs\<close>.\<close>

record source_index =
  si_files :: "string list"
  si_funcs :: "string \<Rightarrow> node list"

definition indexNode :: "node \<Rightarrow> source_index \<Rightarrow> source_index" where
  "indexNode n idx =
     (if nd_kind n = ''file'' then (if nd_file n \<noteq> [] then idx\<lparr>si_files := nd_file n # si_files idx\<rparr> else idx)
      else if nd_kind n = ''function''
      then (if nd_file n \<noteq> [] then idx\<lparr>si_funcs := (si_funcs idx)(nd_file n := si_funcs idx (nd_file n) @ [n])\<rparr> else idx)
      else idx)"

definition indexSource :: "sgraph \<Rightarrow> source_index" where
  "indexSource g = fold indexNode (ss_nodes (sg_snapshot g)) \<lparr>si_files = [], si_funcs = (\<lambda>_. [])\<rparr>"

definition unmapped_of :: "span \<Rightarrow> string \<Rightarrow> unmapped" where
  "unmapped_of sp reason =
     \<lparr>un_trace_id = sp_trace_id sp, un_span_id = sp_span_id sp, un_service_name = sp_service_name sp,
      un_span_name = sp_name sp, un_code_function = sp_code_function sp, un_code_file = sp_code_file sp, un_reason = reason\<rparr>"

definition binding_of :: "span \<Rightarrow> node \<Rightarrow> binding" where
  "binding_of sp fn =
     \<lparr>bi_trace_id = sp_trace_id sp, bi_span_id = sp_span_id sp, bi_service_name = sp_service_name sp,
      bi_span_name = sp_name sp, bi_code_function = sp_code_function sp, bi_code_file = sp_code_file sp,
      bi_source_id = nd_id fn, bi_source_name = nd_name fn, bi_file = nd_file fn, bi_line = nd_line fn,
      bi_http_method = trim_space (sp_http_method sp), bi_http_route = trim_space (sp_http_route sp),
      bi_provenance = ''code_attrs''\<rparr>"

text \<open>\<open>bindOne\<close>: \<open>Inl\<close> is the result \<open>false\<close>.\<close>

definition bindOne :: "source_index \<Rightarrow> span \<Rightarrow> unmapped + binding" where
  "bindOne idx sp =
     (if trim_space (sp_code_function sp) = [] \<or> trim_space (sp_code_file sp) = []
      then Inl (unmapped_of sp ''missing_code_attrs'')
      else (case normalizeFile (sp_code_file sp) of
              None \<Rightarrow> Inl (unmapped_of sp ''invalid_code_file'')
            | Some file \<Rightarrow>
                if file \<notin> set (si_files idx) \<and> si_funcs idx file = [] then Inl (unmapped_of sp ''no_file'')
                else (case filter (\<lambda>fn. nd_name fn = functionName (sp_code_function sp)) (si_funcs idx file) of
                        [] \<Rightarrow> Inl (unmapped_of sp ''no_function'')
                      | [fn] \<Rightarrow> Inr (binding_of sp fn)
                      | _ \<Rightarrow> Inl (unmapped_of sp ''ambiguous''))))"

section \<open>Binding a window\<close>

definition addUnmapped :: "unmapped \<Rightarrow> locate_snapshot \<Rightarrow> locate_snapshot" where
  "addUnmapped u out =
     out\<lparr>ls_unmapped_count := ls_unmapped_count out + 1,
         ls_unmapped := (if length (ls_unmapped out) < maxUnmappedReturned then ls_unmapped out @ [u] else ls_unmapped out)\<rparr>"

definition addBinding :: "binding \<Rightarrow> locate_snapshot \<Rightarrow> locate_snapshot" where
  "addBinding b out =
     out\<lparr>ls_bound := ls_bound out + 1,
         ls_bindings := (if length (ls_bindings out) < maxBindings then ls_bindings out @ [b] else ls_bindings out)\<rparr>"

definition countSpan :: "locate_snapshot \<Rightarrow> locate_snapshot" where
  "countSpan out = out\<lparr>ls_span_count := ls_span_count out + 1\<rparr>"

definition noGraphReason :: "span \<Rightarrow> string" where
  "noGraphReason sp =
     (if trim_space (sp_code_function sp) \<noteq> [] \<and> trim_space (sp_code_file sp) \<noteq> [] then ''no_file'' else ''missing_code_attrs'')"

definition bindStep :: "source_index \<Rightarrow> span \<Rightarrow> locate_snapshot \<Rightarrow> locate_snapshot" where
  "bindStep idx sp out =
     (if sp_trace_id sp = [] \<or> sp_span_id sp = [] then out
      else (case bindOne idx sp of
              Inr b \<Rightarrow> addBinding b (countSpan out)
            | Inl u \<Rightarrow> addUnmapped u (countSpan out)))"

definition noGraphStep :: "span \<Rightarrow> locate_snapshot \<Rightarrow> locate_snapshot" where
  "noGraphStep sp out =
     (if sp_trace_id sp = [] \<or> sp_span_id sp = [] then out
      else addUnmapped (unmapped_of sp (noGraphReason sp)) (countSpan out))"

definition empty_locate :: locate_snapshot where
  "empty_locate = \<lparr>ls_bindings = [], ls_unmapped = [], ls_bound = 0, ls_unmapped_count = 0, ls_span_count = 0\<rparr>"

definition Bind :: "sgraph option \<Rightarrow> span list \<Rightarrow> locate_snapshot" where
  "Bind g spans =
     (case g of
        None \<Rightarrow> fold noGraphStep spans empty_locate
      | Some sg \<Rightarrow>
          (let out = fold (bindStep (indexSource sg)) spans empty_locate
           in out\<lparr>ls_bindings := sort_key (\<lambda>b. (bi_trace_id b, bi_span_id b)) (ls_bindings out)\<rparr>))"

section \<open>What a binding means\<close>

text \<open>The functions of the graph that the code attributes of a span name.\<close>

definition names_function :: "span \<Rightarrow> node \<Rightarrow> bool" where
  "names_function sp n =
     (trim_space (sp_code_function sp) \<noteq> [] \<and> trim_space (sp_code_file sp) \<noteq> [] \<and> nd_kind n = ''function'' \<and>
      normalizeFile (sp_code_file sp) = Some (nd_file n) \<and> nd_name n = functionName (sp_code_function sp))"

definition located :: "sgraph \<Rightarrow> span \<Rightarrow> binding option" where
  "located g sp = (case filter (names_function sp) (sg_nodes g) of [n] \<Rightarrow> Some (binding_of sp n) | _ \<Rightarrow> None)"

lemma normalizeFile_nonempty: "normalizeFile raw = Some f \<Longrightarrow> f \<noteq> []"
  by (auto simp: normalizeFile_def Let_def split: if_splits)

lemma si_funcs_indexNode:
  "f \<noteq> [] \<Longrightarrow> si_funcs (indexNode n idx) f = si_funcs idx f @ (if nd_kind n = ''function'' \<and> nd_file n = f then [n] else [])"
  by (simp add: indexNode_def)

lemma si_funcs_indexSource:
  assumes "f \<noteq> []"
  shows "si_funcs (indexSource g) f = filter (\<lambda>n. nd_kind n = ''function'' \<and> nd_file n = f) (sg_nodes g)"
proof -
  have "si_funcs (fold indexNode ns idx) f = si_funcs idx f @ filter (\<lambda>n. nd_kind n = ''function'' \<and> nd_file n = f) ns" for ns idx
    by (induction ns arbitrary: idx) (simp_all add: si_funcs_indexNode [OF assms])
  then show ?thesis by (simp add: indexSource_def sg_snapshot_def)
qed

lemma bindOne_located: "(case bindOne (indexSource g) sp of Inr b \<Rightarrow> Some b | Inl _ \<Rightarrow> None) = located g sp"
proof (cases "trim_space (sp_code_function sp) = [] \<or> trim_space (sp_code_file sp) = [] \<or> normalizeFile (sp_code_file sp) = None")
  case True
  then have "filter (names_function sp) (sg_nodes g) = []" by (auto simp: names_function_def filter_empty_conv)
  with True show ?thesis by (auto simp: bindOne_def located_def)
next
  case False
  then obtain f where f: "normalizeFile (sp_code_file sp) = Some f" by auto
  let ?hits = "filter (\<lambda>fn. nd_name fn = functionName (sp_code_function sp)) (si_funcs (indexSource g) f)"
  have hits: "?hits = filter (names_function sp) (sg_nodes g)"
    using False normalizeFile_nonempty [OF f] by (auto simp: si_funcs_indexSource names_function_def f intro!: filter_cong)
  have none: "?hits = []" if "si_funcs (indexSource g) f = []" using that by simp
  show ?thesis
  proof (cases ?hits)
    case Nil
    then show ?thesis using False f by (simp add: bindOne_def located_def hits [symmetric])
  next
    case (Cons n ns)
    then have "si_funcs (indexSource g) f \<noteq> []" using none by auto
    then show ?thesis using False f Cons by (cases ns) (simp_all add: bindOne_def located_def hits [symmetric])
  qed
qed

text \<open>The tallies of the loop.\<close>

lemma map_filter_snoc: "List.map_filter f (xs @ [x]) = List.map_filter f xs @ (case f x of None \<Rightarrow> [] | Some y \<Rightarrow> [y])"
  by (simp add: List.map_filter_def split: option.splits)

lemma bindStep_tallies:
  fixes g spans
  defines "out \<equiv> fold (bindStep (indexSource g)) spans empty_locate"
    and "found \<equiv> List.map_filter (located g) (filter counted spans)"
  shows "ls_bindings out = take maxBindings found \<and> ls_bound out = length found \<and>
    ls_bound out + ls_unmapped_count out = ls_span_count out \<and> ls_span_count out = length (filter counted spans)"
  unfolding out_def found_def
proof (induction spans rule: rev_induct)
  case Nil
  then show ?case by (simp add: empty_locate_def List.map_filter_def)
next
  case (snoc sp spans)
  show ?case
  proof (cases "counted sp")
    case False
    then have "bindStep (indexSource g) sp out = out" for out by (auto simp: bindStep_def counted_def)
    then show ?thesis using False snoc by simp
  next
    case True
    then have "bindStep (indexSource g) sp out = (case bindOne (indexSource g) sp of
        Inr b \<Rightarrow> addBinding b (countSpan out) | Inl u \<Rightarrow> addUnmapped u (countSpan out))" for out
      by (simp add: bindStep_def counted_def)
    then show ?thesis using True snoc bindOne_located [of g sp, symmetric]
      by (cases "bindOne (indexSource g) sp")
        (auto simp: map_filter_snoc addBinding_def addUnmapped_def countSpan_def min_def split: if_splits)
  qed
qed

text \<open>
  Binding is exact: a span is bound exactly when its code attributes name one function of the graph and no other,
  and the binding carries that function. The bindings returned are the first two thousand in window order, the counters
  count all of them, and every identified span of the window is counted as bound or as unmapped.
\<close>

lemma Bind_exact:
  "mset (ls_bindings (Bind (Some g) spans)) = mset (take 2000 (List.map_filter (located g) (filter counted spans))) \<and>
   ls_bound (Bind (Some g) spans) = length (List.map_filter (located g) (filter counted spans)) \<and>
   ls_bound (Bind (Some g) spans) + ls_unmapped_count (Bind (Some g) spans) = ls_span_count (Bind (Some g) spans) \<and>
   ls_span_count (Bind (Some g) spans) = length (filter counted spans)"
  using bindStep_tallies [of g spans] by (simp add: Bind_def Let_def maxBindings_def)

lemma in_bindings:
  assumes "b \<in> set (ls_bindings (Bind (Some g) spans))"
  obtains sp where "sp \<in> set spans" and "counted sp" and "located g sp = Some b"
proof -
  have "b \<in> set (List.map_filter (located g) (filter counted spans))"
    using assms bindStep_tallies [of g spans] in_set_takeD by (fastforce simp: Bind_def Let_def)
  then show ?thesis using that by (auto simp: set_map_filter)
qed

lemma located_node: "located g sp = Some b \<Longrightarrow> \<exists>n \<in> set (sg_nodes g). bi_source_id b = nd_id n"
proof -
  assume "located g sp = Some b"
  then obtain n where "filter (names_function sp) (sg_nodes g) = [n]" "b = binding_of sp n"
    by (auto simp: located_def split: list.splits)
  then have "n \<in> set (sg_nodes g)" by (metis filter_is_subset list.set_intros(1) subsetD)
  with \<open>b = binding_of sp n\<close> show ?thesis by (auto simp: binding_of_def)
qed

lemma Bind_nodes: "list_all (\<lambda>b. bi_source_id b \<in> nd_id ` set (sg_nodes g)) (ls_bindings (Bind (Some g) spans))"
  unfolding list_all_iff
proof
  fix b assume "b \<in> set (ls_bindings (Bind (Some g) spans))"
  then obtain sp where "located g sp = Some b" by (rule in_bindings)
  then show "bi_source_id b \<in> nd_id ` set (sg_nodes g)" using located_node by fastforce
qed

end
