(* ===== verification/Impact.thy ===== *)
theory Impact
  imports Routes Unified_Diff Locate
begin

text \<open>
  The blast radius of a diff, \<open>internal/impact/analyze.go\<close>, \<open>files.go\<close> and \<open>eval.go\<close>: changed functions, their
  callers, the routes that reach them, and the classification of the changed files. The order in which Go iterates the
  set of changed functions is the argument \<open>iter\<close> of \<open>Analyze\<close>. \<open>sort.Slice\<close> is modelled by a stable sort; what is
  shown of a report does not depend on the order of its findings.
\<close>

definition maxFindings :: nat where
  "maxFindings = 500"

definition appendFinding :: "finding list \<Rightarrow> finding \<Rightarrow> finding list" where
  "appendFinding dst f = (if length dst \<ge> maxFindings then dst else dst @ [f])"

section \<open>Changed functions\<close>

record src_index =
  ix_files :: "string \<rightharpoonup> node"
  ix_funcs :: "string \<Rightarrow> node list"

definition ix_add :: "node \<Rightarrow> src_index \<Rightarrow> src_index" where
  "ix_add n idx =
     (if nd_kind n = ''file'' then (if nd_file n \<noteq> [] then idx\<lparr>ix_files := (ix_files idx)(nd_file n \<mapsto> n)\<rparr> else idx)
      else if nd_kind n = ''function''
      then (if nd_file n \<noteq> [] then idx\<lparr>ix_funcs := (ix_funcs idx)(nd_file n := ix_funcs idx (nd_file n) @ [n])\<rparr> else idx)
      else idx)"

definition impact_index :: "sgraph \<Rightarrow> src_index" where
  "impact_index g =
     (let idx = fold ix_add (ss_nodes (sg_snapshot g)) \<lparr>ix_files = Map.empty, ix_funcs = (\<lambda>_. [])\<rparr>
      in idx\<lparr>ix_funcs := (\<lambda>k. sort_key (\<lambda>n. (nd_line n, nd_id n)) (ix_funcs idx k))\<rparr>)"

text \<open>The functions of a file with the line after their last one; \<open>math.MaxInt\<close> is \<open>2 ^ 63 - 1\<close>.\<close>

fun func_spans :: "node list \<Rightarrow> (node \<times> int) list" where
  "func_spans [] = []"
| "func_spans (fn # fns) =
     (fn, if nd_end_line fn \<ge> nd_line fn \<and> nd_end_line fn > 0 then inc64 (nd_end_line fn)
          else (case fns of [] \<Rightarrow> 2 ^ 63 - 1 | nxt # _ \<Rightarrow> nd_line nxt)) # func_spans fns"

definition span_covers :: "int \<Rightarrow> node \<times> int \<Rightarrow> bool" where
  "span_covers ln = (\<lambda>(n, stop). nd_line n \<le> ln \<and> ln < stop)"

record overlap =
  ol_seen :: "string list"
  ol_hits :: "(node \<times> int) list"
  ol_outside :: bool

definition overlapLine :: "(node \<times> int) list \<Rightarrow> int \<Rightarrow> overlap \<Rightarrow> overlap" where
  "overlapLine spans ln o1 =
     (case find (span_covers ln) spans of
        None \<Rightarrow> o1\<lparr>ol_outside := True\<rparr>
      | Some (n, _) \<Rightarrow>
          if nd_id n \<in> set (ol_seen o1) then o1
          else o1\<lparr>ol_seen := nd_id n # ol_seen o1, ol_hits := ol_hits o1 @ [(n, ln)]\<rparr>)"

definition overlappingFuncs :: "node list \<Rightarrow> int list \<Rightarrow> (node \<times> int) list \<times> bool" where
  "overlappingFuncs funcs lines =
     (if funcs = [] \<or> lines = [] then ([], lines \<noteq> [])
      else (let r = fold (overlapLine (func_spans funcs)) lines \<lparr>ol_seen = [], ol_hits = [], ol_outside = False\<rparr>
            in (ol_hits r, ol_outside r)))"

text \<open>The first loop of \<open>Analyze\<close>: \<open>ay_ids\<close> is \<open>directID\<close>; \<open>seenFile\<close> holds the elements of \<open>ay_files\<close>.\<close>

record analysis =
  ay_files :: "string list"
  ay_direct :: "finding list"
  ay_unobserved :: "finding list"
  ay_ids :: "string list"

definition fileFinding :: "node \<Rightarrow> string \<Rightarrow> string \<Rightarrow> finding" where
  "fileFinding n path reason =
     no_finding\<lparr>fi_name := nd_name n, fi_file := path, fi_source_id := nd_id n, fi_reason := reason, fi_provenance := ''diff''\<rparr>"

definition hitFinding :: "node \<times> int \<Rightarrow> finding" where
  "hitFinding = (\<lambda>(n, ln). no_finding\<lparr>fi_name := nd_name n, fi_file := nd_file n, fi_source_id := nd_id n, fi_line := ln,
     fi_reason := ''changed_lines'', fi_provenance := ''diff''\<rparr>)"

definition addDirect :: "finding \<Rightarrow> analysis \<Rightarrow> analysis" where
  "addDirect f a = a\<lparr>ay_direct := appendFinding (ay_direct a) f\<rparr>"

definition addHit :: "node \<times> int \<Rightarrow> analysis \<Rightarrow> analysis" where
  "addHit h a = addDirect (hitFinding h) (a\<lparr>ay_ids := add_new (nd_id (fst h)) (ay_ids a)\<rparr>)"

definition analyzeFile :: "src_index \<Rightarrow> diff_file \<Rightarrow> analysis \<Rightarrow> analysis" where
  "analyzeFile idx f a0 =
     (let path = df_path f; a = a0\<lparr>ay_files := add_new path (ay_files a0)\<rparr>
      in case ix_files idx path of
           None \<Rightarrow> a\<lparr>ay_unobserved := appendFinding (ay_unobserved a)
              (no_finding\<lparr>fi_name := path, fi_file := path, fi_reason := ''unknown_file'', fi_provenance := ''diff''\<rparr>)\<rparr>
         | Some fileNode \<Rightarrow>
             if df_binary f then addDirect (fileFinding fileNode path ''binary'') a
             else (case overlappingFuncs (ix_funcs idx path) (df_lines f) of
                     (hits, outside) \<Rightarrow>
                       (let a1 = (if outside then addDirect (fileFinding fileNode path ''changed_outside_func'') a else a)
                        in if hits = [] then addDirect (fileFinding fileNode path ''changed_file'') a1
                           else fold addHit hits a1)))"

definition analyzeFiles :: "src_index \<Rightarrow> diff \<Rightarrow> analysis" where
  "analyzeFiles idx d = fold (analyzeFile idx) d \<lparr>ay_files = [], ay_direct = [], ay_unobserved = [], ay_ids = []\<rparr>"

section \<open>Callers\<close>

text \<open>\<open>callerTargets\<close> maps a caller to the changed functions it calls; a caller without an entry has none.\<close>

record caller_state =
  cl_ids :: "string list"
  cl_targets :: "string \<Rightarrow> string list"
  cl_likely :: "finding list"

definition callerFinding :: "node \<Rightarrow> finding" where
  "callerFinding n =
     no_finding\<lparr>fi_name := nd_name n, fi_file := nd_file n, fi_source_id := nd_id n, fi_line := nd_line n,
       fi_reason := ''caller'', fi_provenance := ''types''\<rparr>"

definition addCaller :: "sgraph \<Rightarrow> string list \<Rightarrow> string \<Rightarrow> neighbor \<Rightarrow> caller_state \<Rightarrow> caller_state" where
  "addCaller g direct i n st =
     (if nb_direction n \<noteq> ''in'' \<or> nb_kind n \<noteq> ''calls'' then st
      else (let c = nd_id (nb_node n);
                st1 = (case Node g i of
                         Some changed \<Rightarrow> st\<lparr>cl_targets := (cl_targets st)(c := add_new (nd_id changed) (cl_targets st c))\<rparr>
                       | None \<Rightarrow> st)
            in if c \<in> set direct \<or> c \<in> set (cl_ids st1) then st1
               else st1\<lparr>cl_ids := cl_ids st1 @ [c], cl_likely := appendFinding (cl_likely st1) (callerFinding (nb_node n))\<rparr>))"

definition addCallers :: "sgraph \<Rightarrow> string list \<Rightarrow> string \<Rightarrow> caller_state \<Rightarrow> caller_state" where
  "addCallers g direct i st =
     (case Neighbors g i of None \<Rightarrow> st | Some ns \<Rightarrow> fold (addCaller g direct i) ns st)"

definition findCallers :: "sgraph \<Rightarrow> string list \<Rightarrow> string list \<Rightarrow> caller_state" where
  "findCallers g direct order =
     fold (addCallers g direct) order \<lparr>cl_ids = [], cl_targets = (\<lambda>_. []), cl_likely = []\<rparr>"

section \<open>Runtime\<close>

definition routeLabel :: "string \<Rightarrow> string \<Rightarrow> string" where
  "routeLabel method0 path0 =
     (let method = to_upper (trim_space method0); path = before CHR ''?'' (trim_space path0)
      in if method = [] \<or> path = [] then []
         else method @ '' '' @ (if prefix ''/'' path then path else ''/'' @ path))"

definition boundFindings :: "binding \<Rightarrow> entry_route \<Rightarrow> bool \<Rightarrow> string list \<Rightarrow> finding list" where
  "boundFindings b entry direct targets =
     (let f = \<lparr>fi_via = [], fi_trace_id = bi_trace_id b, fi_span_id = bi_span_id b, fi_entry_span_id = er_span_id entry,
               fi_name = bi_source_name b, fi_file = bi_file b, fi_source_id = bi_source_id b,
               fi_service = bi_service_name b, fi_path = [], fi_route = routeLabel (er_method entry) (er_route entry),
               fi_line = bi_line b, fi_reason = ''bound_span'', fi_provenance = ''code_attrs''\<rparr>
      in if fi_route f = [] then [f]
         else (if direct then [f\<lparr>fi_provenance := ''trace_entry''\<rparr>] else []) @
              (if targets \<noteq> []
               then [f\<lparr>fi_provenance := ''trace_entry_caller'', fi_reason := ''bound_span_caller'',
                       fi_via := join ''; '' (sort (map (\<lambda>t. bi_source_id b @ '' -> '' @ t) targets))\<rparr>] else []))"

record runtime_state =
  rs_services :: "string list"
  rs_seen :: "string list"
  rs_traces :: "string \<Rightarrow> string list"
  rs_runtime :: "finding list"

definition noteFinding :: "binding \<Rightarrow> finding \<Rightarrow> runtime_state \<Rightarrow> runtime_state" where
  "noteFinding b f st =
     (if fi_service f = [] \<and> fi_route f = [] then st
      else (let st1 = (if fi_route f \<noteq> [] \<and> bi_trace_id b \<noteq> []
                       then st\<lparr>rs_traces := (rs_traces st)(fi_route f := add_new (bi_trace_id b) (rs_traces st (fi_route f)))\<rparr>
                       else st);
                key = fi_source_id f @ nul @ fi_route f @ nul @ fi_provenance f
            in if key \<in> set (rs_seen st1) then st1
               else st1\<lparr>rs_seen := key # rs_seen st1, rs_runtime := appendFinding (rs_runtime st1) f\<rparr>))"

definition noteBinding :: "graph_snapshot \<Rightarrow> string list \<Rightarrow> caller_state \<Rightarrow> binding \<Rightarrow> runtime_state \<Rightarrow> runtime_state" where
  "noteBinding rt direct cs b st =
     (if bi_source_id b \<notin> set direct \<union> set (cl_ids cs) then st
      else (let st1 = (if bi_service_name b \<noteq> [] then st\<lparr>rs_services := add_new (bi_service_name b) (rs_services st)\<rparr> else st);
                entry = (case EntryForSpan rt (bi_trace_id b) (bi_span_id b) of Some e \<Rightarrow> e | None \<Rightarrow> no_entry)
            in fold (noteFinding b)
                 (boundFindings b entry (bi_source_id b \<in> set direct) (cl_targets cs (bi_source_id b))) st1))"

definition pathTouches :: "string list \<Rightarrow> string list \<Rightarrow> bool" where
  "pathTouches path services = list_ex (\<lambda>s. s \<in> set services) path"

definition pathFinding :: "trace_path \<Rightarrow> finding" where
  "pathFinding p =
     no_finding\<lparr>fi_path := join '' -> '' (tp_services p), fi_reason := ''observed_path'', fi_provenance := ProvenanceObservedParent\<rparr>"

definition notePath :: "string list \<Rightarrow> trace_path \<Rightarrow> finding list \<Rightarrow> finding list" where
  "notePath services p dst = (if pathTouches (tp_services p) services then appendFinding dst (pathFinding p) else dst)"

definition locateHit :: "locate_snapshot \<Rightarrow> string \<Rightarrow> bool" where
  "locateHit loc i = list_ex (\<lambda>b. bi_source_id b = i) (ls_bindings loc)"

definition noteUnbound :: "locate_snapshot \<Rightarrow> finding \<Rightarrow> finding list \<Rightarrow> finding list" where
  "noteUnbound loc f dst =
     (if fi_source_id f = [] \<or> locateHit loc (fi_source_id f) then dst
      else appendFinding dst (no_finding\<lparr>fi_name := fi_name f, fi_file := fi_file f, fi_source_id := fi_source_id f,
             fi_reason := ''no_runtime_bind'', fi_provenance := ''locate''\<rparr>))"

definition sortFindings :: "finding list \<Rightarrow> finding list" where
  "sortFindings fs = sort_key (\<lambda>f. (fi_file f, fi_name f, fi_path f, fi_route f, fi_trace_id f, fi_span_id f)) fs"

definition empty_report :: impact_report where
  "empty_report = \<lparr>rp_trace_counts = [], rp_files = [], rp_direct = [], rp_likely = [], rp_runtime = [], rp_unobserved = []\<rparr>"

definition Analyze :: "(string list \<Rightarrow> string list) \<Rightarrow> sgraph option \<Rightarrow> diff \<Rightarrow> locate_snapshot \<Rightarrow> graph_snapshot \<Rightarrow> impact_report" where
  "Analyze iter graph d loc rt =
     (case graph of
        None \<Rightarrow> empty_report
      | Some g \<Rightarrow>
          (let a = analyzeFiles (impact_index g) d;
               cs = findCallers g (ay_ids a) (iter (ay_ids a));
               rs = fold (noteBinding rt (ay_ids a) cs) (ls_bindings loc)
                      \<lparr>rs_services = [], rs_seen = [], rs_traces = (\<lambda>_. []), rs_runtime = []\<rparr>;
               runtime = fold (notePath (rs_services rs)) (gs_paths rt) (rs_runtime rs);
               counts = List.map_filter (\<lambda>r. if rs_traces rs r = [] then None
                          else Some \<lparr>rtc_route = r, rtc_traces = length (rs_traces rs r)\<rparr>)
                          (RuntimeRoutes (empty_report\<lparr>rp_runtime := runtime\<rparr>))
           in \<lparr>rp_trace_counts = counts, rp_files = sort (ay_files a), rp_direct = sortFindings (ay_direct a),
               rp_likely = sortFindings (cl_likely cs), rp_runtime = sortFindings runtime,
               rp_unobserved = sortFindings (fold (noteUnbound loc) (ay_direct a) (ay_unobserved a))\<rparr>))"

section \<open>Classification of the changed files\<close>

definition Inert :: "string \<Rightarrow> bool" where
  "Inert p =
     (path_ext p = ''.md'' \<or> path_ext p = ''.rst'' \<or>
      (let b = path_base p
       in prefix ''LICENSE'' b \<or> prefix ''NOTICE'' b \<or> prefix ''AUTHORS'' b \<or> prefix ''CHANGELOG'' b \<or>
          b = ''CODEOWNERS'' \<or> suffix ''_test.go'' b))"

definition classifyFile :: "finding list \<Rightarrow> string \<Rightarrow> changes \<Rightarrow> changes" where
  "classifyFile direct p c =
     (if Inert p then c
      else (let fs = filter (\<lambda>f. fi_file f = p) direct
            in if list_ex (\<lambda>f. fi_reason f \<noteq> ''changed_lines'' \<or> fi_source_id f = []) fs \<or> fs = []
               then c\<lparr>ch_unanalyzed := add_new p (ch_unanalyzed c)\<rparr>
               else c\<lparr>ch_bound := fold add_new (map fi_source_id fs) (ch_bound c)\<rparr>))"

definition Classify :: "impact_report \<Rightarrow> changes" where
  "Classify rep =
     (let c = fold (classifyFile (rp_direct rep)) (rp_files rep) \<lparr>ch_bound = [], ch_unanalyzed = []\<rparr>
      in \<lparr>ch_bound = sort (ch_bound c), ch_unanalyzed = sort (ch_unanalyzed c)\<rparr>)"

section \<open>Without a source graph\<close>

definition codeFileMatch :: "string \<Rightarrow> string \<Rightarrow> bool" where
  "codeFileMatch diffPath codeFile =
     (let dp = (case CanonicalPath diffPath of Some p \<Rightarrow> p | None \<Rightarrow> path_clean (replace_char CHR 0x5C CHR ''/'' diffPath));
          cp = (case CanonicalPath codeFile of Some p \<Rightarrow> p
                | None \<Rightarrow> trim_prefix ''/'' (path_clean (replace_char CHR 0x5C CHR ''/'' (trim_space codeFile))))
      in if dp = [] \<or> cp = [] \<or> dp = ''.'' \<or> cp = ''.'' then False
         else if dp = cp then True
         else if CHR ''/'' \<notin> set dp then False
         else suffix (''/'' @ dp) cp)"

definition spanLabel :: "span \<Rightarrow> string" where
  "spanLabel sp =
     (let n1 = trim_space (sp_http_method sp @ '' '' @ sp_http_route sp); n2 = trim_space (sp_name sp)
      in if n1 \<noteq> [] then n1 else if n2 \<noteq> [] then n2 else sp_service_name sp)"

record file_report =
  fr_files :: "string list"
  fr_runtime :: "finding list"
  fr_unobserved :: "finding list"
  fr_seen :: "string list"

definition fileSpan :: "string \<Rightarrow> span \<Rightarrow> file_report \<Rightarrow> file_report" where
  "fileSpan p sp r =
     (if \<not> codeFileMatch p (sp_code_file sp) then r
      else (let key = sp_service_name sp @ nul @ spanLabel sp @ nul @ p
            in if key \<in> set (fr_seen r) then r
               else r\<lparr>fr_seen := key # fr_seen r,
                      fr_runtime := appendFinding (fr_runtime r)
                        (no_finding\<lparr>fi_name := spanLabel sp, fi_file := p, fi_service := sp_service_name sp,
                           fi_path := trim_space (sp_http_route sp), fi_route := routeLabel (sp_http_method sp) (sp_http_route sp),
                           fi_reason := ''code_file'', fi_provenance := ''code_attrs''\<rparr>)\<rparr>))"

definition fileReport :: "span list \<Rightarrow> diff_file \<Rightarrow> file_report \<Rightarrow> file_report" where
  "fileReport spans f r =
     (let p = df_path f
      in if p = [] then r
         else fold (fileSpan p) spans
                (r\<lparr>fr_files := add_new p (fr_files r),
                   fr_unobserved := appendFinding (fr_unobserved r)
                     (no_finding\<lparr>fi_name := p, fi_file := p, fi_path := p,
                        fi_reason := (if df_status f = ''add'' then ''new_file'' else ''unknown_file''), fi_provenance := ''diff''\<rparr>)\<rparr>))"

definition FromDiff :: "diff \<Rightarrow> span list \<Rightarrow> impact_report" where
  "FromDiff d spans =
     (let r = fold (fileReport spans) d \<lparr>fr_files = [], fr_runtime = [], fr_unobserved = [], fr_seen = []\<rparr>
      in empty_report\<lparr>rp_files := sort (fr_files r), rp_runtime := sortFindings (fr_runtime r),
           rp_unobserved := sortFindings (fr_unobserved r)\<rparr>)"

section \<open>Scoring against labels\<close>

record impact_label =
  lb_id :: string
  lb_direct :: "string list"
  lb_likely :: "string list"
  lb_forbid_likely :: "string list"
  lb_unobserved :: string

record case_score =
  cs_id :: string
  cs_direct_hit :: nat
  cs_direct_pred :: nat
  cs_direct_gold :: nat
  cs_likely_hit :: nat
  cs_likely_pred :: nat
  cs_likely_gold :: nat
  cs_misses :: "string list"
  cs_forbidden :: "string list"

definition nameSet :: "finding list \<Rightarrow> string \<Rightarrow> string list" where
  "nameSet fs reason =
     fold (\<lambda>f out. if reason \<noteq> [] \<and> fi_reason f \<noteq> reason \<or> fi_name f = [] then out else add_new (fi_name f) out) fs []"

definition Score :: "impact_report \<Rightarrow> impact_label \<Rightarrow> case_score" where
  "Score rep lab =
     (let predD = nameSet (rp_direct rep) ''changed_lines''; predL = nameSet (rp_likely rep) ''caller''
      in \<lparr>cs_id = lb_id lab,
          cs_direct_hit = length (filter (\<lambda>n. n \<in> set predD) (lb_direct lab)), cs_direct_pred = length predD,
          cs_direct_gold = length (lb_direct lab),
          cs_likely_hit = length (filter (\<lambda>n. n \<in> set predL) (lb_likely lab)), cs_likely_pred = length predL,
          cs_likely_gold = length (lb_likely lab),
          cs_misses = map (\<lambda>n. ''direct:'' @ n) (filter (\<lambda>n. n \<notin> set predD) (lb_direct lab)) @
                      map (\<lambda>n. ''likely:'' @ n) (filter (\<lambda>n. n \<notin> set predL) (lb_likely lab)) @
                      (if lb_unobserved lab \<noteq> [] \<and> \<not> list_ex (\<lambda>f. fi_reason f = lb_unobserved lab) (rp_unobserved rep)
                       then [''unobserved:'' @ lb_unobserved lab] else []),
          cs_forbidden = filter (\<lambda>n. n \<in> set predL) (lb_forbid_likely lab)\<rparr>)"

end
