(* ===== verification/Evidence.thy ===== *)
theory Evidence
  imports Impact Validate
begin

text \<open>
  Evidence artifacts, \<open>internal/evidence\<close>: building an artifact from an executed experiment, its coverage section,
  its digests, and the checks that reading and writing apply (\<open>artifact.go\<close>, \<open>coverage.go\<close>), and the Markdown
  projection (\<open>markdown.go\<close>). SHA-256 in hexadecimal, JSON encoding and decoding, the clock and the formatting of
  times and floating-point numbers are fields of \<open>evidence_env\<close>.
\<close>

record request =
  rq_method :: string
  rq_path :: string
  rq_provenance :: string
  rq_headers :: "string list"

record impact_summary =
  im_runtime_findings :: "finding list"
  im_changes :: changes
  im_files :: nat
  im_direct :: nat
  im_likely :: nat
  im_runtime :: nat
  im_unobserved :: nat
  im_changed :: "string list"
  im_direct_names :: "string list"

record coverage =
  cv_trace_counts :: "route_trace_count list"
  cv_attributions :: "route_attribution list"
  cv_impacted :: "string list"
  cv_exercised :: "string list"
  cv_missed :: "string list"
  cv_rejected :: "string list"

record artifact =
  ar_baseline_rev :: revision
  ar_patch_rev :: revision
  ar_schema :: string
  ar_recorded :: time
  ar_baseline :: string
  ar_patch :: string
  ar_baseline_sha :: string
  ar_dirty :: bool
  ar_service :: string
  ar_workload_digest :: string
  ar_artifact_digest :: string
  ar_workload :: "request list"
  ar_impact :: impact_summary
  ar_coverage :: "coverage option"
  ar_plan :: dag
  ar_result :: evidence
  ar_validated :: bool
  ar_blockers :: "blocker list"

record evidence_input =
  ei_baseline_rev :: revision
  ei_patch_rev :: revision
  ei_now :: time
  ei_baseline :: string
  ei_patch :: string
  ei_service :: string
  ei_workload :: workload
  ei_impact :: impact_report
  ei_plan :: dag
  ei_result :: evidence

record evidence_env =
  ee_net :: net_env
  ee_clock :: time
  ee_sha256 :: "string \<Rightarrow> string"
  ee_marshal :: "artifact \<Rightarrow> string option"
  ee_marshal_indent :: "artifact \<Rightarrow> string option"
  ee_decode :: "string \<Rightarrow> artifact option"
  ee_format_time :: "time \<Rightarrow> string"
  ee_format_ms :: "int64 \<Rightarrow> string"

definition SchemaV1 :: string where
  "SchemaV1 = ''aquila.evidence.v1''"

definition SchemaV2 :: string where
  "SchemaV2 = ''aquila.evidence.v2''"

definition SchemaV3 :: string where
  "SchemaV3 = ''aquila.evidence.v3''"

definition evidenceMaxBytes :: nat where
  "evidenceMaxBytes = 1048576"

section \<open>Coverage\<close>

text \<open>The keys \<open>refused\<close> of \<open>coverageOf\<close>, and the attributions of the runtime findings.\<close>

definition refusedKeys :: "evidence \<Rightarrow> string list" where
  "refusedKeys res =
     concat (map (\<lambda>s. if sr_kind s = ''behavior''
                      then map (\<lambda>d. de_method d @ '' '' @ de_path d) (filter AuthRejected (sr_steps s)) else []) (ev_steps res))"

definition attributionsOf :: "impact_report \<Rightarrow> route_attribution list" where
  "attributionsOf rep =
     sort_key (\<lambda>a. (ra_route a, ra_provenance a, ra_via a))
       (dedup (map (\<lambda>f. \<lparr>ra_route = fi_route f, ra_provenance = fi_provenance f, ra_via = fi_via f\<rparr>)
          (filter (\<lambda>f. fi_route f \<noteq> []) (rp_runtime rep))))"

definition step_of :: "request \<Rightarrow> replay_step" where
  "step_of r = \<lparr>st_method = rq_method r, st_path = rq_path r, st_body = [], st_headers = [], st_provenance = [], st_service = []\<rparr>"

text \<open>The inner loop of \<open>coverageOf\<close> returns \<open>(reached, rejected)\<close>.\<close>

fun routeOutcome :: "string list \<Rightarrow> evidence \<Rightarrow> string \<Rightarrow> request list \<Rightarrow> bool \<Rightarrow> bool \<times> bool" where
  "routeOutcome refused res route [] rejected = (False, rejected)"
| "routeOutcome refused res route (r # rs) rejected =
     (if \<not> RouteMatches route (rq_method r) (rq_path r) then routeOutcome refused res route rs rejected
      else if Covered [route] [step_of r] res then (True, rejected)
      else routeOutcome refused res route rs (rejected \<or> rq_method r @ '' '' @ rq_path r \<in> set refused))"

definition addRoute :: "string list \<Rightarrow> evidence \<Rightarrow> request list \<Rightarrow> string \<Rightarrow> coverage \<Rightarrow> coverage" where
  "addRoute refused res work route c =
     (case routeOutcome refused res route work False of
        (reached, rejected) \<Rightarrow>
          if reached then c\<lparr>cv_exercised := cv_exercised c @ [route]\<rparr>
          else if rejected then c\<lparr>cv_missed := cv_missed c @ [route], cv_rejected := cv_rejected c @ [route]\<rparr>
          else c\<lparr>cv_missed := cv_missed c @ [route]\<rparr>)"

definition coverageOf :: "impact_report \<Rightarrow> request list \<Rightarrow> evidence \<Rightarrow> coverage option" where
  "coverageOf rep work res =
     (let impacted = RuntimeRoutes rep
      in if impacted = [] then None
         else Some (fold (addRoute (refusedKeys res) res work) impacted
                \<lparr>cv_trace_counts = rp_trace_counts rep, cv_attributions = attributionsOf rep, cv_impacted = impacted,
                 cv_exercised = [], cv_missed = [], cv_rejected = []\<rparr>))"

definition attributionLabel :: "route_attribution \<Rightarrow> string" where
  "attributionLabel a =
     (if ra_provenance a = ''trace_entry'' \<or> ra_provenance a = ''code_attrs'' then ''observed''
      else if ra_provenance a = ''trace_entry_caller''
      then ''inferred'' @ (if ra_via a \<noteq> [] then '' via '' @ ra_via a else [])
      else ''unclassified'')"

definition RouteLabel :: "coverage \<Rightarrow> string \<Rightarrow> string" where
  "RouteLabel c route =
     (let labels = dedup (map attributionLabel (filter (\<lambda>a. ra_route a = route) (cv_attributions c))) @
                   map (\<lambda>n. ''traces='' @ itoa (int (rtc_traces n))) (filter (\<lambda>n. rtc_route n = route) (cv_trace_counts c))
      in if labels = [] then route else route @ ''  '' @ join ''; '' (sort labels))"

section \<open>Artifacts\<close>

definition evidenceClipService :: "string \<Rightarrow> string" where
  "evidenceClipService s = take 128 (trim_space s)"

definition HeaderNames :: "replay_step \<Rightarrow> string list" where
  "HeaderNames s = sort (map fst (st_headers s))"

definition requests :: "workload \<Rightarrow> request list" where
  "requests w = map (\<lambda>s. \<lparr>rq_method = st_method s, rq_path = st_path s, rq_provenance = st_provenance s, rq_headers = HeaderNames s\<rparr>) w"

definition summarizeImpact :: "impact_report \<Rightarrow> impact_summary" where
  "summarizeImpact rep =
     \<lparr>im_runtime_findings = rp_runtime rep, im_changes = Classify rep, im_files = length (rp_files rep),
      im_direct = length (rp_direct rep), im_likely = length (rp_likely rep), im_runtime = length (rp_runtime rep),
      im_unobserved = length (rp_unobserved rep), im_changed = rp_files rep,
      im_direct_names = filter (\<lambda>n. n \<noteq> []) (map fi_name (rp_direct rep))\<rparr>"

definition workloadLine :: "request \<Rightarrow> string" where
  "workloadLine r =
     rq_method r @ '' '' @ rq_path r @ '' '' @ rq_provenance r @
     (if rq_headers r = [] then [] else '' h='' @ join '','' (rq_headers r)) @ [newline]"

definition digestWorkload :: "evidence_env \<Rightarrow> request list \<Rightarrow> string" where
  "digestWorkload E rs = ee_sha256 E (concat (map workloadLine rs))"

definition digestArtifact :: "evidence_env \<Rightarrow> artifact \<Rightarrow> string" where
  "digestArtifact E a =
     (case ee_marshal E (a\<lparr>ar_artifact_digest := []\<rparr>) of None \<Rightarrow> [] | Some raw \<Rightarrow> ee_sha256 E raw)"

definition decisionInput :: "artifact \<Rightarrow> decide_input" where
  "decisionInput a =
     \<lparr>in_attributions = (case ar_coverage a of None \<Rightarrow> [] | Some c \<Rightarrow> cv_attributions c),
      in_baseline_rev = ar_baseline_rev a, in_patch_rev = ar_patch_rev a, in_baseline = ar_baseline a, in_patch = ar_patch a,
      in_plan = ar_plan a, in_result = ar_result a,
      in_impacted = (case ar_coverage a of None \<Rightarrow> [] | Some c \<Rightarrow> cv_impacted c),
      in_workload = map step_of (ar_workload a), in_changes = im_changes (ar_impact a)\<rparr>"

definition Decision :: "evidence_env \<Rightarrow> artifact \<Rightarrow> decision" where
  "Decision E a =
     (if ar_schema a = SchemaV1 then Legacy
      else if ar_schema a = SchemaV2
      then \<lparr>dn_coverage_basis = [], dn_validated = False,
            dn_blockers = [mk_blocker ''unverified_revision'' ''baseline'', mk_blocker ''unverified_revision'' ''patch'']\<rparr>
      else Decide (ee_net E) (decisionInput a))"

text \<open>\<open>Truncate(time.Second)\<close>; the zero time is 0.\<close>

definition truncate_second :: "time \<Rightarrow> time" where
  "truncate_second t = t - t mod 1000000000"

definition BuildEvidence :: "evidence_env \<Rightarrow> evidence_input \<Rightarrow> artifact" where
  "BuildEvidence E i =
     (let now0 = truncate_second (ei_now i);
          now = (if now0 = 0 then truncate_second (ee_clock E) else now0);
          a0 = \<lparr>ar_baseline_rev = ei_baseline_rev i, ar_patch_rev = ei_patch_rev i, ar_schema = SchemaV3, ar_recorded = now,
                ar_baseline = ei_baseline i, ar_patch = ei_patch i, ar_baseline_sha = rev_commit (ei_baseline_rev i),
                ar_dirty = rev_dirty (ei_patch_rev i), ar_service = evidenceClipService (ei_service i),
                ar_workload_digest = [], ar_artifact_digest = [], ar_workload = requests (ei_workload i),
                ar_impact = summarizeImpact (ei_impact i), ar_coverage = None, ar_plan = ei_plan i, ar_result = ei_result i,
                ar_validated = False, ar_blockers = []\<rparr>;
          a1 = a0\<lparr>ar_coverage := coverageOf (ei_impact i) (ar_workload a0) (ei_result i)\<rparr>;
          d = Decision E a1;
          a2 = a1\<lparr>ar_validated := dn_validated d, ar_blockers := dn_blockers d\<rparr>;
          a3 = a2\<lparr>ar_workload_digest := digestWorkload E (ar_workload a2)\<rparr>
      in a3\<lparr>ar_artifact_digest := digestArtifact E a3\<rparr>)"

section \<open>Reading and writing\<close>

definition overallError :: "string \<Rightarrow> error option" where
  "overallError overall =
     (let o1 = to_lower (trim_space overall)
      in if o1 \<in> {''match'', ''differ'', ''incomplete''} then None
         else if o1 \<in> {''pass'', ''validated'', ''ok'', ''fail'', ''failed'', ''success''}
         then Some (Errorf ''evidence: overall is not a legal verdict'')
         else if o1 = [] then Some (Errorf ''evidence: missing overall'')
         else Some (Errorf ''evidence: unknown overall''))"

definition Verify :: "evidence_env \<Rightarrow> artifact \<Rightarrow> error option" where
  "Verify E a =
     (if ar_schema a \<noteq> SchemaV1 \<and> ar_schema a \<noteq> SchemaV2 \<and> ar_schema a \<noteq> SchemaV3
      then Some (Errorf ''evidence: unsupported schema'')
      else (case overallError (ev_overall (ar_result a)) of
              Some e \<Rightarrow> Some e
            | None \<Rightarrow>
                if (ar_schema a \<noteq> SchemaV1 \<or> ar_workload_digest a \<noteq> []) \<and> ar_workload_digest a \<noteq> digestWorkload E (ar_workload a)
                then Some (Errorf ''evidence: workload digest mismatch'')
                else if (ar_schema a \<noteq> SchemaV1 \<or> ar_artifact_digest a \<noteq> []) \<and> ar_artifact_digest a \<noteq> digestArtifact E a
                then Some (Errorf ''evidence: artifact digest mismatch'')
                else None))"

definition Check :: "evidence_env \<Rightarrow> artifact \<Rightarrow> error option" where
  "Check E a =
     (case Verify E a of
        Some e \<Rightarrow> Some e
      | None \<Rightarrow>
          if ar_schema a \<noteq> SchemaV3 then Some (Errorf ''evidence: writes require schema aquila.evidence.v3'')
          else (let d = Decision E a
                in if ar_validated a \<noteq> dn_validated d then Some (Errorf ''evidence: validated is unearned'')
                   else if ar_blockers a \<noteq> dn_blockers d then Some (Errorf ''evidence: blockers do not match decision'')
                   else None))"

definition Marshal :: "evidence_env \<Rightarrow> artifact \<Rightarrow> error + string" where
  "Marshal E a =
     (case Check E a of
        Some e \<Rightarrow> Inl e
      | None \<Rightarrow>
          (case ee_marshal_indent E a of
             None \<Rightarrow> Inl (Errorf ''evidence'')
           | Some raw \<Rightarrow>
               if length (raw @ [newline]) > evidenceMaxBytes then Inl (Errorf ''evidence: artifact too large'')
               else Inr (raw @ [newline])))"

text \<open>\<open>Decode\<close> of the bytes read from the limited reader; \<open>None\<close> is a read error.\<close>

definition DecodeEvidence :: "evidence_env \<Rightarrow> string option \<Rightarrow> error + artifact" where
  "DecodeEvidence E input =
     (case input of
        None \<Rightarrow> Inl (Errorf ''evidence'')
      | Some full \<Rightarrow>
          (let raw = take (evidenceMaxBytes + 1) full
           in if raw = [] then Inl (Errorf ''evidence: empty artifact'')
              else if length raw > evidenceMaxBytes then Inl (Errorf ''evidence: artifact too large'')
              else (case ee_decode E raw of
                      None \<Rightarrow> Inl (Errorf ''evidence'')
                    | Some a \<Rightarrow>
                        (case (if ar_schema a = SchemaV3 then Check E a else Verify E a) of
                           Some e \<Rightarrow> Inl e
                         | None \<Rightarrow> Inr a))))"

definition EqualJSON :: "evidence_env \<Rightarrow> artifact \<Rightarrow> artifact \<Rightarrow> bool" where
  "EqualJSON E a b = (case (Marshal E a, Marshal E b) of (Inr ra, Inr rb) \<Rightarrow> ra = rb | _ \<Rightarrow> False)"

section \<open>Markdown\<close>

definition clipQuery :: "string \<Rightarrow> string" where
  "clipQuery p = (if CHR ''?'' \<in> set p then before CHR ''?'' p @ ''?'' @ [CHR 0xE2, CHR 0x80, CHR 0xA6] else p)"

definition formatDur :: "evidence_env \<Rightarrow> int64 \<Rightarrow> string" where
  "formatDur E ns = (if ns \<le>s 0 then ''-'' else ee_format_ms E ns @ ''ms'')"

definition summaryLine :: "evidence_env \<Rightarrow> summary \<Rightarrow> string" where
  "summaryLine E s =
     (if su_n s = 0 then ''n=0''
      else ''n='' @ itoa (su_n s) @ ''  median='' @ formatDur E (su_med s) @
           (if su_has_p95 s then ''  p95='' @ formatDur E (su_p95 s) else ''  p95=withheld''))"

definition latencyLine :: "evidence_env \<Rightarrow> step_latency \<Rightarrow> string" where
  "latencyLine E s = ''base '' @ summaryLine E (sl_baseline s) @ ''  patch '' @ summaryLine E (sl_patch s)"

definition nl :: "string \<Rightarrow> string" where
  "nl s = s @ [newline]"

definition headLines :: "evidence_env \<Rightarrow> artifact \<Rightarrow> string" where
  "headLines E a =
     (let d = Decision E a
      in nl ''# Aquila evidence'' @ nl [] @ nl (''schema: '' @ ar_schema a) @
         (if ar_recorded a \<noteq> 0 then nl (''recorded: '' @ ee_format_time E (ar_recorded a)) else []) @
         nl (''overall: '' @ ev_overall (ar_result a)) @
         (if rev_tree (ar_baseline_rev a) \<noteq> []
          then nl (''baseline tree: '' @ rev_tree (ar_baseline_rev a) @ '' source='' @ rev_source (ar_baseline_rev a)) else []) @
         (if rev_tree (ar_patch_rev a) \<noteq> []
          then nl (''patch tree: '' @ rev_tree (ar_patch_rev a) @ '' source='' @ rev_source (ar_patch_rev a)) else []) @
         concat (map (\<lambda>b. nl (''blocker: '' @ blocker_string b)) (dn_blockers d)) @
         nl (''validated: '' @ (if dn_validated d then ''true'' else ''false'') @ CoverageNote d) @
         (if ar_baseline_sha a \<noteq> [] then nl (''git: '' @ ar_baseline_sha a @ ''  '' @ (if ar_dirty a then ''dirty'' else ''clean'')) else []) @
         (if ar_workload_digest a \<noteq> [] then nl (''workload: '' @ ar_workload_digest a) else []) @
         (if ar_artifact_digest a \<noteq> [] then nl (''artifact: '' @ ar_artifact_digest a) else []))"

definition impactLines :: "artifact \<Rightarrow> string" where
  "impactLines a =
     (let i = ar_impact a; n = (\<lambda>k. itoa (int k))
      in nl [] @ nl ''## Gateways'' @ nl [] @ nl (''- baseline: '' @ ar_baseline a) @ nl (''- patch: '' @ ar_patch a) @ nl [] @
         nl ''## Impact'' @ nl [] @
         nl (''files='' @ n (im_files i) @ ''  direct='' @ n (im_direct i) @ ''  likely='' @ n (im_likely i) @
             ''  runtime='' @ n (im_runtime i) @ ''  unobserved='' @ n (im_unobserved i)) @
         (if im_direct_names i \<noteq> [] then nl (''direct: '' @ join '', '' (im_direct_names i)) else []) @
         (case ar_coverage a of
            None \<Rightarrow> []
          | Some c \<Rightarrow>
              nl [] @ nl ''## Coverage'' @ nl [] @
              nl (''impacted='' @ n (length (cv_impacted c)) @ ''  exercised='' @ n (length (cv_exercised c)) @
                  ''  missed='' @ n (length (cv_missed c))) @
              concat (map (\<lambda>r. nl (''- exercised '' @ RouteLabel c r)) (cv_exercised c)) @
              concat (map (\<lambda>r. nl (''- missed '' @ RouteLabel c r)) (cv_missed c))))"

definition requestLine :: "request \<Rightarrow> string" where
  "requestLine r =
     nl (''- '' @ rq_method r @ '' '' @ clipQuery (rq_path r) @
         (if rq_provenance r \<noteq> [] then ''  '' @ rq_provenance r else []) @
         (if rq_headers r \<noteq> [] then ''  headers='' @ join '','' (rq_headers r) else []))"

definition stepLines :: "evidence_env \<Rightarrow> step_result \<Rightarrow> string" where
  "stepLines E s =
     nl (''- '' @ sr_kind s @ ''  '' @ sr_verdict s @
         (if sr_notes s \<noteq> [] \<and> sr_verdict s \<noteq> ''skipped'' then ''  '' @ join '','' (sr_notes s) else [])) @
     (if sr_kind s = ''latency''
      then concat (map (\<lambda>l. nl (''  - '' @ sl_method l @ '' '' @ clipQuery (sl_path l) @ ''  '' @ latencyLine E l)) (sr_latency s))
      else [])"

definition Markdown :: "evidence_env \<Rightarrow> artifact \<Rightarrow> string" where
  "Markdown E a =
     headLines E a @ impactLines a @
     nl [] @ nl ''## Workload'' @ nl [] @
     (if ar_workload a = [] then nl ''(none)'' else concat (map requestLine (ar_workload a))) @
     nl [] @ nl ''## Steps'' @ nl [] @ concat (map (stepLines E) (ev_steps (ar_result a))) @
     (if ev_notes (ar_result a) \<noteq> [] then nl [] @ nl ''## Notes'' @ nl [] @ concat (map (\<lambda>n. nl (''- '' @ n)) (ev_notes (ar_result a))) else []) @
     (if dn_validated (Decision E a)
      then nl [] @ nl (''validated'' @ CoverageNote (Decision E a) @ ''. required experiments ran on a clean recorded revision. match is not a ship decision.'')
      else nl [] @ nl ''not validated. match is not a pass. this file is evidence, not a policy decision.'')"

section \<open>The coverage section agrees with the decision\<close>

lemma Covered_Cons: "Covered [route] (s # w) res = (Covered [route] [s] res \<or> Covered [route] w res)"
  by (simp add: Covered_def)

lemma Covered_matches: "Covered [route] [s] res \<Longrightarrow> RouteMatches route (st_method s) (st_path s)"
  by (simp add: Covered_def)

lemma routeOutcome_reached: "fst (routeOutcome refused res route work rejected) = Covered [route] (map step_of work) res"
proof (induction work arbitrary: rejected)
  case (Cons r work)
  have "Covered [route] [step_of r] res \<Longrightarrow> RouteMatches route (rq_method r) (rq_path r)"
    using Covered_matches [of route "step_of r" res] by (simp add: step_of_def)
  then show ?case using Cons.IH Covered_Cons [of route "step_of r" "map step_of work" res] by auto
qed (simp add: Covered_def)

lemma addRoute_fold:
  fixes refused res work routes c
  defines "r \<equiv> fold (addRoute refused res work) routes c"
  shows "cv_exercised r = cv_exercised c @ filter (\<lambda>x. Covered [x] (map step_of work) res) routes \<and>
    cv_missed r = cv_missed c @ filter (\<lambda>x. \<not> Covered [x] (map step_of work) res) routes \<and>
    set (cv_rejected r) \<subseteq> set (cv_rejected c) \<union> set (filter (\<lambda>x. \<not> Covered [x] (map step_of work) res) routes) \<and>
    cv_impacted r = cv_impacted c \<and> cv_attributions r = cv_attributions c"
  unfolding r_def
proof (induction routes arbitrary: c)
  case (Cons x routes)
  have reached: "fst (routeOutcome refused res x work False) = Covered [x] (map step_of work) res" by (rule routeOutcome_reached)
  obtain b where o: "routeOutcome refused res x work False = (Covered [x] (map step_of work) res, b)"
    using reached by (metis prod.collapse)
  show ?case
  proof (cases "Covered [x] (map step_of work) res")
    case True
    then show ?thesis using Cons.IH [of "addRoute refused res work x c"] by (auto simp: addRoute_def o)
  next
    case False
    then show ?thesis using Cons.IH [of "addRoute refused res work x c"] by (cases b) (auto simp: addRoute_def o)
  qed
qed simp

lemma coverageOf_spec:
  assumes "coverageOf rep work res = Some c"
  shows "cv_impacted c = RuntimeRoutes rep" and "cv_attributions c = attributionsOf rep"
    and "cv_exercised c = filter (\<lambda>r. Covered [r] (map step_of work) res) (RuntimeRoutes rep)"
    and "cv_missed c = filter (\<lambda>r. \<not> Covered [r] (map step_of work) res) (RuntimeRoutes rep)"
    and "set (cv_rejected c) \<subseteq> set (cv_missed c)"
  using assms addRoute_fold [of "refusedKeys res" res work "RuntimeRoutes rep"
      "\<lparr>cv_trace_counts = rp_trace_counts rep, cv_attributions = attributionsOf rep, cv_impacted = RuntimeRoutes rep,
        cv_exercised = [], cv_missed = [], cv_rejected = []\<rparr>"]
  by (auto simp: coverageOf_def Let_def split: if_splits)

section \<open>What building, writing and reading guarantee\<close>

lemma Decision_fields:
  "Decision E (a\<lparr>ar_validated := v, ar_blockers := bs\<rparr>) = Decision E a"
  "Decision E (a\<lparr>ar_workload_digest := x\<rparr>) = Decision E a"
  "Decision E (a\<lparr>ar_artifact_digest := y\<rparr>) = Decision E a"
  by (simp_all add: Decision_def decisionInput_def)

lemma BuildEvidence_shape:
  obtains a where "ar_schema a = SchemaV3" and "ar_artifact_digest a = []"
    and "ar_workload_digest a = digestWorkload E (ar_workload a)"
    and "ar_validated a = dn_validated (Decision E a)" and "ar_blockers a = dn_blockers (Decision E a)"
    and "ar_result a = ei_result i" and "ar_workload a = requests (ei_workload i)"
    and "im_changes (ar_impact a) = Classify (ei_impact i)"
    and "ar_coverage a = coverageOf (ei_impact i) (requests (ei_workload i)) (ei_result i)"
    and "BuildEvidence E i = a\<lparr>ar_artifact_digest := digestArtifact E a\<rparr>"
proof -
  let ?now = "if truncate_second (ei_now i) = 0 then truncate_second (ee_clock E) else truncate_second (ei_now i)"
  let ?a1 = "\<lparr>ar_baseline_rev = ei_baseline_rev i, ar_patch_rev = ei_patch_rev i, ar_schema = SchemaV3, ar_recorded = ?now,
      ar_baseline = ei_baseline i, ar_patch = ei_patch i, ar_baseline_sha = rev_commit (ei_baseline_rev i),
      ar_dirty = rev_dirty (ei_patch_rev i), ar_service = evidenceClipService (ei_service i),
      ar_workload_digest = [], ar_artifact_digest = [], ar_workload = requests (ei_workload i),
      ar_impact = summarizeImpact (ei_impact i),
      ar_coverage = coverageOf (ei_impact i) (requests (ei_workload i)) (ei_result i), ar_plan = ei_plan i,
      ar_result = ei_result i, ar_validated = False, ar_blockers = []\<rparr>"
  let ?a3 = "?a1\<lparr>ar_validated := dn_validated (Decision E ?a1), ar_blockers := dn_blockers (Decision E ?a1)\<rparr>
      \<lparr>ar_workload_digest := digestWorkload E (requests (ei_workload i))\<rparr>"
  have "Decision E ?a3 = Decision E ?a1" by (simp only: Decision_fields)
  then show thesis by (intro that [of ?a3]) (simp_all add: BuildEvidence_def Let_def summarizeImpact_def)
qed

lemma Check_BuildEvidence:
  assumes "overallError (ev_overall (ei_result i)) = None"
  shows "Check E (BuildEvidence E i) = None"
proof -
  obtain a where a: "ar_schema a = SchemaV3" "ar_artifact_digest a = []" "ar_workload_digest a = digestWorkload E (ar_workload a)"
    "ar_validated a = dn_validated (Decision E a)" "ar_blockers a = dn_blockers (Decision E a)" "ar_result a = ei_result i"
    and b: "BuildEvidence E i = a\<lparr>ar_artifact_digest := digestArtifact E a\<rparr>"
    by (rule BuildEvidence_shape [of E i]) blast
  have "digestArtifact E (a\<lparr>ar_artifact_digest := x\<rparr>) = digestArtifact E a" for x by (simp add: digestArtifact_def)
  then show ?thesis unfolding b using a assms by (simp add: Check_def Verify_def Decision_fields)
qed

text \<open>An environment that encodes one artifact, that of an experiment without requests.\<close>

definition demo_evidence_input :: evidence_input where
  "demo_evidence_input =
     (let rev = \<lparr>rev_commit = ''c'', rev_tree = ''t'', rev_path = [], rev_dirty = False, rev_source = ''built''\<rparr>
      in \<lparr>ei_baseline_rev = rev, ei_patch_rev = rev\<lparr>rev_tree := ''u''\<rparr>, ei_now = 5, ei_baseline = ''http://a:1'', ei_patch = ''http://b:2'',
          ei_service = ''cart'', ei_workload = [], ei_impact = empty_report,
          ei_plan = \<lparr>dg_steps = [], dg_notes = [], dg_module = [], dg_test_packages = [], dg_health_path = ''/healthz''\<rparr>,
          ei_result = \<lparr>ev_overall = ''incomplete'', ev_steps = [], ev_notes = []\<rparr>\<rparr>)"

definition demo_env :: "artifact option \<Rightarrow> evidence_env" where
  "demo_env a = \<lparr>ee_net = demo_net, ee_clock = 7000000000, ee_sha256 = (\<lambda>_. ''0123456789abcdef''), ee_marshal = (\<lambda>_. Some ''{}''),
     ee_marshal_indent = (\<lambda>b. if a = Some b then Some ''{}'' else None),
     ee_decode = (\<lambda>s. if s = ''{}'' @ [newline] then a else None), ee_format_time = (\<lambda>_. []), ee_format_ms = (\<lambda>_. [])\<rparr>"

definition demo_artifact :: artifact where
  "demo_artifact = BuildEvidence (demo_env None) demo_evidence_input"

lemma demo_artifact_eq: "BuildEvidence (demo_env (Some demo_artifact)) demo_evidence_input = demo_artifact"
proof -
  have env: "digestArtifact (demo_env x) = digestArtifact (demo_env None)" "digestWorkload (demo_env x) = digestWorkload (demo_env None)"
    "Decision (demo_env x) = Decision (demo_env None)" "ee_clock (demo_env x) = ee_clock (demo_env None)" for x
    by (auto simp: digestArtifact_def digestWorkload_def Decision_def demo_env_def fun_eq_iff)
  have "BuildEvidence (demo_env x) i = BuildEvidence (demo_env None) i" for x i
    unfolding BuildEvidence_def env [of x] by (rule refl)
  then show ?thesis unfolding demo_artifact_def by blast
qed



text \<open>
  C19: What is read is earned: an artifact of the current schema that reading accepts is marked validated exactly when
  the policy decides so from the recorded plan, results, changes and coverage, its blockers are the policy's blockers,
  and both digests match its content.
\<close>

theorem read_evidence_earned:
  assumes "DecodeEvidence E input = Inr a" and "ar_schema a = SchemaV3"
  shows "(ar_validated a \<longleftrightarrow> dn_validated (Decide (ee_net E) (decisionInput a))) \<and>
    ar_blockers a = dn_blockers (Decide (ee_net E) (decisionInput a)) \<and>
    ar_workload_digest a = digestWorkload E (ar_workload a) \<and> ar_artifact_digest a = digestArtifact E a \<and>
    to_lower (trim_space (ev_overall (ar_result a))) \<in> {''match'', ''differ'', ''incomplete''}"
proof -
  have "Check E a = None" using assms by (auto simp: DecodeEvidence_def Let_def split: option.splits if_splits)
  moreover have "ar_schema a \<noteq> SchemaV1" "ar_schema a \<noteq> SchemaV2" using assms(2) by (simp_all add: SchemaV1_def SchemaV2_def SchemaV3_def)
  ultimately show ?thesis
    by (auto simp: Check_def Verify_def overallError_def Decision_def Let_def split: option.splits if_splits)
qed

theorem read_evidence_earned_witness:
  "ar_validated demo_artifact \<longleftrightarrow> dn_validated (Decide demo_net (decisionInput demo_artifact))"
proof -
  let ?E = "demo_env (Some demo_artifact)"
  have v3: "ar_schema demo_artifact = SchemaV3" by code_simp
  have "Check ?E demo_artifact = None"
    using Check_BuildEvidence [of demo_evidence_input ?E] unfolding demo_artifact_eq by (simp add: demo_evidence_input_def Let_def overallError_def) code_simp
  then have "DecodeEvidence ?E (Some (''{}'' @ [newline])) = Inr demo_artifact"
    using v3 by (simp add: DecodeEvidence_def evidenceMaxBytes_def demo_env_def)
  from read_evidence_earned [OF this v3] show ?thesis by (simp add: demo_env_def)
qed

text \<open>
  C20: The coverage section of an artifact agrees with the decision: the impacted routes are split into those exercised
  and those missed, the missed ones are exactly the routes the policy reports as blockers, and a rejected route counts
  as missed.
\<close>

theorem coverage_agrees:
  "case ar_coverage (BuildEvidence E i) of
     None \<Rightarrow> RuntimeRoutes (ei_impact i) = []
   | Some c \<Rightarrow>
       cv_missed c = filter (\<lambda>r. r \<notin> set (cv_exercised c)) (RuntimeRoutes (ei_impact i)) \<and>
       set (cv_exercised c) \<union> set (cv_missed c) = set (RuntimeRoutes (ei_impact i)) \<and> set (cv_rejected c) \<subseteq> set (cv_missed c) \<and>
       coverageBlockers (decisionInput (BuildEvidence E i)) = sortedBlockers (map (mk_blocker ''route_missed'') (cv_missed c))"
proof -
  obtain a where a: "ar_result a = ei_result i" "ar_workload a = requests (ei_workload i)"
    "ar_coverage a = coverageOf (ei_impact i) (requests (ei_workload i)) (ei_result i)"
    and b: "BuildEvidence E i = a\<lparr>ar_artifact_digest := digestArtifact E a\<rparr>"
    by (rule BuildEvidence_shape [of E i]) blast
  show ?thesis
  proof (cases "ar_coverage a")
    case None
    then show ?thesis using a(3) by (auto simp: b coverageOf_def Let_def split: if_splits)
  next
    case (Some c)
    note spec = coverageOf_spec [OF Some [unfolded a(3)]]
    have "cv_missed c = filter (\<lambda>r. r \<notin> set (cv_exercised c)) (RuntimeRoutes (ei_impact i))"
      unfolding spec(3,4) by (auto intro!: filter_cong)
    moreover have "coverageBlockers (decisionInput (BuildEvidence E i)) = sortedBlockers (map (mk_blocker ''route_missed'') (cv_missed c))"
      by (simp add: b coverageBlockers_def decisionInput_def a Some [unfolded a(3)] spec)
    ultimately show ?thesis using spec(3-5) by (auto simp: b Some)
  qed
qed

text \<open>A validated artifact has no unanalyzed file and covers every impacted route.\<close>

lemma BuildEvidence_validated:
  assumes "ar_validated (BuildEvidence E i)"
  shows "ch_unanalyzed (Classify (ei_impact i)) = []"
    and "r \<in> set (RuntimeRoutes (ei_impact i)) \<Longrightarrow>
      \<exists>s \<in> set (ei_workload i). RouteMatches r (st_method s) (st_path s) \<and>
        st_method s @ '' '' @ st_path s \<in> set (answeredKeys (ei_result i))"
proof -
  obtain a where a: "ar_schema a = SchemaV3" "ar_validated a = dn_validated (Decision E a)" "ar_result a = ei_result i"
      "ar_workload a = requests (ei_workload i)" "im_changes (ar_impact a) = Classify (ei_impact i)"
      "ar_coverage a = coverageOf (ei_impact i) (requests (ei_workload i)) (ei_result i)"
    and b: "BuildEvidence E i = a\<lparr>ar_artifact_digest := digestArtifact E a\<rparr>"
    by (rule BuildEvidence_shape [of E i]) blast
  have "dn_validated (Decide (ee_net E) (decisionInput a))"
    using assms a(1,2) by (simp add: b Decision_def SchemaV1_def SchemaV2_def SchemaV3_def)
  then have no: "changeBlockers (decisionInput a) = []" "coverageBlockers (decisionInput a) = []"
    by (simp_all add: Decide_def Let_def)
  then show "ch_unanalyzed (Classify (ei_impact i)) = []" by (simp add: changeBlockers_Nil decisionInput_def a(5))
  assume r: "r \<in> set (RuntimeRoutes (ei_impact i))"
  then have "RuntimeRoutes (ei_impact i) \<noteq> []" by auto
  then obtain c where c: "coverageOf (ei_impact i) (requests (ei_workload i)) (ei_result i) = Some c"
    by (simp add: coverageOf_def Let_def)
  have "Covered [r] (map step_of (requests (ei_workload i))) (ei_result i)"
    using c no(2) r coverageOf_spec(1) [OF c] by (simp add: coverageBlockers_Nil decisionInput_def a list_all_iff)
  then show "\<exists>s \<in> set (ei_workload i). RouteMatches r (st_method s) (st_path s) \<and>
      st_method s @ '' '' @ st_path s \<in> set (answeredKeys (ei_result i))"
    by (auto simp: Covered_def list_ex_iff requests_def step_of_def)
qed

end
