(* ===== verification/Run_Store.thy ===== *)
theory Run_Store
  imports Evidence
begin

text \<open>
  The store of executed experiments, \<open>internal/runs\<close>: records and their identifiers (\<open>store.go\<close>), the in-memory store
  (\<open>memory.go\<close>) and the database store (\<open>postgres.go\<close>) with the constraints of its table (\<open>migrations/000003\<close> and
  \<open>000005\<close>). The JSONB column holds the artifact value; encoding it may fail. The locale \<open>run_store\<close> is the contract
  both stores meet; the last section relates them.
\<close>

datatype run_error =
    RunErrorf string
  | RunNotFound
  | RunEvidence error

text \<open>A record without artifact is one whose \<open>Artifact\<close> is the zero value.\<close>

record run_record =
  rr_id :: string
  rr_recorded :: time
  rr_service :: string
  rr_baseline_sha :: string
  rr_dirty :: bool
  rr_workload_digest :: string
  rr_artifact_digest :: string
  rr_overall :: string
  rr_blockers :: "blocker list"
  rr_validated :: bool
  rr_artifact :: "artifact option"

definition runIdLen :: nat where
  "runIdLen = 16"

definition runNormalizeID :: "string \<Rightarrow> string option" where
  "runNormalizeID raw =
     (let s = to_lower (trim_space raw)
      in if length s < runIdLen \<or> length s > 64 then None
         else if \<not> list_all is_hex s then None
         else Some (take runIdLen s))"

definition runClipLimit :: "int \<Rightarrow> nat" where
  "runClipLimit n = (if n \<le> 0 then 20 else if n > 50 then 50 else nat n)"

definition runClipService :: "string \<Rightarrow> string" where
  "runClipService s = take 128 (trim_space s)"

definition FromArtifact :: "evidence_env \<Rightarrow> artifact \<Rightarrow> run_error + run_record" where
  "FromArtifact E a =
     (case (if ar_schema a = SchemaV3 then Check E a else Verify E a) of
        Some e \<Rightarrow> Inl (RunEvidence e)
      | None \<Rightarrow>
          if ar_artifact_digest a = [] then Inl (RunErrorf ''runs: missing artifact digest'')
          else (case runNormalizeID (take runIdLen (ar_artifact_digest a)) of
                  None \<Rightarrow> Inl (RunErrorf ''runs: invalid artifact digest'')
                | Some i \<Rightarrow>
                    Inr \<lparr>rr_id = i, rr_recorded = ar_recorded a, rr_service = ar_service a, rr_baseline_sha = ar_baseline_sha a,
                         rr_dirty = ar_dirty a, rr_workload_digest = ar_workload_digest a,
                         rr_artifact_digest = ar_artifact_digest a, rr_overall = ev_overall (ar_result a),
                         rr_blockers = dn_blockers (Decision E a), rr_validated = dn_validated (Decision E a),
                         rr_artifact = Some a\<rparr>))"

definition prepareInsert :: "evidence_env \<Rightarrow> run_record \<Rightarrow> run_error + run_record" where
  "prepareInsert E rec =
     (case rr_artifact rec of
        None \<Rightarrow> Inl (RunErrorf ''runs: missing artifact'')
      | Some a \<Rightarrow>
          if ar_schema a = [] then Inl (RunErrorf ''runs: missing artifact'')
          else (case FromArtifact E a of
                  Inl e \<Rightarrow> Inl e
                | Inr built \<Rightarrow>
                    if rr_id rec \<noteq> [] \<and> rr_id rec \<noteq> rr_id built then Inl (RunErrorf ''runs: id does not match artifact'')
                    else Inr built))"

section \<open>The in-memory store\<close>

record run_memory =
  rm_by_id :: "string \<rightharpoonup> run_record"
  rm_order :: "string list"

definition NewRunMemory :: run_memory where
  "NewRunMemory = \<lparr>rm_by_id = Map.empty, rm_order = []\<rparr>"

definition runMemInsert :: "evidence_env \<Rightarrow> run_record \<Rightarrow> run_memory \<Rightarrow> (run_error + run_record) \<times> run_memory" where
  "runMemInsert E rec m =
     (case prepareInsert E rec of
        Inl e \<Rightarrow> (Inl e, m)
      | Inr p \<Rightarrow>
          (case rm_by_id m (rr_id p) of
             Some old \<Rightarrow>
               if rr_artifact_digest old \<noteq> rr_artifact_digest p then (Inl (RunErrorf ''runs: id collision''), m) else (Inr old, m)
           | None \<Rightarrow> (Inr p, \<lparr>rm_by_id = (rm_by_id m)(rr_id p \<mapsto> p), rm_order = rm_order m @ [rr_id p]\<rparr>)))"

definition runMemGet :: "string \<Rightarrow> run_memory \<Rightarrow> run_error + run_record" where
  "runMemGet i m =
     (case runNormalizeID i of
        None \<Rightarrow> Inl (RunErrorf ''runs: invalid id'')
      | Some j \<Rightarrow> (case rm_by_id m j of None \<Rightarrow> Inl RunNotFound | Some r \<Rightarrow> Inr r))"

definition run_summary :: "run_record \<Rightarrow> run_record" where
  "run_summary r = r\<lparr>rr_artifact := None\<rparr>"

definition runMemList :: "int \<Rightarrow> string \<Rightarrow> run_memory \<Rightarrow> run_record list" where
  "runMemList limit service m =
     (let want = runClipService service;
          out = filter (\<lambda>r. want = [] \<or> rr_service r = want) (List.map_filter (rm_by_id m) (rm_order m))
      in map run_summary (take (runClipLimit limit) (rev (sort_key (\<lambda>r. (rr_recorded r, rr_id r)) out))))"

section \<open>The database store\<close>

text \<open>A row of \<open>aquila.runs\<close>; \<open>timestamptz\<close> keeps microseconds.\<close>

record run_row =
  rw_id :: string
  rw_recorded :: time
  rw_baseline_sha :: string
  rw_dirty :: bool
  rw_workload_digest :: string
  rw_artifact_digest :: string
  rw_overall :: string
  rw_validated :: bool
  rw_artifact :: artifact

definition pg_time :: "time \<Rightarrow> time" where
  "pg_time t = t - t mod 1000"

definition row_legal :: "run_row \<Rightarrow> bool" where
  "row_legal w = (rw_overall w \<in> {''match'', ''differ'', ''incomplete''} \<and> (\<not> rw_validated w \<or> rw_overall w = ''match''))"

definition row_of :: "run_record \<Rightarrow> artifact \<Rightarrow> run_row" where
  "row_of p a =
     \<lparr>rw_id = rr_id p, rw_recorded = pg_time (rr_recorded p), rw_baseline_sha = rr_baseline_sha p, rw_dirty = rr_dirty p,
      rw_workload_digest = rr_workload_digest p, rw_artifact_digest = rr_artifact_digest p, rw_overall = rr_overall p,
      rw_validated = rr_validated p, rw_artifact = a\<rparr>"

definition find_row :: "string \<Rightarrow> run_row list \<Rightarrow> run_row option" where
  "find_row i rows = find (\<lambda>w. rw_id w = i) rows"

text \<open>The record scanned from a row; \<open>Get\<close> does not select the service.\<close>

definition scanned :: "evidence_env \<Rightarrow> run_row \<Rightarrow> run_record" where
  "scanned E w =
     \<lparr>rr_id = rw_id w, rr_recorded = rw_recorded w, rr_service = [], rr_baseline_sha = rw_baseline_sha w, rr_dirty = rw_dirty w,
      rr_workload_digest = rw_workload_digest w, rr_artifact_digest = rw_artifact_digest w, rr_overall = rw_overall w,
      rr_blockers = dn_blockers (Decision E (rw_artifact w)), rr_validated = dn_validated (Decision E (rw_artifact w)),
      rr_artifact = Some (rw_artifact w)\<rparr>"

definition runPgGet :: "evidence_env \<Rightarrow> string \<Rightarrow> run_row list \<Rightarrow> run_error + run_record" where
  "runPgGet E i rows =
     (case runNormalizeID i of
        None \<Rightarrow> Inl (RunErrorf ''runs: invalid id'')
      | Some j \<Rightarrow>
          (case find_row j rows of
             None \<Rightarrow> Inl RunNotFound
           | Some w \<Rightarrow> (case Verify E (rw_artifact w) of Some e \<Rightarrow> Inl (RunEvidence e) | None \<Rightarrow> Inr (scanned E w))))"

definition runPgInsert :: "evidence_env \<Rightarrow> run_record \<Rightarrow> run_row list \<Rightarrow> (run_error + run_record) \<times> run_row list" where
  "runPgInsert E rec rows =
     (case prepareInsert E rec of
        Inl e \<Rightarrow> (Inl e, rows)
      | Inr p \<Rightarrow>
          (case rr_artifact p of
             None \<Rightarrow> (Inl (RunErrorf ''runs''), rows)
           | Some a \<Rightarrow>
               if ee_marshal E a = None then (Inl (RunErrorf ''runs''), rows)
               else if \<not> row_legal (row_of p a) then (Inl (RunErrorf ''insert run''), rows)
               else if find_row (rr_id p) rows = None then (Inr p, rows @ [row_of p a])
               else (case runPgGet E (rr_id p) rows of
                       Inl e \<Rightarrow> (Inl e, rows)
                     | Inr existing \<Rightarrow>
                         if rr_artifact_digest existing \<noteq> rr_artifact_digest p then (Inl (RunErrorf ''runs: id collision''), rows)
                         else (Inr existing, rows))))"

text \<open>The rows that \<open>List\<close> selects, and the loop over them.\<close>

definition selected_rows :: "int \<Rightarrow> string \<Rightarrow> run_row list \<Rightarrow> run_row list" where
  "selected_rows limit service rows =
     (let want = runClipService service
      in take (runClipLimit limit)
           (rev (sort_key (\<lambda>w. (rw_recorded w, rw_id w)) (filter (\<lambda>w. want = [] \<or> ar_service (rw_artifact w) = want) rows))))"

fun scanRows :: "evidence_env \<Rightarrow> run_row list \<Rightarrow> run_error + run_record list" where
  "scanRows E [] = Inr []"
| "scanRows E (w # ws) =
     (case Verify E (rw_artifact w) of
        Some e \<Rightarrow> Inl (RunEvidence e)
      | None \<Rightarrow>
          (case scanRows E ws of
             Inl e \<Rightarrow> Inl e
           | Inr rs \<Rightarrow> Inr ((scanned E w)\<lparr>rr_service := ar_service (rw_artifact w), rr_artifact := None\<rparr> # rs)))"

definition runPgList :: "evidence_env \<Rightarrow> int \<Rightarrow> string \<Rightarrow> run_row list \<Rightarrow> run_error + run_record list" where
  "runPgList E limit service rows = scanRows E (selected_rows limit service rows)"


section \<open>The contract of a store\<close>

lemma runNormalizeID_idem:
  assumes "runNormalizeID raw = Some i"
  shows "runNormalizeID i = Some i"
proof -
  have i: "length i = 16" "list_all is_hex i"
    using assms by (auto simp: runNormalizeID_def Let_def runIdLen_def list_all_iff dest: in_set_takeD split: if_splits)
  show ?thesis using i trim_space_hex [OF i(2)] to_lower_hex [OF i(2)] by (simp add: runNormalizeID_def runIdLen_def)
qed

lemma FromArtifact_Inr:
  assumes "FromArtifact E a = Inr p"
  shows "Verify E a = None" and "rr_artifact p = Some a" and "runNormalizeID (rr_id p) = Some (rr_id p)"
    and "rr_validated p = dn_validated (Decision E a)" and "rr_blockers p = dn_blockers (Decision E a)"
    and "rr_service p = ar_service a" and "rr_overall p = ev_overall (ar_result a)" and "rr_recorded p = ar_recorded a"
proof -
  have "Verify E a = None" using assms by (auto simp: FromArtifact_def Check_def split: option.splits if_splits)
  moreover obtain i where "runNormalizeID (take runIdLen (ar_artifact_digest a)) = Some i"
    using assms by (cases "runNormalizeID (take runIdLen (ar_artifact_digest a))") (auto simp: FromArtifact_def split: option.splits if_splits)
  moreover note runNormalizeID_idem [OF this]
  ultimately show "Verify E a = None" and "rr_artifact p = Some a" and "runNormalizeID (rr_id p) = Some (rr_id p)"
    and "rr_validated p = dn_validated (Decision E a)" and "rr_blockers p = dn_blockers (Decision E a)"
    and "rr_service p = ar_service a" and "rr_overall p = ev_overall (ar_result a)" and "rr_recorded p = ar_recorded a"
    using assms by (cases "(if ar_schema a = SchemaV3 then Check E a else Verify E a)"; cases "ar_artifact_digest a = []"; auto simp: FromArtifact_def)+
qed

lemma prepareInsert_Inr:
  assumes "prepareInsert E rec = Inr p"
  obtains a where "rr_artifact rec = Some a" and "FromArtifact E a = Inr p"
  using assms by (auto simp: prepareInsert_def split: option.splits if_splits sum.splits)

text \<open>
  A store keeps what it holds: a failed insertion changes nothing, an insertion never changes or loses a record, a record
  returned by an insertion can be fetched, and every fetched record carries the decision of its own artifact.
\<close>

locale run_store =
  fixes insert :: "run_record \<Rightarrow> 's \<Rightarrow> (run_error + run_record) \<times> 's"
    and get :: "string \<Rightarrow> 's \<Rightarrow> run_error + run_record"
    and inv :: "'s \<Rightarrow> bool"
    and env :: evidence_env
  assumes insert_inv: "inv s \<Longrightarrow> inv (snd (insert r s))"
    and failed: "inv s \<Longrightarrow> fst (insert r s) = Inl e \<Longrightarrow> snd (insert r s) = s"
    and kept: "inv s \<Longrightarrow> get i s = Inr x \<Longrightarrow> get i (snd (insert r s)) = Inr x"
    and stored: "inv s \<Longrightarrow> fst (insert r s) = Inr x \<Longrightarrow>
      \<exists>y. get (rr_id x) (snd (insert r s)) = Inr y \<and> rr_artifact y = rr_artifact x \<and> rr_artifact_digest y = rr_artifact_digest x"
    and earned: "inv s \<Longrightarrow> get i s = Inr x \<Longrightarrow> \<exists>a. rr_artifact x = Some a \<and> Verify env a = None \<and>
      rr_validated x = dn_validated (Decision env a) \<and> rr_blockers x = dn_blockers (Decision env a)"
begin

definition inserts :: "run_record list \<Rightarrow> 's \<Rightarrow> 's" where
  "inserts rs s = fold (\<lambda>r s. snd (insert r s)) rs s"

lemma inserts_inv: "inv s \<Longrightarrow> inv (inserts rs s)"
  by (induction rs arbitrary: s) (auto simp: inserts_def insert_inv)

lemma inserts_kept: "inv s \<Longrightarrow> get i s = Inr x \<Longrightarrow> get i (inserts rs s) = Inr x"
  by (induction rs arbitrary: s) (auto simp: inserts_def insert_inv kept)

lemma durable:
  assumes "inv s" and "fst (insert r (inserts earlier s)) = Inr x"
  shows "\<exists>y. get (rr_id x) (inserts (earlier @ r # later) s) = Inr y \<and> rr_artifact y = rr_artifact x \<and>
    rr_artifact_digest y = rr_artifact_digest x"
proof -
  let ?s = "inserts earlier s"
  have ok: "inv ?s" by (rule inserts_inv [OF assms(1)])
  obtain y where y: "get (rr_id x) (snd (insert r ?s)) = Inr y" "rr_artifact y = rr_artifact x" "rr_artifact_digest y = rr_artifact_digest x"
    using stored [OF ok assms(2)] by blast
  have "inserts (earlier @ r # later) s = inserts later (snd (insert r ?s))" by (simp add: inserts_def)
  then show ?thesis using inserts_kept [OF insert_inv [OF ok] y(1)] y by auto
qed

end


text \<open>A record in memory stands under its own id and came from a checked artifact.\<close>

definition mem_wf :: "evidence_env \<Rightarrow> run_memory \<Rightarrow> bool" where
  "mem_wf E m =
     ((\<forall>i r. rm_by_id m i = Some r \<longrightarrow> rr_id r = i \<and> (\<exists>a. FromArtifact E a = Inr r)) \<and>
      set (rm_order m) = dom (rm_by_id m) \<and> distinct (rm_order m))"

lemma mem_wf_new: "mem_wf E NewRunMemory"
  by (simp add: mem_wf_def NewRunMemory_def)

lemma mem_wf_insert:
  assumes "mem_wf E m"
  shows "mem_wf E (snd (runMemInsert E r m))"
proof (cases "prepareInsert E r")
  case (Inr p)
  then obtain a where "FromArtifact E a = Inr p" by (rule prepareInsert_Inr)
  then show ?thesis using assms Inr by (auto simp: mem_wf_def runMemInsert_def split: option.splits)
qed (use assms in \<open>simp add: runMemInsert_def\<close>)

interpretation mem_runs: run_store "runMemInsert E" runMemGet "mem_wf E" E for E
proof
  fix s r assume "mem_wf E s"
  then show "mem_wf E (snd (runMemInsert E r s))" by (rule mem_wf_insert)
next
  fix r s e assume "fst (runMemInsert E r s) = Inl e"
  then show "snd (runMemInsert E r s) = s" by (auto simp: runMemInsert_def split: sum.splits option.splits if_splits)
next
  fix s i x r assume "runMemGet i s = Inr x"
  then show "runMemGet i (snd (runMemInsert E r s)) = Inr x"
    by (auto simp: runMemGet_def runMemInsert_def split: sum.splits option.splits if_splits)
next
  fix s r x assume wf: "mem_wf E s" and x: "fst (runMemInsert E r s) = Inr x"
  then obtain p where p: "prepareInsert E r = Inr p" by (cases "prepareInsert E r") (auto simp: runMemInsert_def)
  then obtain a where a: "FromArtifact E a = Inr p" by (rule prepareInsert_Inr)
  have "rm_by_id (snd (runMemInsert E r s)) (rr_id p) = Some x \<and> rr_id x = rr_id p"
    using wf x p by (auto simp: runMemInsert_def mem_wf_def split: option.splits if_splits)
  then show "\<exists>y. runMemGet (rr_id x) (snd (runMemInsert E r s)) = Inr y \<and> rr_artifact y = rr_artifact x \<and> rr_artifact_digest y = rr_artifact_digest x"
    using FromArtifact_Inr(3) [OF a] by (intro exI [of _ x]) (simp add: runMemGet_def)
next
  fix s i x assume wf: "mem_wf E s" and "runMemGet i s = Inr x"
  then obtain j where "rm_by_id s j = Some x" by (auto simp: runMemGet_def split: option.splits)
  then obtain a where "FromArtifact E a = Inr x" using wf unfolding mem_wf_def by blast
  from FromArtifact_Inr [OF this] show "\<exists>a. rr_artifact x = Some a \<and> Verify E a = None \<and>
      rr_validated x = dn_validated (Decision E a) \<and> rr_blockers x = dn_blockers (Decision E a)" by blast
qed

text \<open>A row was written from a checked artifact.\<close>

definition row_wf :: "evidence_env \<Rightarrow> run_row \<Rightarrow> bool" where
  "row_wf E w = (\<exists>a p. FromArtifact E a = Inr p \<and> w = row_of p a)"

definition rows_wf :: "evidence_env \<Rightarrow> run_row list \<Rightarrow> bool" where
  "rows_wf E rows = (list_all (row_wf E) rows \<and> distinct (map rw_id rows))"

lemma row_wf_fields:
  assumes "row_wf E w"
  shows "Verify E (rw_artifact w) = None" and "runNormalizeID (rw_id w) = Some (rw_id w)"
  using assms FromArtifact_Inr by (auto simp: row_wf_def row_of_def)

lemma find_row_Some: "find_row i rows = Some w \<Longrightarrow> w \<in> set rows \<and> rw_id w = i"
  unfolding find_row_def find_Some_iff by auto

lemma find_row_None: "find_row i rows = None \<longleftrightarrow> i \<notin> rw_id ` set rows"
  by (auto simp: find_row_def find_None_iff)

lemma find_row_append: "find_row i (rows @ [w]) = (case find_row i rows of Some v \<Rightarrow> Some v | None \<Rightarrow> if rw_id w = i then Some w else None)"
  by (induction rows) (auto simp: find_row_def)

lemma runPgGet_row:
  assumes "rows_wf E rows" and "runNormalizeID i = Some j" and "find_row j rows = Some w"
  shows "runPgGet E i rows = Inr (scanned E w)"
  using assms row_wf_fields(1) [of E w] find_row_Some [OF assms(3)] by (auto simp: runPgGet_def rows_wf_def list_all_iff)

lemma runPgInsert_cases:
  assumes "rows_wf E rows"
  obtains e where "runPgInsert E r rows = (Inl e, rows)"
  | a p where "FromArtifact E a = Inr p" and "find_row (rr_id p) rows = None" and "runPgInsert E r rows = (Inr p, rows @ [row_of p a])"
  | w where "w \<in> set rows" and "find_row (rw_id w) rows = Some w" and "runPgInsert E r rows = (Inr (scanned E w), rows)"
proof (cases "prepareInsert E r")
  case (Inl e)
  then show thesis by (intro that(1)) (simp add: runPgInsert_def)
next
  case (Inr p)
  then obtain a where a: "FromArtifact E a = Inr p" by (rule prepareInsert_Inr)
  note art = FromArtifact_Inr(2,3) [OF a]
  show thesis
  proof (cases "ee_marshal E a = None \<or> \<not> row_legal (row_of p a)")
    case True
    then have "\<exists>e. runPgInsert E r rows = (Inl e, rows)" using Inr art(1) by (auto simp: runPgInsert_def)
    then show thesis using that(1) by blast
  next
    case False
    show thesis
    proof (cases "find_row (rr_id p) rows")
      case None
      then have "runPgInsert E r rows = (Inr p, rows @ [row_of p a])" using Inr art(1) False by (simp add: runPgInsert_def)
      then show thesis by (rule that(2) [OF a None])
    next
      case (Some w)
      have w: "w \<in> set rows" "rw_id w = rr_id p" using find_row_Some [OF Some] by auto
      note get = runPgGet_row [OF assms art(2) Some]
      show thesis
      proof (cases "rr_artifact_digest (scanned E w) = rr_artifact_digest p")
        case True
        then have "runPgInsert E r rows = (Inr (scanned E w), rows)" using Inr art(1) False Some get by (simp add: runPgInsert_def)
        then show thesis using w Some by (intro that(3)) simp_all
      next
        case digest: False
        have "\<exists>e. runPgInsert E r rows = (Inl e, rows)" using Inr art(1) False Some get digest by (auto simp: runPgInsert_def)
        then show thesis using that(1) by blast
      qed
    qed
  qed
qed

interpretation pg_runs: run_store "runPgInsert E" "runPgGet E" "rows_wf E" E for E
proof
  fix rows r assume wf: "rows_wf E rows"
  show "rows_wf E (snd (runPgInsert E r rows))"
  proof (cases rule: runPgInsert_cases [OF wf, of r])
    case (2 a p)
    then show ?thesis using wf by (auto simp: rows_wf_def row_wf_def find_row_None row_of_def)
  qed (use wf in simp_all)
next
  fix r rows e assume wf: "rows_wf E rows" and e: "fst (runPgInsert E r rows) = Inl e"
  show "snd (runPgInsert E r rows) = rows" by (cases rule: runPgInsert_cases [OF wf, of r]) (use e in simp_all)
next
  fix rows i x r assume wf: "rows_wf E rows" and x: "runPgGet E i rows = Inr x"
  show "runPgGet E i (snd (runPgInsert E r rows)) = Inr x"
  proof (cases rule: runPgInsert_cases [OF wf, of r])
    case (2 a p)
    then show ?thesis using x by (auto simp: runPgGet_def find_row_append split: option.splits)
  qed (use x in simp_all)
next
  fix rows r x assume wf: "rows_wf E rows" and x: "fst (runPgInsert E r rows) = Inr x"
  show "\<exists>y. runPgGet E (rr_id x) (snd (runPgInsert E r rows)) = Inr y \<and> rr_artifact y = rr_artifact x \<and> rr_artifact_digest y = rr_artifact_digest x"
  proof (cases rule: runPgInsert_cases [OF wf, of r])
    case (2 a p)
    then have "find_row (rr_id p) (rows @ [row_of p a]) = Some (row_of p a)" by (simp add: find_row_append row_of_def)
    then show ?thesis using 2 x FromArtifact_Inr [OF 2(1)] by (simp add: runPgGet_def scanned_def row_of_def)
  next
    case (3 w)
    then have "runPgGet E (rw_id w) rows = Inr (scanned E w)"
      using wf row_wf_fields(2) [of E w] by (intro runPgGet_row) (auto simp: rows_wf_def list_all_iff)
    then show ?thesis using 3 x by (auto simp: scanned_def)
  qed (use x in simp)
next
  fix rows i x assume "rows_wf E rows" "runPgGet E i rows = Inr x"
  then show "\<exists>a. rr_artifact x = Some a \<and> Verify E a = None \<and>
      rr_validated x = dn_validated (Decision E a) \<and> rr_blockers x = dn_blockers (Decision E a)"
    by (auto simp: runPgGet_def scanned_def split: option.splits)
qed


section \<open>The stores agree\<close>

text \<open>The records of the in-memory store in insertion order, and the rows they correspond to.\<close>

definition stored_runs :: "run_memory \<Rightarrow> run_record list" where
  "stored_runs m = List.map_filter (rm_by_id m) (rm_order m)"

definition run_row_of :: "run_record \<Rightarrow> run_row" where
  "run_row_of r = row_of r (the (rr_artifact r))"

text \<open>An experiment whose artifact encodes, with a verdict in canonical form and a time in whole microseconds.\<close>

definition plain_run :: "evidence_env \<Rightarrow> run_record \<Rightarrow> bool" where
  "plain_run E r =
     (case rr_artifact r of
        None \<Rightarrow> True
      | Some a \<Rightarrow> ee_marshal E a \<noteq> None \<and> ev_overall (ar_result a) \<in> {''match'', ''differ'', ''incomplete''} \<and> ar_recorded a mod 1000 = 0)"

definition same_runs :: "evidence_env \<Rightarrow> run_memory \<Rightarrow> run_row list \<Rightarrow> bool" where
  "same_runs E m rows = (mem_wf E m \<and> rows = map run_row_of (stored_runs m) \<and> list_all (plain_run E) (stored_runs m))"

lemma stored_runs_lookup:
  assumes "mem_wf E m"
  shows "find (\<lambda>r. rr_id r = i) (stored_runs m) = rm_by_id m i"
proof -
  have id: "rr_id r = j" if "rm_by_id m j = Some r" for j r using assms that by (simp add: mem_wf_def)
  have "find (\<lambda>r. rr_id r = i) (List.map_filter (rm_by_id m) js) = (if i \<in> set js then rm_by_id m i else None)"
    if "set js \<subseteq> dom (rm_by_id m)" for js
    using that id by (induction js) (auto simp: List.map_filter_simps split: option.splits)
  moreover have "set (rm_order m) = dom (rm_by_id m)" using assms by (simp add: mem_wf_def)
  ultimately show ?thesis by (auto simp: stored_runs_def)
qed

lemma stored_runs_FromArtifact:
  assumes "mem_wf E m" and "r \<in> set (stored_runs m)"
  obtains a where "FromArtifact E a = Inr r" and "rr_artifact r = Some a"
proof -
  obtain j where "rm_by_id m j = Some r" using assms(2) by (auto simp: stored_runs_def set_map_filter)
  then obtain a where "FromArtifact E a = Inr r" using assms(1) unfolding mem_wf_def by blast
  then show thesis using that FromArtifact_Inr(2) by blast
qed

lemma find_row_map: "find_row i (map run_row_of rs) = map_option run_row_of (find (\<lambda>r. rr_id r = i) rs)"
  by (induction rs) (auto simp: find_row_def run_row_of_def row_of_def)

lemma legal_row:
  assumes "FromArtifact E a = Inr p" and "plain_run E p"
  shows "row_legal (row_of p a)"
proof -
  note art = FromArtifact_Inr [OF assms(1)]
  have o: "rr_overall p \<in> {''match'', ''differ'', ''incomplete''}" using assms(2) art by (simp add: plain_run_def)
  have "to_lower (trim_space (rr_overall p)) = ''match''" if "rr_validated p"
    using that art by (auto simp: Decision_def Decide_def Legacy_def Let_def decisionInput_def split: if_splits)
  moreover have "to_lower (trim_space ''differ'') = ''differ''" "to_lower (trim_space ''incomplete'') = ''incomplete''" by code_simp+
  ultimately show ?thesis using o by (auto simp: row_legal_def row_of_def)
qed

lemma scanned_row:
  assumes "FromArtifact E a = Inr r" and "plain_run E r"
  shows "scanned E (run_row_of r) = r\<lparr>rr_service := []\<rparr>" and "rw_recorded (run_row_of r) = rr_recorded r"
    and "ar_service (rw_artifact (run_row_of r)) = rr_service r" and "Verify E (rw_artifact (run_row_of r)) = None" and "rw_id (run_row_of r) = rr_id r"
  using FromArtifact_Inr [OF assms(1)] assms(2)
  by (simp_all add: scanned_def run_row_of_def row_of_def plain_run_def pg_time_def)

lemma plain_prepared:
  assumes "prepareInsert E r = Inr p" and "plain_run E r"
  obtains a where "FromArtifact E a = Inr p" and "rr_artifact p = Some a" and "plain_run E p" and "ee_marshal E a \<noteq> None"
proof -
  obtain a where a: "rr_artifact r = Some a" "FromArtifact E a = Inr p" using assms(1) by (rule prepareInsert_Inr)
  then show thesis using that [of a] assms(2) FromArtifact_Inr(2) [OF a(2)] by (simp add: plain_run_def)
qed

lemma same_runs_insert:
  assumes "same_runs E m rows" and "plain_run E r"
  shows "same_runs E (snd (runMemInsert E r m)) (snd (runPgInsert E r rows))"
proof (cases "prepareInsert E r")
  case (Inl e)
  then show ?thesis using assms(1) by (simp add: runMemInsert_def runPgInsert_def)
next
  case (Inr p)
  obtain a where a: "FromArtifact E a = Inr p" "rr_artifact p = Some a" "plain_run E p" "ee_marshal E a \<noteq> None"
    using plain_prepared [OF Inr assms(2)] .
  have wf: "mem_wf E m" and rows: "rows = map run_row_of (stored_runs m)" using assms(1) by (simp_all add: same_runs_def)
  have find: "find_row (rr_id p) rows = map_option run_row_of (rm_by_id m (rr_id p))"
    unfolding rows find_row_map stored_runs_lookup [OF wf] ..
  have wf': "mem_wf E (snd (runMemInsert E r m))" by (rule mem_wf_insert [OF wf])
  show ?thesis
  proof (cases "rm_by_id m (rr_id p)")
    case None
    have new: "snd (runMemInsert E r m) = \<lparr>rm_by_id = (rm_by_id m)(rr_id p \<mapsto> p), rm_order = rm_order m @ [rr_id p]\<rparr>"
      using Inr None by (simp add: runMemInsert_def)
    have "rr_id p \<notin> set (rm_order m)" using wf None by (auto simp: mem_wf_def)
    then have "List.map_filter ((rm_by_id m)(rr_id p \<mapsto> p)) (rm_order m) = stored_runs m"
      unfolding stored_runs_def List.map_filter_def by (auto intro!: map_cong filter_cong)
    then have "stored_runs (snd (runMemInsert E r m)) = stored_runs m @ [p]"
      by (simp add: new stored_runs_def map_filter_snoc)
    moreover have "snd (runPgInsert E r rows) = rows @ [row_of p a]"
      using Inr a find None legal_row [OF a(1,3)] by (simp add: runPgInsert_def)
    ultimately show ?thesis using assms(1) wf' a by (simp add: same_runs_def run_row_of_def)
  next
    case (Some old)
    have "snd (runMemInsert E r m) = m" using Inr Some by (simp add: runMemInsert_def)
    moreover have "snd (runPgInsert E r rows) = rows"
      using Inr a find Some legal_row [OF a(1,3)] by (simp add: runPgInsert_def split: sum.splits)
    ultimately show ?thesis using assms(1) by simp
  qed
qed

lemma same_runs_fold:
  assumes "list_all (plain_run E) rs" and "same_runs E m rows"
  shows "same_runs E (fold (\<lambda>r s. snd (runMemInsert E r s)) rs m) (fold (\<lambda>r s. snd (runPgInsert E r s)) rs rows)"
  using assms by (induction rs arbitrary: m rows) (simp_all add: same_runs_insert)

lemma insort_key_map: "insort_key f (g x) (map g xs) = map g (insort_key (\<lambda>y. f (g y)) x xs)"
  by (induction xs) auto

lemma sort_key_map: "sort_key f (map g xs) = map g (sort_key (\<lambda>y. f (g y)) xs)"
  by (induction xs) (simp_all add: insort_key_map)

lemma insort_key_cong: "(\<And>y. y \<in> insert x (set ys) \<Longrightarrow> f y = g y) \<Longrightarrow> insort_key f x ys = insort_key g x ys"
  by (induction ys) auto

lemma sort_key_cong: "(\<And>x. x \<in> set xs \<Longrightarrow> f x = g x) \<Longrightarrow> sort_key f xs = sort_key g xs"
proof (induction xs)
  case (Cons x xs)
  then show ?case using insort_key_cong [of x "sort_key g xs" f g] by simp
qed simp

lemma same_runs_get:
  assumes "same_runs E m rows"
  shows "runPgGet E i rows = (case runMemGet i m of Inl e \<Rightarrow> Inl e | Inr r \<Rightarrow> Inr (r\<lparr>rr_service := []\<rparr>))"
proof (cases "runNormalizeID i")
  case (Some j)
  have wf: "mem_wf E m" and rows: "rows = map run_row_of (stored_runs m)" and ok: "list_all (plain_run E) (stored_runs m)"
    using assms by (simp_all add: same_runs_def)
  have find: "find_row j rows = map_option run_row_of (rm_by_id m j)" unfolding rows find_row_map stored_runs_lookup [OF wf] ..
  show ?thesis
  proof (cases "rm_by_id m j")
    case None
    then show ?thesis using Some find by (simp add: runPgGet_def runMemGet_def)
  next
    case r: (Some r)
    then have m: "r \<in> set (stored_runs m)" using stored_runs_lookup [OF wf, of j] by (auto simp: find_Some_iff)
    obtain a where a: "FromArtifact E a = Inr r" using stored_runs_FromArtifact [OF wf m] by blast
    have p: "plain_run E r" using ok m by (simp add: list_all_iff)
    show ?thesis using Some find r scanned_row [OF a p] by (simp add: runPgGet_def runMemGet_def)
  qed
qed (simp add: runPgGet_def runMemGet_def)

lemma same_runs_list:
  assumes "same_runs E m rows"
  shows "runPgList E limit service rows = Inr (runMemList limit service m)"
proof -
  have wf: "mem_wf E m" and rows: "rows = map run_row_of (stored_runs m)" and ok: "list_all (plain_run E) (stored_runs m)"
    using assms by (simp_all add: same_runs_def)
  let ?P = "\<lambda>s. runClipService service = [] \<or> s = runClipService service"
  define xs where "xs = filter (\<lambda>r. ?P (rr_service r)) (stored_runs m)"
  have row: "scanned E (run_row_of r) = r\<lparr>rr_service := []\<rparr>" "rw_recorded (run_row_of r) = rr_recorded r"
    "ar_service (rw_artifact (run_row_of r)) = rr_service r" "Verify E (rw_artifact (run_row_of r)) = None" "rw_id (run_row_of r) = rr_id r"
    if r: "r \<in> set (stored_runs m)" for r
  proof -
    obtain a where "FromArtifact E a = Inr r" using stored_runs_FromArtifact [OF wf r] by blast
    then show "scanned E (run_row_of r) = r\<lparr>rr_service := []\<rparr>" "rw_recorded (run_row_of r) = rr_recorded r"
      "ar_service (rw_artifact (run_row_of r)) = rr_service r" "Verify E (rw_artifact (run_row_of r)) = None" "rw_id (run_row_of r) = rr_id r"
      using scanned_row ok r by (auto simp: list_all_iff)
  qed
  have "filter (\<lambda>w. ?P (ar_service (rw_artifact w))) rows = map run_row_of xs"
    unfolding rows xs_def filter_map comp_def by (rule arg_cong [where f = "map run_row_of"], rule filter_cong) (simp_all add: row(3))
  moreover have "sort_key (\<lambda>w. (rw_recorded w, rw_id w)) (map run_row_of xs) = map run_row_of (sort_key (\<lambda>r. (rr_recorded r, rr_id r)) xs)"
    unfolding sort_key_map using row(2,5) by (intro arg_cong [where f = "map run_row_of"] sort_key_cong) (auto simp: xs_def)
  ultimately have sel: "selected_rows limit service rows = map run_row_of (take (runClipLimit limit) (rev (sort_key (\<lambda>r. (rr_recorded r, rr_id r)) xs)))"
    by (simp add: selected_rows_def rev_map take_map)
  have scan: "scanRows E (map run_row_of ys) = Inr (map run_summary ys)" if "set ys \<subseteq> set (stored_runs m)" for ys
    using that by (induction ys) (simp_all add: row run_summary_def)
  have sub: "set (take (runClipLimit limit) (rev (sort_key (\<lambda>r. (rr_recorded r, rr_id r)) xs))) \<subseteq> set (stored_runs m)"
    by (auto simp: xs_def dest!: in_set_takeD)
  show ?thesis unfolding runPgList_def sel scan [OF sub] by (simp add: runMemList_def Let_def xs_def stored_runs_def)
qed



text \<open>An experiment of the demonstration environment.\<close>

definition demo_run_record :: run_record where
  "demo_run_record = \<lparr>rr_id = [], rr_recorded = 0, rr_service = [], rr_baseline_sha = [], rr_dirty = False, rr_workload_digest = [],
     rr_artifact_digest = [], rr_overall = [], rr_blockers = [], rr_validated = False, rr_artifact = Some demo_artifact\<rparr>"




end
