(* ===== verification/Impact_Laws.thy ===== *)
theory Impact_Laws
  imports Impact
begin

text \<open>
  What a report of \<open>Impact\<close> shows of a diff: the changed lines of a file that is classified as analyzed, the callers
  of the changed functions, and the routes that reach either of them.
\<close>

section \<open>Capped lists\<close>

text \<open>Appending findings one by one under the cap keeps the first five hundred.\<close>

lemma appendFinding_take: "appendFinding (take maxFindings xs) f = take maxFindings (xs @ [f])"
  by (simp add: appendFinding_def)

lemma fold_appendFinding: "fold (\<lambda>f dst. appendFinding dst f) fs (take maxFindings xs) = take maxFindings (xs @ fs)"
proof (induction fs arbitrary: xs)
  case (Cons f fs)
  then show ?case using Cons.IH [of "xs @ [f]"] by (simp add: appendFinding_take)
qed simp

lemma set_add_new [simp]: "set (add_new x xs) = insert x (set xs)"
  by (auto simp: add_new_def)

lemma set_fold_add_new [simp]: "set (fold add_new xs ys) = set xs \<union> set ys"
  by (induction xs arbitrary: ys) auto

lemma set_sortFindings [simp]: "set (sortFindings fs) = set fs"
  by (simp add: sortFindings_def)

lemma length_sortFindings [simp]: "length (sortFindings fs) = length fs"
  by (simp add: sortFindings_def)

section \<open>The functions of a file\<close>

lemma ix_funcs_add:
  "f \<noteq> [] \<Longrightarrow> ix_funcs (ix_add n idx) f = ix_funcs idx f @ (if nd_kind n = ''function'' \<and> nd_file n = f then [n] else [])"
  by (simp add: ix_add_def)

lemma set_ix_funcs:
  assumes "f \<noteq> []"
  shows "set (ix_funcs (impact_index g) f) = {n \<in> set (sg_nodes g). nd_kind n = ''function'' \<and> nd_file n = f}"
proof -
  have "ix_funcs (fold ix_add ns idx) f = ix_funcs idx f @ filter (\<lambda>n. nd_kind n = ''function'' \<and> nd_file n = f) ns" for ns idx
    by (induction ns arbitrary: idx) (simp_all add: ix_funcs_add [OF assms])
  then show ?thesis by (simp add: impact_index_def Let_def sg_snapshot_def)
qed

lemma ix_files_nonempty: "ix_files (impact_index g) [] = None"
proof -
  have "ix_files idx [] = None \<Longrightarrow> ix_files (fold ix_add ns idx) [] = None" for ns idx
    by (induction ns arbitrary: idx) (auto simp: ix_add_def)
  then show ?thesis by (simp add: impact_index_def Let_def)
qed

lemma fst_func_spans: "map fst (func_spans fns) = fns"
  by (induction fns) auto

lemma func_spans_end:
  assumes "(n, stop) \<in> set (func_spans fns)" and "nd_line n \<le> nd_end_line n" and "0 < nd_end_line n"
  shows "stop = inc64 (nd_end_line n)"
  using assms by (induction fns) auto

text \<open>What the loop over the changed lines finds.\<close>

lemma overlapLine_fold:
  fixes spans lines r0
  defines "r \<equiv> fold (overlapLine spans) lines r0"
  assumes "set (ol_seen r0) = nd_id ` fst ` set (ol_hits r0)"
  shows "(ol_outside r \<longleftrightarrow> ol_outside r0 \<or> (\<exists>ln \<in> set lines. find (span_covers ln) spans = None)) \<and>
    nd_id ` fst ` set (ol_hits r) =
      nd_id ` fst ` set (ol_hits r0) \<union> {nd_id n |n stop ln. ln \<in> set lines \<and> find (span_covers ln) spans = Some (n, stop)} \<and>
    fst ` set (ol_hits r) \<subseteq> fst ` set (ol_hits r0) \<union> fst ` set spans"
  using assms(2) unfolding r_def
proof (induction lines arbitrary: r0)
  case (Cons ln lines)
  show ?case
  proof (cases "find (span_covers ln) spans")
    case None
    then show ?thesis using Cons.IH [of "overlapLine spans ln r0"] Cons.prems by (auto simp: overlapLine_def)
  next
    case (Some p)
    obtain n stop where p: "p = (n, stop)" by (cases p)
    have "(n, stop) \<in> set spans" using Some p by (auto simp: find_Some_iff)
    then have mem: "n \<in> fst ` set spans" by force
    have step: "overlapLine spans ln r0 = (if nd_id n \<in> nd_id ` fst ` set (ol_hits r0) then r0
        else r0\<lparr>ol_seen := nd_id n # ol_seen r0, ol_hits := ol_hits r0 @ [(n, ln)]\<rparr>)"
      using Some p Cons.prems by (simp add: overlapLine_def)
    have ok: "set (ol_seen (overlapLine spans ln r0)) = nd_id ` fst ` set (ol_hits (overlapLine spans ln r0))"
      using Cons.prems by (simp add: step)
    have hits: "nd_id ` fst ` set (ol_hits (overlapLine spans ln r0)) = insert (nd_id n) (nd_id ` fst ` set (ol_hits r0))"
      "fst ` set (ol_hits (overlapLine spans ln r0)) \<subseteq> fst ` set (ol_hits r0) \<union> fst ` set spans"
      "ol_outside (overlapLine spans ln r0) = ol_outside r0"
      using mem by (auto simp: step)
    note IH = Cons.IH [OF ok, unfolded hits(1,3)]
    show ?thesis
    proof (intro conjI)
      show "fst ` set (ol_hits (fold (overlapLine spans) (ln # lines) r0)) \<subseteq> fst ` set (ol_hits r0) \<union> fst ` set spans"
        unfolding fold_simps by (rule order_trans [OF conjunct2 [OF conjunct2 [OF IH]]]) (simp add: hits(2))
      show "ol_outside (fold (overlapLine spans) (ln # lines) r0) \<longleftrightarrow>
          ol_outside r0 \<or> (\<exists>ln \<in> set (ln # lines). find (span_covers ln) spans = None)"
        using IH Some by simp
      have "{nd_id n |n stop l. l \<in> set (ln # lines) \<and> find (span_covers l) spans = Some (n, stop)} =
          insert (nd_id n) {nd_id n |n stop l. l \<in> set lines \<and> find (span_covers l) spans = Some (n, stop)}"
        using Some p by auto
      then show "nd_id ` fst ` set (ol_hits (fold (overlapLine spans) (ln # lines) r0)) = nd_id ` fst ` set (ol_hits r0) \<union>
          {nd_id n |n stop l. l \<in> set (ln # lines) \<and> find (span_covers l) spans = Some (n, stop)}"
        using IH unfolding fold_simps by simp
    qed
  qed
qed simp


lemma overlappingFuncs_spec:
  assumes "overlappingFuncs fns lines = (hits, outside)"
  shows "outside \<longleftrightarrow> (\<exists>ln \<in> set lines. find (span_covers ln) (func_spans fns) = None)"
    and "nd_id ` fst ` set hits = {nd_id n |n stop ln. ln \<in> set lines \<and> find (span_covers ln) (func_spans fns) = Some (n, stop)}"
    and "fst ` set hits \<subseteq> set fns"
proof -
  have fns: "fst ` set (func_spans fns) = set fns" using fst_func_spans [of fns] by (metis set_map)
  show "outside \<longleftrightarrow> (\<exists>ln \<in> set lines. find (span_covers ln) (func_spans fns) = None)"
    and "nd_id ` fst ` set hits = {nd_id n |n stop ln. ln \<in> set lines \<and> find (span_covers ln) (func_spans fns) = Some (n, stop)}"
    and "fst ` set hits \<subseteq> set fns"
    using assms overlapLine_fold [of "\<lparr>ol_seen = [], ol_hits = [], ol_outside = False\<rparr>" "func_spans fns" lines] fns
    by (cases lines; cases fns; auto simp: overlappingFuncs_def Let_def)+
qed

text \<open>A line that a function span covers lies in that function.\<close>

definition function_at :: "sgraph \<Rightarrow> string \<Rightarrow> int \<Rightarrow> node \<Rightarrow> bool" where
  "function_at g path ln n =
     (n \<in> set (sg_nodes g) \<and> nd_kind n = ''function'' \<and> nd_file n = path \<and> nd_line n \<le> ln \<and>
      (nd_line n \<le> nd_end_line n \<and> 0 < nd_end_line n \<longrightarrow> ln \<le> nd_end_line n))"

lemma span_covers_function_at:
  assumes "find (span_covers ln) (func_spans (ix_funcs (impact_index g) path)) = Some (n, stop)" and "path \<noteq> []"
  shows "function_at g path ln n"
proof -
  have c: "span_covers ln (n, stop)" and m: "(n, stop) \<in> set (func_spans (ix_funcs (impact_index g) path))"
    using assms(1) by (auto simp: find_Some_iff)
  have "n \<in> set (ix_funcs (impact_index g) path)"
    using m fst_func_spans [of "ix_funcs (impact_index g) path"] by (metis fst_conv image_eqI set_map)
  moreover have "ln \<le> nd_end_line n" if "nd_line n \<le> nd_end_line n" "0 < nd_end_line n"
    using c func_spans_end [OF m that] that by (auto simp: span_covers_def inc64_def split: if_splits)
  ultimately show ?thesis using c set_ix_funcs [OF assms(2)] by (auto simp: function_at_def span_covers_def)
qed

section \<open>Direct findings\<close>

text \<open>The findings of one file, without the cap.\<close>

definition fileDirect :: "src_index \<Rightarrow> diff_file \<Rightarrow> finding list" where
  "fileDirect idx f =
     (case ix_files idx (df_path f) of
        None \<Rightarrow> []
      | Some n \<Rightarrow>
          if df_binary f then [fileFinding n (df_path f) ''binary'']
          else (case overlappingFuncs (ix_funcs idx (df_path f)) (df_lines f) of
                  (hits, outside) \<Rightarrow>
                    (if outside then [fileFinding n (df_path f) ''changed_outside_func''] else []) @
                    (if hits = [] then [fileFinding n (df_path f) ''changed_file''] else map hitFinding hits)))"

definition fileIds :: "src_index \<Rightarrow> diff_file \<Rightarrow> string list" where
  "fileIds idx f =
     (if ix_files idx (df_path f) = None \<or> df_binary f then []
      else map (nd_id \<circ> fst) (fst (overlappingFuncs (ix_funcs idx (df_path f)) (df_lines f))))"

lemma addHit_fold:
  assumes "ay_direct a = take maxFindings xs"
  shows "ay_direct (fold addHit hits a) = take maxFindings (xs @ map hitFinding hits) \<and>
    set (ay_ids (fold addHit hits a)) = set (ay_ids a) \<union> nd_id ` fst ` set hits \<and>
    ay_files (fold addHit hits a) = ay_files a"
  using assms
proof (induction hits arbitrary: a xs)
  case (Cons h hits)
  have "ay_direct (addHit h a) = take maxFindings (xs @ [hitFinding h])"
    unfolding addHit_def addDirect_def by (simp add: Cons.prems appendFinding_take del: take_append)
  from Cons.IH [OF this] show ?case by (simp add: addHit_def addDirect_def insert_commute)
qed simp

lemma analyzeFile_spec:
  assumes "ay_direct a = take maxFindings xs"
  shows "ay_direct (analyzeFile idx f a) = take maxFindings (xs @ fileDirect idx f) \<and>
    set (ay_ids (analyzeFile idx f a)) = set (ay_ids a) \<union> set (fileIds idx f) \<and>
    set (ay_files (analyzeFile idx f a)) = insert (df_path f) (set (ay_files a))"
proof (cases "ix_files idx (df_path f)")
  case None
  then show ?thesis using assms by (simp add: analyzeFile_def fileDirect_def fileIds_def Let_def)
next
  case (Some n)
  let ?a = "a\<lparr>ay_files := add_new (df_path f) (ay_files a)\<rparr>"
  obtain hits outside where o: "overlappingFuncs (ix_funcs idx (df_path f)) (df_lines f) = (hits, outside)" by fastforce
  show ?thesis
  proof (cases "df_binary f")
    case True
    then show ?thesis using Some assms by (simp add: analyzeFile_def fileDirect_def fileIds_def Let_def addDirect_def appendFinding_take del: take_append)
  next
    case False
    define ys where "ys = xs @ (if outside then [fileFinding n (df_path f) ''changed_outside_func''] else [])"
    define a1 where "a1 = (if outside then addDirect (fileFinding n (df_path f) ''changed_outside_func'') ?a else ?a)"
    have a1: "ay_direct a1 = take maxFindings ys" "set (ay_ids a1) = set (ay_ids a)" "set (ay_files a1) = insert (df_path f) (set (ay_files a))"
      using assms by (simp_all add: a1_def ys_def addDirect_def appendFinding_take del: take_append)
    have "analyzeFile idx f a = (if hits = [] then addDirect (fileFinding n (df_path f) ''changed_file'') a1 else fold addHit hits a1)"
      using False Some o by (simp add: analyzeFile_def Let_def a1_def)
    moreover have "xs @ fileDirect idx f = ys @ (if hits = [] then [fileFinding n (df_path f) ''changed_file''] else map hitFinding hits)"
      using False Some o by (simp add: fileDirect_def ys_def)
    moreover have "set (fileIds idx f) = nd_id ` fst ` set hits"
      using False Some o by (simp add: fileIds_def image_comp)
    ultimately show ?thesis using addHit_fold [OF a1(1), of hits] a1
      by (simp add: addDirect_def appendFinding_take del: take_append)
  qed
qed

lemma analyzeFiles_spec:
  "ay_direct (analyzeFiles idx d) = take maxFindings (concat (map (fileDirect idx) d)) \<and>
   set (ay_ids (analyzeFiles idx d)) = (\<Union>f \<in> set d. set (fileIds idx f)) \<and>
   set (ay_files (analyzeFiles idx d)) = df_path ` set d"
proof -
  have "ay_direct (fold (analyzeFile idx) d a) = take maxFindings (xs @ concat (map (fileDirect idx) d)) \<and>
      set (ay_ids (fold (analyzeFile idx) d a)) = set (ay_ids a) \<union> (\<Union>f \<in> set d. set (fileIds idx f)) \<and>
      set (ay_files (fold (analyzeFile idx) d a)) = set (ay_files a) \<union> df_path ` set d"
    if "ay_direct a = take maxFindings xs" for a xs
    using that
  proof (induction d arbitrary: a xs)
    case (Cons f d)
    note step = analyzeFile_spec [OF Cons.prems, of idx f]
    show ?case using Cons.IH [OF conjunct1 [OF step]] step by (simp add: Un_assoc)
  qed simp
  from this [of "\<lparr>ay_files = [], ay_direct = [], ay_unobserved = [], ay_ids = []\<rparr>" "[]"]
  show ?thesis by (simp add: analyzeFiles_def)
qed

lemma rp_direct_Analyze:
  "set (rp_direct (Analyze iter (Some g) d loc rt)) = set (take maxFindings (concat (map (fileDirect (impact_index g)) d)))"
  "length (rp_direct (Analyze iter (Some g) d loc rt)) = min (length (concat (map (fileDirect (impact_index g)) d))) maxFindings"
  "set (rp_files (Analyze iter (Some g) d loc rt)) = df_path ` set d"
  using analyzeFiles_spec [of "impact_index g" d] by (simp_all add: Analyze_def Let_def)

lemma rp_direct_uncapped:
  assumes "length (rp_direct (Analyze iter (Some g) d loc rt)) < 500"
  shows "set (rp_direct (Analyze iter (Some g) d loc rt)) = (\<Union>f \<in> set d. set (fileDirect (impact_index g) f))"
  using assms unfolding rp_direct_Analyze by (simp add: maxFindings_def min_def split: if_splits)

section \<open>Classification\<close>

text \<open>A file is analyzed when it has direct findings and every one of them binds changed lines of a function.\<close>

definition file_analyzed :: "finding list \<Rightarrow> string \<Rightarrow> bool" where
  "file_analyzed direct p =
     (list_ex (\<lambda>f. fi_file f = p) direct \<and>
      list_all (\<lambda>f. fi_file f = p \<longrightarrow> fi_reason f = ''changed_lines'' \<and> fi_source_id f \<noteq> []) direct)"

lemma classifyFile_eq:
  "classifyFile direct p c =
     (if Inert p then c
      else if file_analyzed direct p then c\<lparr>ch_bound := fold add_new (map fi_source_id (filter (\<lambda>f. fi_file f = p) direct)) (ch_bound c)\<rparr>
      else c\<lparr>ch_unanalyzed := add_new p (ch_unanalyzed c)\<rparr>)"
proof -
  have "file_analyzed direct p = (\<not> (list_ex (\<lambda>f. fi_reason f \<noteq> ''changed_lines'' \<or> fi_source_id f = []) (filter (\<lambda>f. fi_file f = p) direct) \<or>
      filter (\<lambda>f. fi_file f = p) direct = []))"
    by (auto simp: file_analyzed_def list_ex_iff list_all_iff filter_empty_conv)
  then show ?thesis by (simp add: classifyFile_def Let_def)
qed

lemma Classify_sets:
  "set (ch_unanalyzed (Classify rep)) = {p \<in> set (rp_files rep). \<not> Inert p \<and> \<not> file_analyzed (rp_direct rep) p} \<and>
   set (ch_bound (Classify rep)) = {fi_source_id f |f. f \<in> set (rp_direct rep) \<and> fi_file f \<in> set (rp_files rep) \<and>
     \<not> Inert (fi_file f) \<and> file_analyzed (rp_direct rep) (fi_file f)}"
proof -
  have "set (ch_unanalyzed (fold (classifyFile direct) ps c)) =
      set (ch_unanalyzed c) \<union> {p \<in> set ps. \<not> Inert p \<and> \<not> file_analyzed direct p} \<and>
    set (ch_bound (fold (classifyFile direct) ps c)) = set (ch_bound c) \<union> {fi_source_id f |f. f \<in> set direct \<and>
      fi_file f \<in> set ps \<and> \<not> Inert (fi_file f) \<and> file_analyzed direct (fi_file f)}" for direct ps c
  proof (induction ps arbitrary: c)
    case (Cons p ps)
    show ?case unfolding fold_simps conjunct1 [OF Cons.IH] conjunct2 [OF Cons.IH] by (auto simp: classifyFile_eq)
  qed simp
  then show ?thesis by (simp add: Classify_def Let_def)
qed

lemma fileDirect_file:
  assumes "x \<in> set (fileDirect (impact_index g) f)"
  shows "fi_file x = df_path f" and "ix_files (impact_index g) (df_path f) \<noteq> None"
proof -
  obtain n where n: "ix_files (impact_index g) (df_path f) = Some n"
    using assms by (cases "ix_files (impact_index g) (df_path f)") (auto simp: fileDirect_def)
  then show "ix_files (impact_index g) (df_path f) \<noteq> None" by simp
  have path: "df_path f \<noteq> []" using n ix_files_nonempty [of g] by auto
  obtain hits outside where o: "overlappingFuncs (ix_funcs (impact_index g) (df_path f)) (df_lines f) = (hits, outside)" by fastforce
  have "nd_file m = df_path f" if "(m, ln) \<in> set hits" for m ln
    using that overlappingFuncs_spec(3) [OF o] set_ix_funcs [OF path] by force
  then show "fi_file x = df_path f"
    using assms n o by (auto simp: fileDirect_def fileFinding_def hitFinding_def split: if_splits)
qed

lemma changed_lines_bound:
  assumes R: "R = Analyze iter (Some g) d loc rt" and cap: "length (rp_direct R) < 500" and f: "f \<in> set d"
    and "\<not> Inert (df_path f)" and "df_path f \<notin> set (ch_unanalyzed (Classify R))"
  shows "\<not> df_binary f \<and> df_lines f \<noteq> [] \<and>
    list_all (\<lambda>ln. \<exists>n. function_at g (df_path f) ln n \<and> nd_id n \<in> set (ch_bound (Classify R))) (df_lines f)"
proof -
  let ?idx = "impact_index g" and ?p = "df_path f"
  have files: "?p \<in> set (rp_files R)" using f by (simp add: R rp_direct_Analyze(3))
  have direct: "set (rp_direct R) = (\<Union>f \<in> set d. set (fileDirect ?idx f))" by (rule rp_direct_uncapped [of iter g d loc rt, folded R, OF cap])
  have an: "file_analyzed (rp_direct R) ?p" using assms(4,5) files Classify_sets [of R] by auto
  then obtain x f' where "x \<in> set (fileDirect ?idx f')" "fi_file x = ?p"
    unfolding file_analyzed_def list_ex_iff direct by auto
  then have "ix_files ?idx ?p \<noteq> None" using fileDirect_file by fastforce
  then obtain n where n: "ix_files ?idx ?p = Some n" by auto
  have path: "?p \<noteq> []" using n ix_files_nonempty [of g] by auto
  have ok: "fi_reason x = ''changed_lines''" if "x \<in> set (fileDirect ?idx f)" for x
    using an that f fileDirect_file(1) [OF that] unfolding file_analyzed_def list_all_iff direct by blast
  obtain hits outside where o: "overlappingFuncs (ix_funcs ?idx ?p) (df_lines f) = (hits, outside)" by fastforce
  have no: "fileFinding n ?p r \<notin> set (fileDirect ?idx f)" if "r \<noteq> ''changed_lines''" for r
    using ok [of "fileFinding n ?p r"] that by (auto simp: fileFinding_def)
  have bin: "\<not> df_binary f" using no [of "''binary''"] n by (auto simp: fileDirect_def)
  have out: "\<not> outside" using no [of "''changed_outside_func''"] n o bin by (auto simp: fileDirect_def)
  have hits: "hits \<noteq> []" using no [of "''changed_file''"] n o bin by (auto simp: fileDirect_def)
  have bound: "nd_id (fst h) \<in> set (ch_bound (Classify R))" if "h \<in> set hits" for h
  proof -
    have "hitFinding h \<in> set (fileDirect ?idx f)" using that n o bin hits by (auto simp: fileDirect_def)
    moreover from fileDirect_file(1) [OF this] have "fi_file (hitFinding h) = ?p" .
    ultimately show ?thesis using an files assms(4) f
      unfolding conjunct2 [OF Classify_sets] direct
      by (intro CollectI exI [of _ "hitFinding h"]) (auto simp: hitFinding_def split: prod.splits)
  qed
  have "\<exists>n. function_at g ?p ln n \<and> nd_id n \<in> set (ch_bound (Classify R))" if "ln \<in> set (df_lines f)" for ln
  proof -
    have "find (span_covers ln) (func_spans (ix_funcs ?idx ?p)) \<noteq> None"
      using that out unfolding overlappingFuncs_spec(1) [OF o] by simp
    then obtain m stop where m: "find (span_covers ln) (func_spans (ix_funcs ?idx ?p)) = Some (m, stop)"
      by (metis not_None_eq surj_pair)
    have "nd_id m \<in> nd_id ` fst ` set hits" using m that unfolding overlappingFuncs_spec(2) [OF o] by blast
    then obtain h where "h \<in> set hits" "nd_id (fst h) = nd_id m" by auto
    then show ?thesis using bound [of h] span_covers_function_at [OF m path] by auto
  qed
  moreover have "df_lines f \<noteq> []" using hits o by (auto simp: overlappingFuncs_def split: if_splits)
  ultimately show ?thesis using bin by (simp add: list_all_iff)
qed

section \<open>Callers\<close>

text \<open>\<open>c\<close> calls the function \<open>i\<close> of the graph.\<close>

definition incoming_call :: "neighbor \<Rightarrow> bool" where
  "incoming_call n = (nb_direction n = ''in'' \<and> nb_kind n = ''calls'')"

definition caller :: "sgraph \<Rightarrow> string \<Rightarrow> string \<Rightarrow> bool" where
  "caller g c i = (\<exists>ns n. Neighbors g i = Some ns \<and> n \<in> set ns \<and> incoming_call n \<and> nd_id (nb_node n) = c)"

lemma caller_edges:
  "caller (graph_of m ns es) c i \<longleftrightarrow> i \<in> nd_id ` set ns \<and> c \<in> nd_id ` set ns \<and>
     (\<exists>e \<in> set es. ed_from e = c \<and> ed_to e = i \<and> ed_kind e = ''calls'')"
proof (cases "Neighbors (graph_of m ns es) i")
  case None
  then show ?thesis using Neighbors_edges [of m ns es i] Node_exists [of m ns es i] by (auto simp: caller_def)
next
  case (Some nbs)
  let ?g = "graph_of m ns es"
  have i: "i \<in> nd_id ` set ns" and set: "set nbs =
       {\<lparr>nb_node = n, nb_kind = ed_kind e, nb_direction = ''out''\<rparr> |e n. e \<in> set es \<and> ed_from e = i \<and> Node ?g (ed_to e) = Some n} \<union>
       {\<lparr>nb_node = n, nb_kind = ed_kind e, nb_direction = ''in''\<rparr> |e n. e \<in> set es \<and> ed_to e = i \<and> Node ?g (ed_from e) = Some n}"
    using Neighbors_edges [of m ns es i] Node_exists [of m ns es i] Some by simp_all
  have node: "(\<exists>n. Node ?g x = Some n \<and> nd_id n = c) \<longleftrightarrow> x = c \<and> Node ?g c \<noteq> None" for x
    using Node_id(1) [of m ns es x] by auto
  have "caller ?g c i \<longleftrightarrow> (\<exists>n \<in> set nbs. incoming_call n \<and> nd_id (nb_node n) = c)"
    using Some by (auto simp: caller_def)
  also have "\<dots> \<longleftrightarrow> (\<exists>e n. e \<in> set es \<and> ed_to e = i \<and> ed_kind e = ''calls'' \<and> Node ?g (ed_from e) = Some n \<and> nd_id n = c)"
    (is "_ \<longleftrightarrow> ?call")
  proof
    show "\<exists>n \<in> set nbs. incoming_call n \<and> nd_id (nb_node n) = c \<Longrightarrow> ?call" unfolding set by (auto simp: incoming_call_def)
    assume ?call
    then obtain e n where e: "e \<in> set es" "ed_to e = i" "ed_kind e = ''calls''" "Node ?g (ed_from e) = Some n" "nd_id n = c" by blast
    let ?nb = "\<lparr>nb_node = n, nb_kind = ed_kind e, nb_direction = ''in''\<rparr>"
    have "?nb \<in> set nbs" unfolding set using e by blast
    moreover have "incoming_call ?nb" "nd_id (nb_node ?nb) = c" using e by (simp_all add: incoming_call_def)
    ultimately show "\<exists>n \<in> set nbs. incoming_call n \<and> nd_id (nb_node n) = c" by blast
  qed
  also have "\<dots> \<longleftrightarrow> (\<exists>e. e \<in> set es \<and> ed_to e = i \<and> ed_kind e = ''calls'' \<and> (ed_from e = c \<and> Node ?g c \<noteq> None))"
    unfolding node [symmetric] by blast
  finally show ?thesis using i unfolding Node_exists by auto
qed

text \<open>What the loops over the neighbours and over the changed functions collect.\<close>

definition callers_ok :: "caller_state \<Rightarrow> bool" where
  "callers_ok st = (map fi_source_id (cl_likely st) = take maxFindings (cl_ids st))"

lemma addCaller_ok:
  assumes "callers_ok st"
  shows "callers_ok (addCaller g D i n st)"
proof -
  have "length (cl_likely st) = min (length (cl_ids st)) maxFindings"
    using assms unfolding callers_ok_def by (metis length_map length_take)
  then show ?thesis using assms
    by (auto simp: callers_ok_def addCaller_def Let_def appendFinding_def callerFinding_def no_finding_def split: option.splits)
qed

lemma addCaller_sets:
  "set (cl_ids (addCaller g D i n st)) = set (cl_ids st) \<union> {c. incoming_call n \<and> nd_id (nb_node n) = c \<and> c \<notin> set D}"
  "set (cl_targets (addCaller g D i n st) c) = set (cl_targets st c) \<union>
     {t. incoming_call n \<and> nd_id (nb_node n) = c \<and> (\<exists>m. Node g i = Some m \<and> nd_id m = t)}"
  by (auto simp: addCaller_def incoming_call_def Let_def split: option.splits)

lemma addCaller_fold:
  "set (cl_ids (fold (addCaller g D i) ns st)) = set (cl_ids st) \<union> {c. \<exists>n \<in> set ns. incoming_call n \<and> nd_id (nb_node n) = c \<and> c \<notin> set D}"
  "set (cl_targets (fold (addCaller g D i) ns st) c) = set (cl_targets st c) \<union>
     {t. \<exists>n \<in> set ns. incoming_call n \<and> nd_id (nb_node n) = c \<and> (\<exists>m. Node g i = Some m \<and> nd_id m = t)}"
  by (induction ns arbitrary: st) (auto simp: addCaller_sets)

lemma addCallers_sets:
  "set (cl_ids (addCallers g D i st)) = set (cl_ids st) \<union> {c. caller g c i \<and> c \<notin> set D}"
  "set (cl_targets (addCallers g D i st) c) = set (cl_targets st c) \<union> {t. caller g c i \<and> (\<exists>m. Node g i = Some m \<and> nd_id m = t)}"
  by (auto simp: addCallers_def addCaller_fold caller_def split: option.splits)

lemma findCallers_sets:
  "set (cl_ids (findCallers g D order)) = {c. (\<exists>i \<in> set order. caller g c i) \<and> c \<notin> set D}"
  "set (cl_targets (findCallers g D order) c) = {t. \<exists>i \<in> set order. caller g c i \<and> (\<exists>m. Node g i = Some m \<and> nd_id m = t)}"
proof -
  have "set (cl_ids (fold (addCallers g D) order st)) = set (cl_ids st) \<union> {c. (\<exists>i \<in> set order. caller g c i) \<and> c \<notin> set D}" for st
    by (induction order arbitrary: st) (auto simp: addCallers_sets)
  then show "set (cl_ids (findCallers g D order)) = {c. (\<exists>i \<in> set order. caller g c i) \<and> c \<notin> set D}"
    by (simp add: findCallers_def)
  have "set (cl_targets (fold (addCallers g D) order st) c) = set (cl_targets st c) \<union>
      {t. \<exists>i \<in> set order. caller g c i \<and> (\<exists>m. Node g i = Some m \<and> nd_id m = t)}" for st
    by (induction order arbitrary: st) (auto simp: addCallers_sets)
  then show "set (cl_targets (findCallers g D order) c) = {t. \<exists>i \<in> set order. caller g c i \<and> (\<exists>m. Node g i = Some m \<and> nd_id m = t)}"
    by (simp add: findCallers_def)
qed

lemma findCallers_ok: "callers_ok (findCallers g D order)"
proof -
  have inner: "callers_ok st \<Longrightarrow> callers_ok (fold (addCaller g D i) ns st)" for i ns st
    by (induction ns arbitrary: st) (simp_all add: addCaller_ok)
  have "callers_ok st \<Longrightarrow> callers_ok (fold (addCallers g D) order st)" for st
    by (induction order arbitrary: st) (simp_all add: addCallers_def inner split: option.splits)
  then show ?thesis by (simp add: findCallers_def callers_ok_def)
qed

section \<open>Runtime findings\<close>

definition bound_key :: "finding \<Rightarrow> string" where
  "bound_key f = fi_source_id f @ nul @ fi_route f @ nul @ fi_provenance f"

definition entry_of :: "graph_snapshot \<Rightarrow> binding \<Rightarrow> entry_route" where
  "entry_of rt b = (case EntryForSpan rt (bi_trace_id b) (bi_span_id b) of Some e \<Rightarrow> e | None \<Rightarrow> no_entry)"

text \<open>A finding that a watched binding gives rise to.\<close>

definition emits :: "graph_snapshot \<Rightarrow> string list \<Rightarrow> caller_state \<Rightarrow> binding \<Rightarrow> finding \<Rightarrow> bool" where
  "emits rt D cs b f =
     (bi_source_id b \<in> set D \<union> set (cl_ids cs) \<and> (fi_service f \<noteq> [] \<or> fi_route f \<noteq> []) \<and>
      f \<in> set (boundFindings b (entry_of rt b) (bi_source_id b \<in> set D) (cl_targets cs (bi_source_id b))))"

definition runtime_ok :: "runtime_state \<Rightarrow> bool" where
  "runtime_ok st = (map bound_key (rs_runtime st) = take maxFindings (rev (rs_seen st)))"

lemma noteFinding_ok:
  assumes "runtime_ok st"
  shows "runtime_ok (noteFinding b f st)"
proof -
  have "length (rs_runtime st) = min (length (rs_seen st)) maxFindings"
    using assms unfolding runtime_ok_def by (metis length_map length_take length_rev)
  then show ?thesis using assms
    by (auto simp: runtime_ok_def noteFinding_def Let_def appendFinding_def bound_key_def)
qed

lemma noteFinding_sets:
  "set (rs_seen (noteFinding b f st)) = set (rs_seen st) \<union> {k. (fi_service f \<noteq> [] \<or> fi_route f \<noteq> []) \<and> k = bound_key f}"
  "set (rs_runtime (noteFinding b f st)) \<subseteq> set (rs_runtime st) \<union> {h. (fi_service f \<noteq> [] \<or> fi_route f \<noteq> []) \<and> h = f}"
  by (auto simp: noteFinding_def Let_def appendFinding_def bound_key_def)

lemma noteFinding_fold:
  "set (rs_seen (fold (noteFinding b) fs st)) = set (rs_seen st) \<union> {bound_key f |f. f \<in> set fs \<and> (fi_service f \<noteq> [] \<or> fi_route f \<noteq> [])}"
  "set (rs_runtime (fold (noteFinding b) fs st)) \<subseteq> set (rs_runtime st) \<union> {f \<in> set fs. fi_service f \<noteq> [] \<or> fi_route f \<noteq> []}"
proof (induction fs arbitrary: st)
  case (Cons f fs)
  { case 1 show ?case unfolding fold_simps Cons.IH(1) noteFinding_sets by auto
  next case 2 show ?case using Cons.IH(2) [of "noteFinding b f st"] noteFinding_sets(2) [of b f st] by (auto dest!: subsetD) }
qed simp_all

lemma noteBinding_sets:
  "set (rs_seen (noteBinding rt D cs b st)) = set (rs_seen st) \<union> {bound_key f |f. emits rt D cs b f}"
  "set (rs_runtime (noteBinding rt D cs b st)) \<subseteq> set (rs_runtime st) \<union> {f. emits rt D cs b f}"
proof -
  let ?fs = "boundFindings b (entry_of rt b) (bi_source_id b \<in> set D) (cl_targets cs (bi_source_id b))"
  let ?st = "if bi_service_name b \<noteq> [] then st\<lparr>rs_services := add_new (bi_service_name b) (rs_services st)\<rparr> else st"
  have eq: "noteBinding rt D cs b st = (if bi_source_id b \<in> set D \<union> set (cl_ids cs) then fold (noteFinding b) ?fs ?st else st)"
    by (simp add: noteBinding_def Let_def entry_of_def)
  have st: "rs_seen ?st = rs_seen st" "rs_runtime ?st = rs_runtime st" by simp_all
  show "set (rs_seen (noteBinding rt D cs b st)) = set (rs_seen st) \<union> {bound_key f |f. emits rt D cs b f}"
    unfolding eq emits_def using noteFinding_fold(1) [of b ?fs ?st] by (auto simp: st)
  show "set (rs_runtime (noteBinding rt D cs b st)) \<subseteq> set (rs_runtime st) \<union> {f. emits rt D cs b f}"
    unfolding eq emits_def using noteFinding_fold(2) [of b ?fs ?st] by (auto simp: st)
qed

lemma noteBinding_ok: "runtime_ok st \<Longrightarrow> runtime_ok (noteBinding rt D cs b st)"
proof -
  assume st: "runtime_ok st"
  have fold: "runtime_ok s \<Longrightarrow> runtime_ok (fold (noteFinding b) fs s)" for fs s
    by (induction fs arbitrary: s) (simp_all add: noteFinding_ok)
  have "runtime_ok (st\<lparr>rs_services := x\<rparr>)" for x using st by (simp add: runtime_ok_def)
  then show ?thesis unfolding noteBinding_def Let_def using st by (simp add: fold)
qed

lemma noteBinding_fold:
  fixes bs rt D cs
  defines "rs \<equiv> fold (noteBinding rt D cs) bs \<lparr>rs_services = [], rs_seen = [], rs_traces = (\<lambda>_. []), rs_runtime = []\<rparr>"
  shows "set (rs_seen rs) = {bound_key f |f. \<exists>b \<in> set bs. emits rt D cs b f}"
    and "set (rs_runtime rs) \<subseteq> {f. \<exists>b \<in> set bs. emits rt D cs b f}"
    and "runtime_ok rs"
proof -
  have seen: "set (rs_seen (fold (noteBinding rt D cs) bs st)) = set (rs_seen st) \<union> {bound_key f |f. \<exists>b \<in> set bs. emits rt D cs b f}" for st
  proof (induction bs arbitrary: st)
    case (Cons b bs)
    show ?case unfolding fold_simps Cons.IH noteBinding_sets(1) by auto
  qed simp
  have runtime: "set (rs_runtime (fold (noteBinding rt D cs) bs st)) \<subseteq> set (rs_runtime st) \<union> {f. \<exists>b \<in> set bs. emits rt D cs b f}" for st
  proof (induction bs arbitrary: st)
    case (Cons b bs)
    have "set (rs_runtime (fold (noteBinding rt D cs) bs (noteBinding rt D cs b st))) \<subseteq>
        (set (rs_runtime st) \<union> {f. emits rt D cs b f}) \<union> {f. \<exists>b \<in> set bs. emits rt D cs b f}"
      by (rule order_trans [OF Cons.IH]) (use noteBinding_sets(2) [of rt D cs b st] in blast)
    then show ?case by auto
  qed simp
  show "set (rs_seen rs) = {bound_key f |f. \<exists>b \<in> set bs. emits rt D cs b f}" unfolding rs_def seen by simp
  show "set (rs_runtime rs) \<subseteq> {f. \<exists>b \<in> set bs. emits rt D cs b f}" unfolding rs_def by (rule order_trans [OF runtime]) simp
  have "runtime_ok st \<Longrightarrow> runtime_ok (fold (noteBinding rt D cs) bs st)" for st
    by (induction bs arbitrary: st) (simp_all add: noteBinding_ok)
  then show "runtime_ok rs" unfolding rs_def by (simp add: runtime_ok_def)
qed

lemma notePath_fold: "\<exists>ps. fold (notePath services) paths xs = xs @ map pathFinding ps"
proof (induction paths arbitrary: xs)
  case Nil
  show ?case by (rule exI [of _ "[]"]) simp
next
  case (Cons p paths)
  obtain ps where ps: "fold (notePath services) paths (notePath services p xs) = notePath services p xs @ map pathFinding ps"
    using Cons.IH by blast
  show ?case
  proof (cases "notePath services p xs = xs")
    case True
    then show ?thesis using ps by auto
  next
    case False
    then have "notePath services p xs = xs @ [pathFinding p]" by (simp add: notePath_def appendFinding_def split: if_splits)
    then show ?thesis using ps by (intro exI [of _ "p # ps"]) simp
  qed
qed

lemma emits_fields:
  assumes "emits rt D cs b f"
  shows "fi_source_id f = bi_source_id b" and "CHR 0x00 \<notin> set (fi_provenance f)"
    and "fi_route f = routeLabel (er_method (entry_of rt b)) (er_route (entry_of rt b))"
    and "fi_route f \<noteq> [] \<Longrightarrow> bi_source_id b \<in> set D \<or> cl_targets cs (bi_source_id b) \<noteq> []"
  using assms by (auto simp: emits_def boundFindings_def Let_def split: if_splits)

lemma emits_exists:
  assumes "bi_source_id b \<in> set D \<or> bi_source_id b \<in> set (cl_ids cs) \<and> cl_targets cs (bi_source_id b) \<noteq> []"
    and "routeLabel (er_method (entry_of rt b)) (er_route (entry_of rt b)) \<noteq> []"
  shows "\<exists>f. emits rt D cs b f"
proof (cases "bi_source_id b \<in> set D")
  case True
  then show ?thesis using assms(2)
    by (intro exI [of _ "hd (boundFindings b (entry_of rt b) True (cl_targets cs (bi_source_id b)))"])
      (simp add: emits_def boundFindings_def Let_def)
next
  case False
  then show ?thesis using assms
    by (intro exI [of _ "hd (boundFindings b (entry_of rt b) False (cl_targets cs (bi_source_id b)))"])
      (simp add: emits_def boundFindings_def Let_def)
qed

lemma routeLabel_empty: "routeLabel [] [] = []"
  by code_simp

lemma entry_of_label:
  "routeLabel (er_method (entry_of rt b)) (er_route (entry_of rt b)) = r \<Longrightarrow> r \<noteq> [] \<Longrightarrow>
    \<exists>e. EntryForSpan rt (bi_trace_id b) (bi_span_id b) = Some e \<and> r = routeLabel (er_method e) (er_route e)"
  by (cases "EntryForSpan rt (bi_trace_id b) (bi_span_id b)") (auto simp: entry_of_def no_entry_def routeLabel_empty)

lemma split_at_nul:
  fixes c :: char
  assumes "s @ c # t = s' @ c # t'" and "c \<notin> set s" and "c \<notin> set s'"
  shows "s = s' \<and> t = t'"
  using assms
proof (induction s arbitrary: s')
  case Nil
  then show ?case by (cases s') auto
next
  case (Cons a s)
  then show ?case by (cases s') auto
qed

lemma bound_key_route:
  assumes "bound_key f = bound_key h" and "CHR 0x00 \<notin> set (fi_source_id f)" and "CHR 0x00 \<notin> set (fi_source_id h)"
    and "CHR 0x00 \<notin> set (fi_provenance f)" and "CHR 0x00 \<notin> set (fi_provenance h)"
  shows "fi_route f = fi_route h"
proof -
  have "fi_route f @ CHR 0x00 # fi_provenance f = fi_route h @ CHR 0x00 # fi_provenance h"
    using split_at_nul [OF _ assms(2,3)] assms(1) by (simp add: bound_key_def nul_def)
  then have "rev (fi_provenance f) @ CHR 0x00 # rev (fi_route f) = rev (fi_provenance h) @ CHR 0x00 # rev (fi_route h)"
    by (metis (no_types, opaque_lifting) append.assoc append_Cons append_Nil rev.simps(2) rev_append)
  from split_at_nul [OF this] show ?thesis using assms(4,5) by simp
qed

text \<open>The functions that a report names as changed.\<close>

definition changed_ids :: "impact_report \<Rightarrow> string set" where
  "changed_ids R = fi_source_id ` {f \<in> set (rp_direct R). fi_reason f = ''changed_lines''}"

lemma fileIds_direct:
  "set (fileIds idx f) = fi_source_id ` {x \<in> set (fileDirect idx f). fi_reason x = ''changed_lines''}"
proof -
  obtain hits outside where o: "overlappingFuncs (ix_funcs idx (df_path f)) (df_lines f) = (hits, outside)" by fastforce
  have hit: "fi_reason (hitFinding h) = ''changed_lines''" "fi_source_id (hitFinding h) = nd_id (fst h)" for h
    by (cases h; simp add: hitFinding_def)+
  have "fileIds idx f = map fi_source_id (filter (\<lambda>x. fi_reason x = ''changed_lines'') (fileDirect idx f))"
    using o by (cases "ix_files idx (df_path f)") (auto simp: fileIds_def fileDirect_def fileFinding_def filter_map comp_def hit)
  then show ?thesis by simp
qed

lemma changed_ids_Analyze:
  assumes "length (rp_direct (Analyze iter (Some g) d loc rt)) < 500"
  shows "changed_ids (Analyze iter (Some g) d loc rt) = set (ay_ids (analyzeFiles (impact_index g) d))"
  using analyzeFiles_spec [of "impact_index g" d] rp_direct_uncapped [OF assms]
  by (auto simp: changed_ids_def fileIds_direct)

lemma changed_ids_nodes:
  assumes "length (rp_direct (Analyze iter (Some g) d loc rt)) < 500"
  shows "changed_ids (Analyze iter (Some g) d loc rt) \<subseteq> nd_id ` set (sg_nodes g)"
proof
  fix i assume "i \<in> changed_ids (Analyze iter (Some g) d loc rt)"
  then obtain f where i: "i \<in> set (fileIds (impact_index g) f)"
    using analyzeFiles_spec [of "impact_index g" d] unfolding changed_ids_Analyze [OF assms] by auto
  obtain hits outside where o: "overlappingFuncs (ix_funcs (impact_index g) (df_path f)) (df_lines f) = (hits, outside)" by fastforce
  have "df_path f \<noteq> []" using i ix_files_nonempty [of g] by (auto simp: fileIds_def split: if_splits)
  then show "i \<in> nd_id ` set (sg_nodes g)"
    using i o overlappingFuncs_spec(3) [OF o] set_ix_funcs [of "df_path f" g] by (fastforce simp: fileIds_def split: if_splits)
qed

section \<open>Exactness of a report\<close>

lemma rp_likely_Analyze:
  "set (rp_likely (Analyze iter (Some g) d loc rt)) =
     set (cl_likely (findCallers g (ay_ids (analyzeFiles (impact_index g) d)) (iter (ay_ids (analyzeFiles (impact_index g) d)))))"
  "length (rp_likely (Analyze iter (Some g) d loc rt)) =
     length (cl_likely (findCallers g (ay_ids (analyzeFiles (impact_index g) d)) (iter (ay_ids (analyzeFiles (impact_index g) d)))))"
  by (simp_all add: Analyze_def Let_def)

lemma caller_changed:
  assumes "D \<subseteq> nd_id ` set ns"
  shows "(\<exists>i \<in> D. caller (graph_of m ns es) c i) \<longleftrightarrow>
    c \<in> nd_id ` set ns \<and> (\<exists>e \<in> set es. ed_kind e = ''calls'' \<and> ed_from e = c \<and> ed_to e \<in> D)"
  using assms unfolding caller_edges by auto

lemma edge_sources:
  fixes A :: "string set"
  shows "{c. c \<in> A \<and> (\<exists>e \<in> set es. ed_kind e = k \<and> ed_from e = c \<and> ed_to e \<in> D)} =
    {ed_from e |e. e \<in> set es \<and> ed_kind e = k \<and> ed_to e \<in> D \<and> ed_from e \<in> A}"
  by blast

text \<open>
  The likely findings of a report that stays below the caps are exactly the immediate callers of the changed
  functions that are not changed themselves, by the call edges of the graph, whatever the order in which the set of
  changed functions is iterated. Callees are never reported.
\<close>

lemma likely_callers:
  assumes R: "R = Analyze iter (Some (graph_of m ns es)) d loc rt"
    and iter: "\<And>xs. set (iter xs) = set xs"
    and caps: "length (rp_direct R) < 500" "length (rp_likely R) < 500"
  shows "fi_source_id ` set (rp_likely R) =
    {ed_from e |e. e \<in> set es \<and> ed_kind e = ''calls'' \<and> ed_to e \<in> changed_ids R \<and> ed_from e \<in> nd_id ` set ns} - changed_ids R"
proof -
  let ?g = "graph_of m ns es"
  let ?D = "ay_ids (analyzeFiles (impact_index ?g) d)"
  let ?cs = "findCallers ?g ?D (iter ?D)"
  have D: "changed_ids R = set ?D" using changed_ids_Analyze caps(1) unfolding R by blast
  have sub: "set ?D \<subseteq> nd_id ` set ns" using changed_ids_nodes [OF caps(1) [unfolded R]] by (simp add: D [unfolded R])
  have ok: "map fi_source_id (cl_likely ?cs) = take maxFindings (cl_ids ?cs)" using findCallers_ok by (simp add: callers_ok_def)
  then have "length (cl_likely ?cs) = min (length (cl_ids ?cs)) maxFindings" by (metis length_map length_take)
  then have "length (cl_ids ?cs) \<le> maxFindings"
    using caps(2) by (simp add: R rp_likely_Analyze maxFindings_def min_def split: if_splits)
  then have "fi_source_id ` set (cl_likely ?cs) = set (cl_ids ?cs)" using ok by (metis set_map take_all)
  also have "\<dots> = {c. c \<in> nd_id ` set ns \<and> (\<exists>e \<in> set es. ed_kind e = ''calls'' \<and> ed_from e = c \<and> ed_to e \<in> set ?D)} - set ?D"
    unfolding findCallers_sets iter caller_changed [OF sub] by blast
  also have "\<dots> = {ed_from e |e. e \<in> set es \<and> ed_kind e = ''calls'' \<and> ed_to e \<in> set ?D \<and> ed_from e \<in> nd_id ` set ns} - set ?D"
    by (rule arg_cong [where f = "\<lambda>X. X - set ?D"], rule edge_sources)
  finally show ?thesis unfolding D unfolding R rp_likely_Analyze(1) .
qed

text \<open>A binding gives routed findings exactly when its function is changed or calls a changed one.\<close>

lemma watched_calls:
  fixes m es
  assumes iter: "\<And>xs. set (iter xs) = set xs" and sub: "set D \<subseteq> nd_id ` set ns" and c: "c \<in> nd_id ` set ns"
  defines "cs \<equiv> findCallers (graph_of m ns es) D (iter D)"
  shows "c \<in> set D \<or> c \<in> set (cl_ids cs) \<and> cl_targets cs c \<noteq> [] \<longleftrightarrow>
    c \<in> set D \<or> (\<exists>e \<in> set es. ed_kind e = ''calls'' \<and> ed_from e = c \<and> ed_to e \<in> set D)"
proof -
  let ?g = "graph_of m ns es"
  have "Node ?g i \<noteq> None" if "i \<in> set D" for i using sub that Node_exists by blast
  then have "cl_targets cs c \<noteq> [] \<longleftrightarrow> (\<exists>i \<in> set D. caller ?g c i)"
    unfolding set_empty [symmetric] cs_def findCallers_sets iter by (auto dest: Node_id(1)) blast
  moreover have "c \<in> set (cl_ids cs) \<longleftrightarrow> (\<exists>i \<in> set D. caller ?g c i) \<and> c \<notin> set D"
    unfolding cs_def findCallers_sets iter by blast
  ultimately show ?thesis using c unfolding caller_changed [OF sub] by blast
qed

lemma routes_exact:
  assumes R: "R = Analyze iter (Some (graph_of m ns es)) d loc rt"
    and iter: "\<And>xs. set (iter xs) = set xs"
    and ids: "list_all (\<lambda>n. CHR 0x00 \<notin> set (nd_id n)) ns"
    and loc: "list_all (\<lambda>b. bi_source_id b \<in> nd_id ` set ns) (ls_bindings loc)"
    and caps: "length (rp_direct R) < 500" "length (rp_runtime R) < 500"
  shows "{fi_route f |f. f \<in> set (rp_runtime R) \<and> fi_route f \<noteq> []} =
    {r. r \<noteq> [] \<and> (\<exists>b e. b \<in> set (ls_bindings loc) \<and> EntryForSpan rt (bi_trace_id b) (bi_span_id b) = Some e \<and>
       r = routeLabel (er_method e) (er_route e) \<and>
       (bi_source_id b \<in> changed_ids R \<or>
        (\<exists>c \<in> set es. ed_kind c = ''calls'' \<and> ed_from c = bi_source_id b \<and> ed_to c \<in> changed_ids R)))}"
    (is "?found = ?routes")
proof -
  let ?g = "graph_of m ns es"
  define D where "D = ay_ids (analyzeFiles (impact_index ?g) d)"
  define cs where "cs = findCallers ?g D (iter D)"
  define rs where "rs = fold (noteBinding rt D cs) (ls_bindings loc) \<lparr>rs_services = [], rs_seen = [], rs_traces = (\<lambda>_. []), rs_runtime = []\<rparr>"
  note rs = noteBinding_fold [where rt = rt and D = D and cs = cs and bs = "ls_bindings loc", folded rs_def]
  have D: "changed_ids R = set D" using changed_ids_Analyze caps(1) unfolding R D_def by blast
  have sub: "set D \<subseteq> nd_id ` set ns" using changed_ids_nodes [OF caps(1) [unfolded R]] by (simp add: D [unfolded R])
  obtain ps where runtime: "set (rp_runtime R) = set (rs_runtime rs) \<union> pathFinding ` set ps" "length (rs_runtime rs) \<le> length (rp_runtime R)"
    using notePath_fold [of "rs_services rs" "gs_paths rt" "rs_runtime rs"]
    by (auto simp: R Analyze_def Let_def rs_def cs_def D_def)
  have "length (rs_runtime rs) = min (length (rs_seen rs)) maxFindings"
    using rs(3) unfolding runtime_ok_def by (metis length_map length_take length_rev)
  then have "length (rs_seen rs) \<le> maxFindings" using runtime(2) caps(2) by (simp add: maxFindings_def min_def split: if_splits)
  then have seen: "bound_key ` set (rs_runtime rs) = set (rs_seen rs)"
    using rs(3) unfolding runtime_ok_def by (metis length_rev set_map set_rev take_all)
  let ?watched = "\<lambda>b. bi_source_id b \<in> set D \<or> bi_source_id b \<in> set (cl_ids cs) \<and> cl_targets cs (bi_source_id b) \<noteq> []"
  let ?linked = "\<lambda>b. bi_source_id b \<in> set D \<or> (\<exists>c \<in> set es. ed_kind c = ''calls'' \<and> ed_from c = bi_source_id b \<and> ed_to c \<in> set D)"
  have targets: "?watched b \<longleftrightarrow> ?linked b" if "b \<in> set (ls_bindings loc)" for b
    unfolding cs_def using watched_calls [where iter = iter and c = "bi_source_id b", OF iter sub] loc that by (simp add: list_all_iff)
  show ?thesis
  proof (intro set_eqI iffI)
    fix r assume "r \<in> ?found"
    then obtain f where f: "f \<in> set (rp_runtime R)" "fi_route f = r" "r \<noteq> []" by blast
    have "fi_route h = []" if "h \<in> pathFinding ` set ps" for h using that by (auto simp: pathFinding_def no_finding_def)
    then have "f \<in> set (rs_runtime rs)" using f unfolding runtime(1) by blast
    from subsetD [OF rs(2) this] obtain b where b: "b \<in> set (ls_bindings loc)" "emits rt D cs b f" by blast
    have "?watched b" using emits_fields(4) [OF b(2)] f(2,3) b(2) by (auto simp: emits_def)
    then have "?linked b" using targets [OF b(1)] by blast
    moreover obtain e where "EntryForSpan rt (bi_trace_id b) (bi_span_id b) = Some e" "r = routeLabel (er_method e) (er_route e)"
      using entry_of_label [OF _ f(3), of rt b] emits_fields(3) [OF b(2)] f(2) by auto
    ultimately show "r \<in> ?routes" using b(1) f(3) unfolding D by blast
  next
    fix r assume "r \<in> ?routes"
    then obtain b e where b: "b \<in> set (ls_bindings loc)" "?linked b" "r \<noteq> []"
      and e: "EntryForSpan rt (bi_trace_id b) (bi_span_id b) = Some e" "r = routeLabel (er_method e) (er_route e)"
      unfolding D by blast
    have r: "r = routeLabel (er_method (entry_of rt b)) (er_route (entry_of rt b))" using e by (simp add: entry_of_def)
    have "?watched b" using targets [OF b(1)] b(2) by blast
    then obtain f where f: "emits rt D cs b f" using emits_exists [of b D cs rt] b(3) r by auto
    have "bound_key f \<in> set (rs_seen rs)" using f b(1) unfolding rs(1) by blast
    then obtain h where h: "h \<in> set (rs_runtime rs)" "bound_key h = bound_key f" unfolding seen [symmetric] by auto
    from subsetD [OF rs(2) h(1)] obtain b' where b': "b' \<in> set (ls_bindings loc)" "emits rt D cs b' h" by blast
    have nul: "CHR 0x00 \<notin> set (bi_source_id x)" if "x \<in> set (ls_bindings loc)" for x
      using that loc ids by (auto simp: list_all_iff)
    have "fi_route h = fi_route f"
      using h(2) nul [OF b'(1)] nul [OF b(1)] emits_fields(1,2) [OF f] emits_fields(1,2) [OF b'(2)]
      by (intro bound_key_route) simp_all
    then have "fi_route h = r" using emits_fields(3) [OF f] r by simp
    then show "r \<in> ?found" using h(1) runtime(1) b(3) by blast
  qed
qed

text \<open>
  C16: The routes of a report that stays below the caps are exactly the entry routes of the bound spans whose function
  is changed or calls a changed function: no route is invented, and none that the traces show is lost. Node ids hold
  no NUL byte and the bindings name nodes of the graph.
\<close>

theorem impacted_routes:
  assumes "R = Analyze iter (Some (graph_of m ns es)) d loc rt"
    and "\<And>xs. set (iter xs) = set xs"
    and "list_all (\<lambda>n. CHR 0x00 \<notin> set (nd_id n)) ns"
    and "list_all (\<lambda>b. bi_source_id b \<in> nd_id ` set ns) (ls_bindings loc)"
    and "length (rp_direct R) < 500" and "length (rp_runtime R) < 500"
  shows "{fi_route f |f. f \<in> set (rp_runtime R) \<and> fi_route f \<noteq> []} =
    {r. r \<noteq> [] \<and> (\<exists>b e. b \<in> set (ls_bindings loc) \<and> EntryForSpan rt (bi_trace_id b) (bi_span_id b) = Some e \<and>
       r = routeLabel (er_method e) (er_route e) \<and>
       (bi_source_id b \<in> changed_ids R \<or>
        (\<exists>c \<in> set es. ed_kind c = ''calls'' \<and> ed_from c = bi_source_id b \<and> ed_to c \<in> changed_ids R)))}"
  using assms by (rule routes_exact)

section \<open>An example\<close>

text \<open>A graph of two functions, a span of the caller, and a diff that changes the callee.\<close>

definition demo_fn_node :: "string \<Rightarrow> int \<Rightarrow> int \<Rightarrow> node" where
  "demo_fn_node name line stop = \<lparr>nd_id = ''fn:'' @ name, nd_kind = ''function'', nd_name = name, nd_pkg = ''m'',
     nd_file = ''cart.go'', nd_line = line, nd_end_line = stop\<rparr>"

definition demo_nodes :: "node list" where
  "demo_nodes = [\<lparr>nd_id = ''file:cart.go'', nd_kind = ''file'', nd_name = ''cart.go'', nd_pkg = ''m'', nd_file = ''cart.go'',
     nd_line = 0, nd_end_line = 0\<rparr>, demo_fn_node ''F'' 1 4, demo_fn_node ''G'' 5 8]"

definition demo_calls :: "edge list" where
  "demo_calls = [\<lparr>ed_from = ''fn:F'', ed_to = ''fn:G'', ed_kind = ''calls'', ed_provenance = ''types''\<rparr>]"

definition demo_spans :: "span list" where
  "demo_spans = [\<lparr>sp_trace_id = ''t'', sp_span_id = ''s'', sp_parent_span_id = [], sp_service_name = ''cart'', sp_name = ''F'',
     sp_kind = ''server'', sp_status_code = [], sp_http_method = ''GET'', sp_http_route = ''/cart'', sp_http_status = 200,
     sp_code_function = ''m.F'', sp_code_file = ''cart.go'', sp_start_time = 0, sp_duration_ns = 1\<rparr>]"

definition demo_change :: diff where
  "demo_change = [\<lparr>df_path = ''cart.go'', df_status = ''modify'', df_binary = False, df_lines = [6]\<rparr>]"

definition demo_impact :: impact_report where
  "demo_impact = Analyze rev (Some (graph_of ''m'' demo_nodes demo_calls)) demo_change
     (Bind (Some (graph_of ''m'' demo_nodes demo_calls)) demo_spans) (Build demo_spans)"

lemma demo_impact_caps: "length (rp_direct demo_impact) < 500" "length (rp_likely demo_impact) < 500" "length (rp_runtime demo_impact) < 500"
  by code_simp+

lemma demo_changed: "changed_ids demo_impact = {''fn:G''}"
  by code_simp

lemma demo_binding: "map bi_source_id (ls_bindings (Bind (Some (graph_of ''m'' demo_nodes demo_calls)) demo_spans)) = [''fn:F'']"
  by code_simp

theorem impacted_routes_witness:
  "''GET /cart'' \<in> {fi_route f |f. f \<in> set (rp_runtime demo_impact) \<and> fi_route f \<noteq> []}"
proof -
  let ?g = "graph_of ''m'' demo_nodes demo_calls"
  let ?loc = "Bind (Some ?g) demo_spans"
  have nul: "list_all (\<lambda>n. CHR 0x00 \<notin> set (nd_id n)) demo_nodes" by code_simp
  obtain b where b: "ls_bindings ?loc = [b]" using demo_binding by (auto simp: map_eq_Cons_conv)
  have "map (\<lambda>b. (bi_source_id b, map_option (\<lambda>e. routeLabel (er_method e) (er_route e)) (EntryForSpan (Build demo_spans) (bi_trace_id b) (bi_span_id b)))) (ls_bindings ?loc)
    = [(''fn:F'', Some ''GET /cart'')]" by code_simp
  then obtain e where e: "bi_source_id b = ''fn:F''" "EntryForSpan (Build demo_spans) (bi_trace_id b) (bi_span_id b) = Some e"
    "''GET /cart'' = routeLabel (er_method e) (er_route e)" unfolding b by auto
  have call: "\<exists>c \<in> set demo_calls. ed_kind c = ''calls'' \<and> ed_from c = bi_source_id b \<and> ed_to c \<in> changed_ids demo_impact"
    by (simp add: demo_changed demo_calls_def e(1))
  show ?thesis
    unfolding impacted_routes [OF demo_impact_def set_rev nul Bind_nodes [of ?g, unfolded nodes_graph_of] demo_impact_caps(1,3)]
    using b e call by auto
qed

section \<open>The cap on findings\<close>

text \<open>
  Findings beyond the cap are dropped silently. A diff of 252 sections changes a function of \<open>tax.go\<close>, then two
  functions of \<open>cart.go\<close> 250 times, then a line of \<open>tax.go\<close> that lies in no function.
\<close>

definition cap_nodes :: "node list" where
  "cap_nodes = demo_nodes @
     [\<lparr>nd_id = ''file:tax.go'', nd_kind = ''file'', nd_name = ''tax.go'', nd_pkg = ''m'', nd_file = ''tax.go'', nd_line = 0, nd_end_line = 0\<rparr>,
      \<lparr>nd_id = ''fn:H'', nd_kind = ''function'', nd_name = ''H'', nd_pkg = ''m'', nd_file = ''tax.go'', nd_line = 1, nd_end_line = 4\<rparr>]"

definition cap_section :: "string \<Rightarrow> int list \<Rightarrow> diff_file" where
  "cap_section p lines = \<lparr>df_path = p, df_status = ''modify'', df_binary = False, df_lines = lines\<rparr>"

definition cap_change :: diff where
  "cap_change = [cap_section ''tax.go'' [2]] @ replicate 250 (cap_section ''cart.go'' [2, 6]) @ [cap_section ''tax.go'' [50]]"

lemma take_short: "n \<le> length xs \<Longrightarrow> take n (xs @ ys) = take n xs"
  by simp

text \<open>
  C17: Above the cap the classification is not sound: it finds no unanalyzed change in a diff that changes a line
  outside every function, because the finding that says so is the first one dropped.
\<close>

theorem cap_hides_change:
  "ch_unanalyzed (Classify (Analyze iter (Some (graph_of m cap_nodes es)) cap_change loc rt)) = [] \<and>
   cap_section ''tax.go'' [50] \<in> set cap_change \<and> \<not> Inert ''tax.go'' \<and>
   (\<forall>n. \<not> function_at (graph_of m cap_nodes es) ''tax.go'' 50 n)"
proof (intro conjI)
  let ?g = "graph_of m cap_nodes es"
  let ?R = "Analyze iter (Some ?g) cap_change loc rt"
  let ?fd = "\<lambda>p lines. fileDirect (impact_index ?g) (cap_section p lines)"
  have idx: "impact_index ?g = impact_index (graph_of [] cap_nodes [])"
    by (simp add: impact_index_def sg_snapshot_def)
  have tax: "map (\<lambda>f. (fi_file f, fi_reason f, fi_source_id f)) (?fd ''tax.go'' [2]) = [(''tax.go'', ''changed_lines'', ''fn:H'')]"
    unfolding idx by code_simp
  have cart: "map (\<lambda>f. (fi_file f, fi_reason f, fi_source_id f)) (?fd ''cart.go'' [2, 6]) =
      [(''cart.go'', ''changed_lines'', ''fn:F''), (''cart.go'', ''changed_lines'', ''fn:G'')]"
    unfolding idx by code_simp
  obtain h where h: "?fd ''tax.go'' [2] = [h]" "fi_file h = ''tax.go''" "fi_reason h = ''changed_lines''" "fi_source_id h = ''fn:H''"
    using tax by auto
  obtain x y where xy: "?fd ''cart.go'' [2, 6] = [x, y]" "fi_file x = ''cart.go''" "fi_reason x = ''changed_lines''" "fi_source_id x = ''fn:F''"
    "fi_file y = ''cart.go''" "fi_reason y = ''changed_lines''" "fi_source_id y = ''fn:G''"
    using cart by auto
  let ?xs = "concat (replicate 250 [x, y])"
  have len: "length ?xs = 500" by (simp add: length_concat sum_list_replicate)
  have "concat (map (fileDirect (impact_index ?g)) cap_change) = h # ?xs @ ?fd ''tax.go'' [50]"
    by (simp add: cap_change_def map_replicate h(1) xy(1))
  then have "take maxFindings (concat (map (fileDirect (impact_index ?g)) cap_change)) = h # take 499 ?xs"
    using len by (simp add: maxFindings_def take_Cons')
  then have direct: "set (rp_direct ?R) = insert h (set (take 499 ?xs))" unfolding rp_direct_Analyze(1) by simp
  have "?xs = x # y # concat (replicate 249 [x, y])"
    by (simp add: numeral_eq_Suc)
  then have sub: "set (rp_direct ?R) \<subseteq> {h, x, y}" "h \<in> set (rp_direct ?R)" "x \<in> set (rp_direct ?R)"
    unfolding direct by (auto simp: take_Cons' dest: in_set_takeD)
  have "df_path f \<in> {''tax.go'', ''cart.go''}" if "f \<in> set cap_change" for f
    using that by (auto simp: cap_change_def cap_section_def)
  then have files: "set (rp_files ?R) \<subseteq> {''tax.go'', ''cart.go''}" unfolding rp_direct_Analyze(3) by auto
  have "file_analyzed (rp_direct ?R) p" if "p \<in> {''tax.go'', ''cart.go''}" for p
    unfolding file_analyzed_def list_ex_iff list_all_iff using that sub h xy by auto
  then have "set (ch_unanalyzed (Classify ?R)) = {}" using files unfolding conjunct1 [OF Classify_sets] by blast
  then show "ch_unanalyzed (Classify ?R) = []" by simp
  show "cap_section ''tax.go'' [50] \<in> set cap_change" by (simp add: cap_change_def)
  show "\<not> Inert ''tax.go''" by code_simp
  show "\<forall>n. \<not> function_at ?g ''tax.go'' 50 n"
    by (auto simp: function_at_def cap_nodes_def demo_nodes_def demo_fn_node_def)
qed

end
