(* ===== verification/Diff_Apply.thy ===== *)
theory Diff_Apply
  imports Unified_Diff
begin

text \<open>
  Applying a unified diff to a directory, \<open>internal/diff/apply.go\<close>. The second scan of the diff keeps the hunk
  text; \<open>applyToLines\<close> splices the hunks into the lines of one file. What \<open>Apply\<close> asks of the operating system
  are the functions of \<open>os_ops\<close> over an abstract state \<open>'w\<close>.
\<close>

section \<open>Collecting the hunks\<close>

record apply_hunk =
  ah_old_start :: int
  ah_lines :: "string list"

record apply_file =
  af_path :: string
  af_status :: string
  af_binary :: bool
  af_hunks :: "apply_hunk list"

definition hunkOldStart :: "string \<Rightarrow> error + int" where
  "hunkOldStart line =
     (case cut CHR ''-'' line of
        None \<Rightarrow> Inl badHunk
      | Some (_, rest) \<Rightarrow>
          if \<not> contains_any '' ,'' rest then Inl badHunk
          else (case atoi (takeWhile (\<lambda>c. c \<notin> set '' ,'') rest) of
                  None \<Rightarrow> Inl badHunk
                | Some n \<Rightarrow> if n < 0 then Inl badHunk else Inr n))"

record collect_state =
  cs_files :: "apply_file list"
  cs_cur :: "apply_file option"
  cs_in_hunk :: bool
  cs_hunk :: apply_hunk

definition no_hunk :: apply_hunk where
  "no_hunk = \<lparr>ah_old_start = 0, ah_lines = []\<rparr>"

definition flushHunk :: "collect_state \<Rightarrow> collect_state" where
  "flushHunk st =
     (case cs_cur st of
        None \<Rightarrow> st
      | Some cur \<Rightarrow>
          if \<not> cs_in_hunk st then st
          else st\<lparr>cs_cur := Some (cur\<lparr>af_hunks := af_hunks cur @ [cs_hunk st]\<rparr>), cs_hunk := no_hunk, cs_in_hunk := False\<rparr>)"

definition flushFile :: "collect_state \<Rightarrow> collect_state" where
  "flushFile st0 =
     (let st = flushHunk st0
      in case cs_cur st of
           None \<Rightarrow> st
         | Some cur \<Rightarrow>
             if af_path cur = [] then st\<lparr>cs_cur := None\<rparr>
             else (case CanonicalPath (af_path cur) of
                     None \<Rightarrow> st\<lparr>cs_cur := None\<rparr>
                   | Some p \<Rightarrow> st\<lparr>cs_files := cs_files st @ [cur\<lparr>af_path := p\<rparr>], cs_cur := None\<rparr>))"

definition cs_start :: "collect_state \<Rightarrow> collect_state" where
  "cs_start st = (flushFile st)\<lparr>cs_cur := Some \<lparr>af_path = [], af_status = ''modify'', af_binary = False, af_hunks = []\<rparr>\<rparr>"

definition cs_ensure :: "collect_state \<Rightarrow> collect_state" where
  "cs_ensure st = (if cs_cur st = None then cs_start st else st)"

definition cs_upd :: "(apply_file \<Rightarrow> apply_file) \<Rightarrow> collect_state \<Rightarrow> collect_state" where
  "cs_upd f st = st\<lparr>cs_cur := map_option f (cs_cur st)\<rparr>"

definition afPlusHeader :: "string \<Rightarrow> apply_file \<Rightarrow> apply_file" where
  "afPlusHeader p f =
     (if p \<noteq> ''/dev/null'' \<and> p \<noteq> [] then f\<lparr>af_path := p\<rparr>
      else if p = ''/dev/null'' then f\<lparr>af_status := ''delete''\<rparr> else f)"

definition afMinusHeader :: "string \<Rightarrow> apply_file \<Rightarrow> apply_file" where
  "afMinusHeader p f =
     (let f1 = (if af_path f = [] \<and> p \<noteq> ''/dev/null'' then f\<lparr>af_path := p\<rparr> else f)
      in if p = ''/dev/null'' then f1\<lparr>af_status := ''add''\<rparr> else f1)"

definition collectHunk :: "string \<Rightarrow> collect_state \<Rightarrow> error + collect_state" where
  "collectHunk line st =
     (case cs_cur st of
        None \<Rightarrow> Inl (Errorf ''diff: apply: hunk without file header'')
      | Some cur \<Rightarrow>
          if af_binary cur then Inr st
          else (case hunkOldStart line of
                  Inl e \<Rightarrow> Inl e
                | Inr n \<Rightarrow> Inr ((flushHunk st)\<lparr>cs_in_hunk := True, cs_hunk := \<lparr>ah_old_start = n, ah_lines = []\<rparr>\<rparr>)))"

definition collectBody :: "string \<Rightarrow> collect_state \<Rightarrow> collect_state" where
  "collectBody line st =
     (let add = (\<lambda>l. st\<lparr>cs_hunk := (cs_hunk st)\<lparr>ah_lines := ah_lines (cs_hunk st) @ [l]\<rparr>\<rparr>)
      in case line of
           [] \<Rightarrow> add '' ''
         | c # _ \<Rightarrow>
             if c \<in> {CHR ''+'', CHR ''-'', CHR '' '', CHR 0x09} then add line
             else if c = CHR 0x5C then st else flushHunk st)"

definition collectLine :: "collect_state \<Rightarrow> string \<Rightarrow> error + collect_state" where
  "collectLine st0 line =
     (let st = (if cs_in_hunk st0 \<and> \<not> hunkBodyLine line then flushHunk st0 else st0);
          open_file = (cs_cur st \<noteq> None)
      in if prefix ''diff --git '' line
         then (let (a, b) = gitPaths (drop 11 line)
               in Inr (cs_upd (\<lambda>f. f\<lparr>af_path := if b \<noteq> [] then b else a\<rparr>) (cs_start st)))
         else if open_file \<and> prefix ''new file mode'' line then Inr (cs_upd (\<lambda>f. f\<lparr>af_status := ''add''\<rparr>) st)
         else if open_file \<and> prefix ''deleted file mode'' line then Inr (cs_upd (\<lambda>f. f\<lparr>af_status := ''delete''\<rparr>) st)
         else if open_file \<and> (prefix ''rename from '' line \<or> prefix ''rename to '' line)
         then Inl (Errorf ''diff: apply: rename not supported'')
         else if open_file \<and> binaryLine line
         then Inr ((cs_upd (\<lambda>f. f\<lparr>af_binary := True\<rparr>) st)\<lparr>cs_in_hunk := False\<rparr>)
         else if prefix ''+++ '' line then Inr (cs_upd (afPlusHeader (headerPath (drop 4 line))) (cs_ensure st))
         else if prefix ''--- '' line then Inr (cs_upd (afMinusHeader (headerPath (drop 4 line))) (cs_ensure st))
         else if prefix ''@@ '' line then collectHunk line st
         else if cs_in_hunk st \<and> (case cs_cur st of None \<Rightarrow> False | Some cur \<Rightarrow> \<not> af_binary cur) then Inr (collectBody line st)
         else Inr st)"

fun collectLines :: "collect_state \<Rightarrow> string list \<Rightarrow> error + collect_state" where
  "collectLines st [] = Inr st"
| "collectLines st (l # ls) = (case collectLine st l of Inl e \<Rightarrow> Inl e | Inr st1 \<Rightarrow> collectLines st1 ls)"

definition collect_start :: collect_state where
  "collect_start = \<lparr>cs_files = [], cs_cur = None, cs_in_hunk = False, cs_hunk = no_hunk\<rparr>"

definition collectApply :: "string \<Rightarrow> error + apply_file list" where
  "collectApply data =
     (case scanner_lines MaxBytes data of
        None \<Rightarrow> Inl (Errorf ''diff: apply: token too long'')
      | Some ls \<Rightarrow>
          (case collectLines collect_start ls of Inl e \<Rightarrow> Inl e | Inr st \<Rightarrow> Inr (cs_files (flushFile st))))"

section \<open>Splicing hunks into lines\<close>

text \<open>
  The variables of \<open>applyToLines\<close>: \<open>out\<close>, \<open>cursor\<close> and the rest \<open>orig[oi:]\<close> of the original lines.
\<close>

record splice =
  sp_out :: "string list"
  sp_cursor :: int
  sp_rest :: "string list"

definition spliceLine :: "string \<Rightarrow> splice \<Rightarrow> error + splice" where
  "spliceLine ln0 s =
     (let ln = (if ln0 = [] then '' '' else ln0); c = hd ln; want = tl ln;
          miss = (case sp_rest s of [] \<Rightarrow> True | o1 # _ \<Rightarrow> o1 \<noteq> want)
      in if c = CHR '' '' \<or> c = CHR 0x09
         then (if miss then Inl (Errorf ''context mismatch'')
               else Inr \<lparr>sp_out = sp_out s @ [hd (sp_rest s)], sp_cursor = sp_cursor s + 1, sp_rest = tl (sp_rest s)\<rparr>)
         else if c = CHR ''-''
         then (if miss then Inl (Errorf ''context mismatch'')
               else Inr (s\<lparr>sp_cursor := sp_cursor s + 1, sp_rest := tl (sp_rest s)\<rparr>))
         else if c = CHR ''+'' then Inr (s\<lparr>sp_out := sp_out s @ [want]\<rparr>)
         else Inr s)"

fun spliceLines :: "string list \<Rightarrow> splice \<Rightarrow> error + splice" where
  "spliceLines [] s = Inr s"
| "spliceLines (l # ls) s = (case spliceLine l s of Inl e \<Rightarrow> Inl e | Inr s1 \<Rightarrow> spliceLines ls s1)"

text \<open>The loop that copies the lines before a hunk: it copies \<open>start - cursor\<close> lines or fails.\<close>

definition copyUntil :: "int \<Rightarrow> splice \<Rightarrow> error + splice" where
  "copyUntil start s =
     (let n = nat (start - sp_cursor s)
      in if n > length (sp_rest s) then Inl (Errorf ''hunk past end of file'')
         else Inr \<lparr>sp_out = sp_out s @ take n (sp_rest s), sp_cursor = sp_cursor s + int n, sp_rest = drop n (sp_rest s)\<rparr>)"

definition spliceHunk :: "apply_hunk \<Rightarrow> splice \<Rightarrow> error + splice" where
  "spliceHunk h s =
     (let start = (if ah_old_start h = 0 then 1 else ah_old_start h)
      in if start < sp_cursor s then Inl (Errorf ''hunks out of order'')
         else (case copyUntil start s of Inl e \<Rightarrow> Inl e | Inr s1 \<Rightarrow> spliceLines (ah_lines h) s1))"

fun spliceHunks :: "apply_hunk list \<Rightarrow> splice \<Rightarrow> error + splice" where
  "spliceHunks [] s = Inr s"
| "spliceHunks (h # hs) s = (case spliceHunk h s of Inl e \<Rightarrow> Inl e | Inr s1 \<Rightarrow> spliceHunks hs s1)"

definition applyToLines :: "string list \<Rightarrow> apply_hunk list \<Rightarrow> error + string" where
  "applyToLines orig hunks =
     (case spliceHunks hunks \<lparr>sp_out = [], sp_cursor = 1, sp_rest = orig\<rparr> of
        Inl e \<Rightarrow> Inl e
      | Inr s \<Rightarrow> (let out = sp_out s @ sp_rest s
                  in Inr (join [newline] out @ (if orig \<noteq> [] \<or> out \<noteq> [] then [newline] else []))))"

definition splitLines :: "string \<Rightarrow> string list" where
  "splitLines b =
     (if b = [] then []
      else (let s = trim_suffix [newline] b in if s = [] then [[]] else split_on newline s))"

section \<open>Writing the files\<close>

text \<open>The kind and size that \<open>os.Lstat\<close> reports.\<close>

record file_info =
  fn_symlink :: bool
  fn_size :: nat

record 'w os_ops =
  os_lstat :: "'w \<Rightarrow> string \<Rightarrow> file_info option"
  os_read_file :: "'w \<Rightarrow> string \<Rightarrow> error + string"
  os_mkdir_all :: "string \<Rightarrow> 'w \<Rightarrow> error option \<times> 'w"
  os_write_file :: "string \<Rightarrow> string \<Rightarrow> 'w \<Rightarrow> error option \<times> 'w"
  os_remove :: "string \<Rightarrow> 'w \<Rightarrow> error option \<times> 'w"

definition maxApplyFile :: nat where
  "maxApplyFile = 2097152"

text \<open>\<open>containedPath\<close> for an absolute clean \<open>root\<close>; \<open>filepath.Join\<close> joins and cleans.\<close>

definition containedPath :: "string \<Rightarrow> string \<Rightarrow> error + string" where
  "containedPath root rel =
     (if rel = [] then Inl (Errorf ''diff: apply: empty path'')
      else (let dest = path_clean (root @ ''/'' @ rel)
            in if dest \<noteq> root \<and> \<not> prefix (root @ ''/'') dest then Inl (Errorf ''diff: apply: path escapes root'')
               else Inr dest))"

text \<open>\<open>filepath.Dir\<close> of an absolute clean path.\<close>

definition parent_dir :: "string \<Rightarrow> string" where
  "parent_dir p = path_clean (rev (dropWhile (\<lambda>c. c \<noteq> CHR ''/'') (rev p)))"

definition addFile :: "'w os_ops \<Rightarrow> string \<Rightarrow> apply_file \<Rightarrow> 'w \<Rightarrow> error option \<times> 'w" where
  "addFile os dest f w =
     (if os_lstat os w dest \<noteq> None then (Some (Errorf ''diff: apply: already exists''), w)
      else (case applyToLines [] (af_hunks f) of
              Inl e \<Rightarrow> (Some e, w)
            | Inr out \<Rightarrow>
                (case os_mkdir_all os (parent_dir dest) w of
                   (Some e, w1) \<Rightarrow> (Some e, w1)
                 | (None, w1) \<Rightarrow> os_write_file os dest out w1)))"

definition modifyFile :: "'w os_ops \<Rightarrow> string \<Rightarrow> apply_file \<Rightarrow> 'w \<Rightarrow> error option \<times> 'w" where
  "modifyFile os dest f w =
     (case os_lstat os w dest of
        None \<Rightarrow> (Some (Errorf ''diff: apply: lstat''), w)
      | Some st \<Rightarrow>
          if fn_symlink st then (Some (Errorf ''diff: apply: refusing symlink''), w)
          else if fn_size st > maxApplyFile then (Some (Errorf ''diff: apply: too large''), w)
          else (case os_read_file os w dest of
                  Inl e \<Rightarrow> (Some e, w)
                | Inr raw \<Rightarrow>
                    if \<not> utf8_valid raw then (Some (Errorf ''diff: apply: not utf-8''), w)
                    else (case applyToLines (splitLines raw) (af_hunks f) of
                            Inl e \<Rightarrow> (Some e, w)
                          | Inr out \<Rightarrow> os_write_file os dest out w)))"

definition applyOne :: "'w os_ops \<Rightarrow> string \<Rightarrow> apply_file \<Rightarrow> 'w \<Rightarrow> error option \<times> 'w" where
  "applyOne os root f w =
     (if af_binary f then (Some (Errorf ''diff: apply: binary not supported''), w)
      else (case containedPath root (af_path f) of
              Inl e \<Rightarrow> (Some e, w)
            | Inr dest \<Rightarrow>
                if af_status f = ''add'' then addFile os dest f w
                else if af_status f = ''delete'' then os_remove os dest w
                else modifyFile os dest f w))"

fun applyFiles :: "'w os_ops \<Rightarrow> string \<Rightarrow> apply_file list \<Rightarrow> 'w \<Rightarrow> error option \<times> 'w" where
  "applyFiles os root [] w = (None, w)"
| "applyFiles os root (f # fs) w =
     (case applyOne os root f w of (Some e, w1) \<Rightarrow> (Some e, w1) | (None, w1) \<Rightarrow> applyFiles os root fs w1)"

text \<open>\<open>Apply\<close>; \<open>root\<close> is the outcome of \<open>filepath.Abs\<close> and the directory check.\<close>

definition Apply :: "'w os_ops \<Rightarrow> error + string \<Rightarrow> string \<Rightarrow> 'w \<Rightarrow> error option \<times> 'w" where
  "Apply os root data w =
     (case Parse data of
        Inl e \<Rightarrow> (Some e, w)
      | Inr _ \<Rightarrow>
          (case root of
             Inl e \<Rightarrow> (Some e, w)
           | Inr r \<Rightarrow>
               (case collectApply data of
                  Inl e \<Rightarrow> (Some e, w)
                | Inr fs \<Rightarrow> if fs = [] then (Some (Errorf ''diff: apply: no files''), w) else applyFiles os r fs w)))"

section \<open>Edit scripts\<close>

text \<open>
  A script for a whole file: blocks of untouched lines, each followed by the edits of one hunk, and the untouched
  lines at the end. Its hunks carry the line number at which they start in the old file.
\<close>

type_synonym script = "(string list \<times> edit list) list"

definition old_of :: "script \<Rightarrow> string list" where
  "old_of bs = concat (map (\<lambda>(gap, es). gap @ old_lines es) bs)"

definition new_of :: "script \<Rightarrow> string list" where
  "new_of bs = concat (map (\<lambda>(gap, es). gap @ new_lines es) bs)"

fun hunks_of :: "int \<Rightarrow> script \<Rightarrow> apply_hunk list" where
  "hunks_of n [] = []"
| "hunks_of n ((gap, es) # bs) =
     \<lparr>ah_old_start = n + int (length gap), ah_lines = map edit_line es\<rparr> #
     hunks_of (n + int (length gap + length (old_lines es))) bs"

definition file_text :: "string list \<Rightarrow> string" where
  "file_text ls = concat (map (\<lambda>l. l @ [newline]) ls)"

lemma spliceLines_edits:
  "spliceLines (map edit_line es) \<lparr>sp_out = out, sp_cursor = n, sp_rest = old_lines es @ rest\<rparr> =
   Inr \<lparr>sp_out = out @ new_lines es, sp_cursor = n + int (length (old_lines es)), sp_rest = rest\<rparr>"
proof (induction es arbitrary: out n)
  case (Cons e es)
  then show ?case by (cases e) (simp_all add: spliceLine_def)
qed simp

lemma spliceHunks_script:
  assumes "1 \<le> n"
  shows "spliceHunks (hunks_of n bs) \<lparr>sp_out = out, sp_cursor = n, sp_rest = old_of bs @ rest\<rparr> =
    Inr \<lparr>sp_out = out @ new_of bs, sp_cursor = n + int (length (old_of bs)), sp_rest = rest\<rparr>"
  using assms
proof (induction n bs arbitrary: out rule: hunks_of.induct)
  case (2 n gap es bs)
  have "spliceHunk \<lparr>ah_old_start = n + int (length gap), ah_lines = map edit_line es\<rparr>
      \<lparr>sp_out = out, sp_cursor = n, sp_rest = old_of ((gap, es) # bs) @ rest\<rparr> =
      Inr \<lparr>sp_out = out @ gap @ new_lines es, sp_cursor = n + int (length gap + length (old_lines es)), sp_rest = old_of bs @ rest\<rparr>"
    using "2.prems" spliceLines_edits [of es "out @ gap" "n + int (length gap)" "old_of bs @ rest"]
    by (simp add: spliceHunk_def copyUntil_def old_of_def algebra_simps)
  then show ?case using 2 by (simp add: new_of_def old_of_def algebra_simps)
qed (simp add: old_of_def new_of_def)

lemma file_text_join: "ls \<noteq> [] \<Longrightarrow> join [newline] ls @ [newline] = file_text ls"
  by (induction "[newline]" ls rule: join.induct) (simp_all add: file_text_def)

lemma splitLines_file_text:
  assumes "ls \<noteq> []" and "list_all (\<lambda>l. newline \<notin> set l) ls"
  shows "splitLines (file_text ls) = ls"
proof -
  have t: "trim_suffix [newline] (file_text ls) = join [newline] ls"
    unfolding file_text_join [OF assms(1), symmetric] by (simp add: trim_suffix_def suffix_def)
  have "file_text ls \<noteq> []" using assms(1) by (auto simp: file_text_join [symmetric])
  moreover have "split_on newline (join [newline] ls) = ls"
    by (rule split_on_join) (use assms in \<open>auto simp: list_all_iff\<close>)
  moreover have "ls = [[]]" if "join [newline] ls = []"
  proof -
    have "split_on newline [] = ls" using calculation(2) that by simp
    then show ?thesis by simp
  qed
  ultimately show ?thesis unfolding splitLines_def t Let_def by (cases "join [newline] ls = []") simp_all
qed


text \<open>The edits a hunk stands for: a blank line is an empty context line, a tab marks context too, and a line with
  any other first character is ignored.\<close>

fun edit_of :: "string \<Rightarrow> edit option" where
  "edit_of [] = Some (Keep [])"
| "edit_of (c # l) =
     (if c = CHR '' '' \<or> c = CHR 0x09 then Some (Keep l)
      else if c = CHR ''-'' then Some (Del l)
      else if c = CHR ''+'' then Some (Ins l) else None)"

definition edits_of :: "apply_hunk \<Rightarrow> edit list" where
  "edits_of h = List.map_filter edit_of (ah_lines h)"

definition hunk_start :: "apply_hunk \<Rightarrow> int" where
  "hunk_start h = (if ah_old_start h = 0 then 1 else ah_old_start h)"

lemma spliceLines_Inr:
  assumes "spliceLines ls s = Inr s1"
  shows "sp_rest s = old_lines (List.map_filter edit_of ls) @ sp_rest s1 \<and>
    sp_out s1 = sp_out s @ new_lines (List.map_filter edit_of ls) \<and>
    sp_cursor s1 = sp_cursor s + int (length (old_lines (List.map_filter edit_of ls)))"
  using assms
proof (induction ls arbitrary: s)
  case (Cons l ls)
  obtain s2 where s2: "spliceLine l s = Inr s2" "spliceLines ls s2 = Inr s1"
    using Cons.prems by (auto split: sum.splits)
  show ?case
    using Cons.IH [OF s2(2)] s2(1)
    by (cases l; cases "sp_rest s")
      (auto simp: spliceLine_def List.map_filter_simps split: if_splits)
qed (simp add: List.map_filter_simps)

lemma copyUntil_Inr:
  assumes "copyUntil start s = Inr s1" and "sp_cursor s \<le> start"
  shows "\<exists>gap. sp_rest s = gap @ sp_rest s1 \<and> sp_out s1 = sp_out s @ gap \<and> start = sp_cursor s + int (length gap) \<and>
    sp_cursor s1 = start"
  using assms by (intro exI [of _ "take (nat (start - sp_cursor s)) (sp_rest s)"])
    (auto simp: copyUntil_def Let_def split: if_splits)

lemma spliceHunks_Inr:
  assumes "spliceHunks hs s = Inr s1"
  shows "\<exists>gaps. length gaps = length hs \<and>
    map hunk_start hs = map ah_old_start (hunks_of (sp_cursor s) (zip gaps (map edits_of hs))) \<and>
    sp_rest s = old_of (zip gaps (map edits_of hs)) @ sp_rest s1 \<and>
    sp_out s1 = sp_out s @ new_of (zip gaps (map edits_of hs))"
  using assms
proof (induction hs arbitrary: s)
  case (Cons h hs)
  obtain s2 where s2: "spliceHunk h s = Inr s2" "spliceHunks hs s2 = Inr s1"
    using Cons.prems by (auto split: sum.splits)
  obtain s3 where s3: "copyUntil (hunk_start h) s = Inr s3" "spliceLines (ah_lines h) s3 = Inr s2" "sp_cursor s \<le> hunk_start h"
    using s2(1) by (auto simp: spliceHunk_def hunk_start_def Let_def split: if_splits sum.splits)
  obtain gap where gap: "sp_rest s = gap @ sp_rest s3" "sp_out s3 = sp_out s @ gap"
      "hunk_start h = sp_cursor s + int (length gap)" "sp_cursor s3 = hunk_start h"
    using copyUntil_Inr [OF s3(1,3)] by blast
  note body = spliceLines_Inr [OF s3(2), folded edits_of_def]
  obtain gaps where "length gaps = length hs"
    "map hunk_start hs = map ah_old_start (hunks_of (sp_cursor s2) (zip gaps (map edits_of hs)))"
    "sp_rest s2 = old_of (zip gaps (map edits_of hs)) @ sp_rest s1"
    "sp_out s1 = sp_out s2 @ new_of (zip gaps (map edits_of hs))"
    using Cons.IH [OF s2(2)] by blast
  then show ?case using gap body
    by (intro exI [of _ "gap # gaps"]) (simp add: old_of_def new_of_def algebra_simps)
qed (simp add: old_of_def new_of_def)



text \<open>An example for the witnesses: one hunk in the middle of a file.\<close>

definition demo_script :: script where
  "demo_script = [([''a''], [Keep ''b'', Del ''c'', Ins ''C''])]"



text \<open>
  Two limits of the application. A hunk without context states the line after which it inserts, but is spliced in
  before that line; and a patch that deletes every line leaves one empty line.
\<close>

lemma insertion_without_context:
  "applyToLines [''a'', ''b''] [\<lparr>ah_old_start = 1, ah_lines = [''+x'']\<rparr>] = Inr (file_text [''x'', ''a'', ''b''])"
  by code_simp

lemma deleting_everything: "applyToLines [''a''] [\<lparr>ah_old_start = 1, ah_lines = [''-a'']\<rparr>] = Inr [newline]"
  by code_simp

section \<open>What is written\<close>

text \<open>Writing, removing and creating directories affect the named path only: there are no links.\<close>

definition os_local :: "'w os_ops \<Rightarrow> bool" where
  "os_local os \<longleftrightarrow>
     (\<forall>w p s q. q \<noteq> p \<longrightarrow> os_read_file os (snd (os_write_file os p s w)) q = os_read_file os w q) \<and>
     (\<forall>w p q. q \<noteq> p \<longrightarrow> os_read_file os (snd (os_remove os p w)) q = os_read_file os w q) \<and>
     (\<forall>w p q. os_read_file os (snd (os_mkdir_all os p w)) q = os_read_file os w q)"

lemma applyOne_frame:
  assumes "os_local os" and "containedPath root (af_path f) \<noteq> Inr q"
  shows "os_read_file os (snd (applyOne os root f w)) q = os_read_file os w q"
proof (cases "containedPath root (af_path f)")
  case (Inr dest)
  have q: "q \<noteq> dest" using assms(2) Inr by simp
  have w: "os_read_file os (snd (os_write_file os dest s w1)) q = os_read_file os w1 q"
    "os_read_file os (snd (os_remove os dest w1)) q = os_read_file os w1 q"
    "os_read_file os (snd (os_mkdir_all os p w1)) q = os_read_file os w1 q" for s p w1
    using assms(1) q by (simp_all add: os_local_def)
  have "os_read_file os (snd (addFile os dest f w)) q = os_read_file os w q"
    using w(1) w(3) [of "parent_dir dest" w] 
    by (cases "os_mkdir_all os (parent_dir dest) w") (simp add: addFile_def split: sum.split option.split)
  moreover have "os_read_file os (snd (modifyFile os dest f w)) q = os_read_file os w q"
    using w(1) by (simp add: modifyFile_def split: sum.split prod.split option.split)
  ultimately show ?thesis using w(2) by (simp add: applyOne_def Inr)
qed (simp add: applyOne_def)

lemma applyFiles_frame:
  assumes "os_local os" and "\<forall>f \<in> set fs. containedPath root (af_path f) \<noteq> Inr q"
  shows "os_read_file os (snd (applyFiles os root fs w)) q = os_read_file os w q"
  using assms(2)
proof (induction fs arbitrary: w)
  case (Cons f fs)
  have "os_read_file os (snd (applyOne os root f w)) q = os_read_file os w q"
    by (rule applyOne_frame [OF assms(1)]) (use Cons.prems in simp)
  then show ?case using Cons by (cases "applyOne os root f w") (simp split: option.split)
qed simp

lemma containedPath_below: "containedPath root rel = Inr q \<Longrightarrow> q = root \<or> prefix (root @ ''/'') q"
  by (auto simp: containedPath_def Let_def split: if_splits)

text \<open>
  C14: On a file system without links a patch changes nothing outside its root and nothing it does not name: a path
  whose content differs afterwards is the root or lies below it, and is the destination of a file of the patch.
\<close>

theorem Apply_frame:
  assumes "os_local os" and "os_read_file os (snd (Apply os (Inr root) data w)) q \<noteq> os_read_file os w q"
  shows "(q = root \<or> prefix (root @ ''/'') q) \<and>
    (\<exists>fs. collectApply data = Inr fs \<and> list_ex (\<lambda>f. containedPath root (af_path f) = Inr q) fs)"
proof -
  obtain fs where fs: "collectApply data = Inr fs" "os_read_file os (snd (applyFiles os root fs w)) q \<noteq> os_read_file os w q"
    using assms(2) by (auto simp: Apply_def split: sum.splits if_splits)
  then obtain f where "f \<in> set fs" "containedPath root (af_path f) = Inr q"
    using applyFiles_frame [OF assms(1)] by blast
  then show ?thesis using fs(1) containedPath_below by (auto simp: list_ex_iff)
qed

text \<open>A file system for the witness: a map from paths to contents.\<close>

definition map_os :: "(string \<Rightarrow> string option) os_ops" where
  "map_os = \<lparr>os_lstat = (\<lambda>w p. map_option (\<lambda>s. \<lparr>fn_symlink = False, fn_size = length s\<rparr>) (w p)),
     os_read_file = (\<lambda>w p. case w p of None \<Rightarrow> Inl (Errorf ''not found'') | Some s \<Rightarrow> Inr s),
     os_mkdir_all = (\<lambda>_ w. (None, w)), os_write_file = (\<lambda>p s w. (None, w(p \<mapsto> s))),
     os_remove = (\<lambda>p w. (None, w(p := None)))\<rparr>"

theorem Apply_frame_witness:
  "os_read_file map_os (snd (Apply map_os (Inr ''/r'') demo_diff [''/r/cart.go'' \<mapsto> file_text [''a'', ''b'']])) ''/r/cart.go'' =
     Inr (file_text [''a'', ''c'', ''d'']) \<and> prefix ''/r/'' ''/r/cart.go''"
proof -
  have l: "os_local map_os" by (simp add: os_local_def map_os_def)
  have r: "os_read_file map_os (snd (Apply map_os (Inr ''/r'') demo_diff [''/r/cart.go'' \<mapsto> file_text [''a'', ''b'']])) ''/r/cart.go'' =
     Inr (file_text [''a'', ''c'', ''d''])" by code_simp
  have "Inr (file_text [''a'', ''c'', ''d'']) \<noteq> os_read_file map_os [''/r/cart.go'' \<mapsto> file_text [''a'', ''b'']] ''/r/cart.go''" by code_simp
  then show ?thesis using Apply_frame [OF l, of "''/r''" demo_diff "[''/r/cart.go'' \<mapsto> file_text [''a'', ''b'']]" "''/r/cart.go''"] r by simp
qed

end
