(* ===== verification/Api.thy ===== *)
theory Api
  imports Worker Otlp_Laws Span_Postgres Run_Store Impact_Laws Diff_Apply Config
begin

text \<open>
  The control plane, \<open>internal/api\<close> with \<open>internal/observability/metrics.go\<close> and \<open>cmd/server/main.go\<close>: requests pass the
  counters, the token check and the routes of \<open>NewServer\<close> to a handler over the span, run and job stores in Postgres.
  A response is a status and the value that is encoded as its body. Decoders, hashes and decompression are the record
  \<open>api_env\<close>; the clock readings and the random id that a request meets are the record \<open>moment\<close>. Paths have no
  percent-encoded bytes, and the store calls succeed.
\<close>

section \<open>Requests and responses\<close>

record http_request =
  ht_method :: string
  ht_path :: string
  ht_query :: "string \<Rightarrow> string"
  ht_header :: "string \<Rightarrow> string"
  ht_body :: "string option"

text \<open>The body is \<open>None\<close> when it cannot be read; \<open>http.MaxBytesReader\<close> refuses a longer one.\<close>

definition readLimited :: "nat \<Rightarrow> http_request \<Rightarrow> string option" where
  "readLimited n r = (case ht_body r of None \<Rightarrow> None | Some b \<Rightarrow> if length b > n then None else Some b)"

record run_created =
  rc_attested_by :: string
  rc_id :: string
  rc_overall :: string
  rc_blockers :: "blocker list"
  rc_validated :: bool
  rc_artifact_digest :: string
  rc_baseline_sha :: string
  rc_dirty :: bool
  rc_service :: string

datatype api_body =
    ErrorBody string
  | StatusBody string string
  | VersionBody string string
  | TextBody string
  | OtlpBody bool int
  | SpansBody "span list"
  | AttachesBody "attach list"
  | GraphBody graph_snapshot
  | SourceBody snapshot
  | NeighborsBody string "neighbor list"
  | LocateBody locate_snapshot
  | ImpactBody impact_report
  | RunCreatedBody run_created
  | RunListBody "run_created list"
  | RunGetBody run_created artifact
  | JobBody job
  | JobListBody "job list"
  | MuxBody

record response =
  re_status :: nat
  re_body :: api_body

definition writeJSON :: "nat \<Rightarrow> api_body \<Rightarrow> response" where
  "writeJSON status body = \<lparr>re_status = status, re_body = body\<rparr>"

definition fail :: "nat \<Rightarrow> string \<Rightarrow> response" where
  "fail status e = writeJSON status (ErrorBody e)"

record metrics =
  mx_ingest_spans :: "64 word"
  mx_ingest_rejected :: "64 word"
  mx_http_2xx :: "64 word"
  mx_http_other :: "64 word"

record api_state =
  as_spans :: "span list"
  as_runs :: "run_row list"
  as_jobs :: pg_store
  as_metrics :: metrics

datatype body_error = BodyTooLarge | BodyInvalid

record api_env =
  ae_sha256 :: "string \<Rightarrow> string"
  ae_gunzip :: "string \<Rightarrow> body_error + string"
  ae_otlp_json :: "string \<Rightarrow> resource_spans list option"
  ae_otlp_proto :: "string \<Rightarrow> resource_spans list option"
  ae_job_opts :: "string \<Rightarrow> create_opts option"
  ae_otlp :: otlp_env
  ae_evidence :: evidence_env
  ae_net :: net_env
  ae_iter :: "string list \<Rightarrow> string list"
  ae_version :: string

text \<open>The server: its configuration and which of the optional backends it has.\<close>

record server =
  sv_token :: string
  sv_ingest_token :: string
  sv_ready :: "bool option"
  sv_spans :: bool
  sv_src :: "sgraph option"
  sv_runs :: bool
  sv_jobs :: bool

record moment =
  mo_validate :: time
  mo_build :: time
  mo_now :: time
  mo_id :: string

section \<open>Counters\<close>

definition NewMetrics :: metrics where
  "NewMetrics = \<lparr>mx_ingest_spans = 0, mx_ingest_rejected = 0, mx_http_2xx = 0, mx_http_other = 0\<rparr>"

definition AddIngest :: "int \<Rightarrow> int \<Rightarrow> metrics \<Rightarrow> metrics" where
  "AddIngest accepted rejected m =
     (let m1 = (if accepted > 0 then m\<lparr>mx_ingest_spans := mx_ingest_spans m + of_int accepted\<rparr> else m)
      in if rejected > 0 then m1\<lparr>mx_ingest_rejected := mx_ingest_rejected m1 + of_int rejected\<rparr> else m1)"

definition metricsWrap :: "response \<times> api_state \<Rightarrow> response \<times> api_state" where
  "metricsWrap rs =
     (case rs of
        (r, s) \<Rightarrow>
          (let m = as_metrics s
           in (r, s\<lparr>as_metrics := (if 200 \<le> re_status r \<and> re_status r \<le> 299 then m\<lparr>mx_http_2xx := mx_http_2xx m + 1\<rparr>
                                  else m\<lparr>mx_http_other := mx_http_other m + 1\<rparr>)\<rparr>)))"

definition writeMetric :: "string \<Rightarrow> string \<Rightarrow> string \<Rightarrow> 64 word \<Rightarrow> string" where
  "writeMetric name help kind v =
     ''# HELP '' @ name @ '' '' @ help @ [newline] @ ''# TYPE '' @ name @ '' '' @ kind @ [newline] @ name @ '' '' @ itoa (sint v) @ [newline]"

definition metricsText :: "metrics \<Rightarrow> string" where
  "metricsText m =
     writeMetric ''aquila_up'' ''Aquila process is serving'' ''gauge'' 1 @
     writeMetric ''aquila_ingest_spans_total'' ''Normalized spans stored'' ''counter'' (mx_ingest_spans m) @
     writeMetric ''aquila_ingest_rejected_spans_total'' ''Spans dropped during normalize'' ''counter'' (mx_ingest_rejected m) @
     writeMetric ''aquila_http_requests_2xx_total'' ''HTTP responses 2xx'' ''counter'' (mx_http_2xx m) @
     writeMetric ''aquila_http_requests_other_total'' ''HTTP responses not 2xx'' ''counter'' (mx_http_other m)"

section \<open>Authorization\<close>

definition publicPath :: "string \<Rightarrow> bool" where
  "publicPath path = (path \<in> {''/healthz'', ''/readyz'', ''/version''})"

definition bearerToken :: "string \<Rightarrow> string" where
  "bearerToken h =
     (if prefix ''Bearer '' h \<or> prefix ''bearer '' (to_lower h) then trim_space (drop 7 h) else [])"

definition presentedApiToken :: "http_request \<Rightarrow> string" where
  "presentedApiToken r =
     (let got = ht_header r ''X-Aquila-Token'' in if got = [] then bearerToken (ht_header r ''Authorization'') else got)"

definition apiAuthorized :: "api_env \<Rightarrow> server \<Rightarrow> http_request \<Rightarrow> bool" where
  "apiAuthorized A S r = (sv_token S = [] \<or> ae_sha256 A (presentedApiToken r) = ae_sha256 A (sv_token S))"

definition ingestAuthorized :: "api_env \<Rightarrow> server \<Rightarrow> http_request \<Rightarrow> bool" where
  "ingestAuthorized A S r =
     (sv_ingest_token S = [] \<or> ae_sha256 A (ht_header r ''X-Aquila-Ingest-Token'') = ae_sha256 A (sv_ingest_token S))"

definition withAuth :: "api_env \<Rightarrow> server \<Rightarrow> (http_request \<Rightarrow> api_state \<Rightarrow> response \<times> api_state) \<Rightarrow> http_request \<Rightarrow> api_state \<Rightarrow> response \<times> api_state" where
  "withAuth A S nxt r s =
     (if publicPath (ht_path r) then nxt r s
      else if ht_path r = ''/v1/traces'' then nxt r s
      else if \<not> apiAuthorized A S r then (fail 401 ''unauthorized'', s)
      else nxt r s)"

section \<open>Spans\<close>

definition otlpMaxBytes :: nat where
  "otlpMaxBytes = 4 * 2 ^ 20"

definition readOTLPBody :: "api_env \<Rightarrow> http_request \<Rightarrow> body_error + string" where
  "readOTLPBody A r =
     (case ht_body r of
        None \<Rightarrow> Inl BodyInvalid
      | Some sent \<Rightarrow>
          (let body = (if to_lower (ht_header r ''Content-Encoding'') = ''gzip'' then ae_gunzip A sent
                       else if length sent > otlpMaxBytes then Inl BodyTooLarge else Inr sent)
           in case body of
                Inl e \<Rightarrow> Inl e
              | Inr b \<Rightarrow> if length b > otlpMaxBytes then Inl BodyTooLarge else Inr b))"

definition handleOTLPTraces :: "api_env \<Rightarrow> server \<Rightarrow> http_request \<Rightarrow> api_state \<Rightarrow> response \<times> api_state" where
  "handleOTLPTraces A S r s =
     (if \<not> ingestAuthorized A S r then (fail 401 ''unauthorized'', s)
      else if \<not> sv_spans S then (fail 503 ''ingest unavailable'', s)
      else (case readOTLPBody A r of
              Inl BodyTooLarge \<Rightarrow> (fail 413 ''otlp payload too large'', s)
            | Inl BodyInvalid \<Rightarrow> (fail 400 ''invalid otlp payload'', s)
            | Inr body \<Rightarrow>
                (case DecodeOTLP (ae_otlp_json A) (ae_otlp_proto A) (ht_header r ''Content-Type'') body of
                   Inl e \<Rightarrow> (fail (if e = Errorf ''unsupported content type'' then 415 else 400) ''invalid otlp payload'', s)
                 | Inr req \<Rightarrow>
                     (let rep = NormalizeReport (ae_otlp A) (Some req);
                          s1 = s\<lparr>as_spans := pgUpsertSpans (or_spans rep) (as_spans s)\<rparr>;
                          s2 = s1\<lparr>as_metrics := AddIngest (int (length (or_spans rep))) (Rejected rep) (as_metrics s1)\<rparr>;
                          ct = to_lower (trim_space (hd (split_on CHR '';'' (ht_header r ''Content-Type''))))
                      in (writeJSON 200 (OtlpBody (ct = ''application/json'') (Rejected rep)), s2)))))"

definition parseWindowQuery :: "http_request \<Rightarrow> string + int \<times> string" where
  "parseWindowQuery r =
     (let service = ClipService (ht_query r ''service''); raw = ht_query r ''traces''
      in if raw = [] then Inr (0, service)
         else (case atoi raw of
                 None \<Rightarrow> Inl ''invalid traces''
               | Some n \<Rightarrow> if n < 0 then Inl ''invalid traces'' else Inr (n, service)))"

text \<open>\<open>clipQuery\<close> of \<open>api/ingest.go\<close>: cut at a byte that starts a rune.\<close>

fun cutBack :: "string \<Rightarrow> nat \<Rightarrow> string" where
  "cutBack s 0 = []"
| "cutBack s (Suc n) = (if utf8_tail (s ! Suc n) then cutBack s n else take (Suc n) s)"

definition apiClipQuery :: "string \<Rightarrow> nat \<Rightarrow> string" where
  "apiClipQuery s n = (if n = 0 \<or> length s \<le> n then s else cutBack s n)"

text \<open>A limit in a query: absent, a number, or refused.\<close>

definition limitQuery :: "http_request \<Rightarrow> int \<Rightarrow> int option" where
  "limitQuery r dflt =
     (let raw = ht_query r ''limit''
      in if raw = [] then Some dflt
         else (case atoi raw of None \<Rightarrow> None | Some n \<Rightarrow> if n < 0 then None else Some n))"

definition handleListSpans :: "server \<Rightarrow> http_request \<Rightarrow> api_state \<Rightarrow> response" where
  "handleListSpans S r s =
     (if \<not> sv_spans S then fail 503 ''ingest unavailable''
      else if ht_query r ''traces'' \<noteq> []
      then (case parseWindowQuery r of
              Inl e \<Rightarrow> fail 400 e
            | Inr (n, service) \<Rightarrow> writeJSON 200 (SpansBody (pgListTraceWindow n service (as_spans s))))
      else (case limitQuery r 0 of
              None \<Rightarrow> fail 400 ''invalid limit''
            | Some n \<Rightarrow>
                writeJSON 200 (SpansBody (pgListSpans
                  \<lparr>lq_trace_id = apiClipQuery (ht_query r ''trace_id'') 64, lq_service = apiClipQuery (ht_query r ''service'') 128, lq_limit = n\<rparr>
                  (as_spans s)))))"

definition handleListAttaches :: "server \<Rightarrow> http_request \<Rightarrow> api_state \<Rightarrow> response" where
  "handleListAttaches S r s =
     (if \<not> sv_spans S then fail 503 ''ingest unavailable''
      else (case limitQuery r 0 of
              None \<Rightarrow> fail 400 ''invalid limit''
            | Some n \<Rightarrow> writeJSON 200 (AttachesBody (pgListAttaches n (as_spans s)))))"

section \<open>Graphs\<close>

definition handleGraph :: "server \<Rightarrow> http_request \<Rightarrow> api_state \<Rightarrow> response" where
  "handleGraph S r s =
     (if \<not> sv_spans S then fail 503 ''ingest unavailable''
      else (case parseWindowQuery r of
              Inl e \<Rightarrow> fail 400 e
            | Inr (n, service) \<Rightarrow> writeJSON 200 (GraphBody (Build (pgListTraceWindow n service (as_spans s))))))"

definition handleSource :: "server \<Rightarrow> response" where
  "handleSource S =
     (case sv_src S of None \<Rightarrow> fail 503 ''source unavailable'' | Some g \<Rightarrow> writeJSON 200 (SourceBody (sg_snapshot g)))"

definition maxSourceNodeID :: nat where
  "maxSourceNodeID = 1024"

definition handleSourceNeighbors :: "server \<Rightarrow> http_request \<Rightarrow> response" where
  "handleSourceNeighbors S r =
     (case sv_src S of
        None \<Rightarrow> fail 503 ''source unavailable''
      | Some g \<Rightarrow>
          (let i = ht_query r ''id''
           in if i = [] then fail 400 ''missing id''
              else if length i > maxSourceNodeID \<or> \<not> utf8_valid i then fail 400 ''invalid id''
              else (case Neighbors g i of None \<Rightarrow> fail 404 ''not found'' | Some ns \<Rightarrow> writeJSON 200 (NeighborsBody i ns))))"

definition handleLocate :: "server \<Rightarrow> http_request \<Rightarrow> api_state \<Rightarrow> response" where
  "handleLocate S r s =
     (if \<not> sv_spans S then fail 503 ''ingest unavailable''
      else if sv_src S = None then fail 503 ''source unavailable''
      else (case parseWindowQuery r of
              Inl e \<Rightarrow> fail 400 e
            | Inr (n, service) \<Rightarrow> writeJSON 200 (LocateBody (Bind (sv_src S) (pgListTraceWindow n service (as_spans s))))))"

definition no_graph :: graph_snapshot where
  "no_graph = \<lparr>gs_entry_by_span = Map.empty, gs_entry_routes = [], gs_services = [], gs_edges = [], gs_paths = [], gs_span_count = 0, gs_trace_count = 0\<rparr>"

definition handleImpact :: "api_env \<Rightarrow> server \<Rightarrow> http_request \<Rightarrow> api_state \<Rightarrow> response" where
  "handleImpact A S r s =
     (case sv_src S of
        None \<Rightarrow> fail 503 ''source unavailable''
      | Some g \<Rightarrow>
          (case readLimited (MaxBytes + 1) r of
             None \<Rightarrow> fail 400 ''invalid diff''
           | Some raw \<Rightarrow>
               if length raw > MaxBytes then fail 400 ''diff too large''
               else if raw \<noteq> [] \<and> \<not> utf8_valid raw then fail 400 ''invalid diff''
               else (case Parse raw of
                       Inl _ \<Rightarrow> fail 400 ''invalid diff''
                     | Inr parsed \<Rightarrow>
                         if trim_space raw \<noteq> [] \<and> parsed = [] then fail 400 ''no file headers in diff''
                         else (case parseWindowQuery r of
                                 Inl e \<Rightarrow> fail 400 e
                               | Inr (n, service) \<Rightarrow>
                                   (let spans = pgListTraceWindow n service (as_spans s);
                                        (loc, rt) = (if sv_spans S then (Bind (Some g) spans, Build spans) else (empty_locate, no_graph))
                                    in writeJSON 200 (ImpactBody (Analyze (ae_iter A) (Some g) parsed loc rt)))))))"

section \<open>Runs\<close>

definition runErrorText :: "run_error \<Rightarrow> string" where
  "runErrorText e = (case e of RunErrorf m \<Rightarrow> m | RunNotFound \<Rightarrow> ''runs: not found'' | RunEvidence (Errorf m) \<Rightarrow> m)"

definition summaryFrom :: "run_record \<Rightarrow> run_created" where
  "summaryFrom rec =
     \<lparr>rc_attested_by = ''client'', rc_id = rr_id rec, rc_overall = rr_overall rec, rc_blockers = rr_blockers rec,
      rc_validated = rr_validated rec, rc_artifact_digest = rr_artifact_digest rec, rc_baseline_sha = rr_baseline_sha rec,
      rc_dirty = rr_dirty rec, rc_service = rr_service rec\<rparr>"

definition unearned :: "run_record \<Rightarrow> bool" where
  "unearned rec = (rr_validated rec \<and> rr_overall rec \<noteq> ''match'')"

definition artifactRecord :: "artifact \<Rightarrow> run_record" where
  "artifactRecord a =
     \<lparr>rr_id = [], rr_recorded = 0, rr_service = [], rr_baseline_sha = [], rr_dirty = False, rr_workload_digest = [],
      rr_artifact_digest = [], rr_overall = [], rr_blockers = [], rr_validated = False, rr_artifact = Some a\<rparr>"

definition handleCreateRun :: "api_env \<Rightarrow> server \<Rightarrow> http_request \<Rightarrow> api_state \<Rightarrow> response \<times> api_state" where
  "handleCreateRun A S r s =
     (if \<not> sv_runs S then (fail 503 ''runs unavailable'', s)
      else (case readLimited (evidenceMaxBytes + 1) r of
              None \<Rightarrow> (fail 400 ''invalid artifact'', s)
            | Some raw \<Rightarrow>
                if length raw > evidenceMaxBytes then (fail 400 ''artifact too large'', s)
                else (case DecodeEvidence (ae_evidence A) (Some raw) of
                        Inl (Errorf m) \<Rightarrow> (fail 400 (''invalid artifact: '' @ apiClipQuery m 200), s)
                      | Inr a \<Rightarrow>
                          if ar_schema a \<noteq> SchemaV3 then (fail 400 ''legacy schema'', s)
                          else (case runPgInsert (ae_evidence A) (artifactRecord a) (as_runs s) of
                                  (res, rows) \<Rightarrow>
                                    (let s1 = s\<lparr>as_runs := rows\<rparr>
                                     in case res of
                                          Inl e \<Rightarrow>
                                            (if sublist ''id collision'' (runErrorText e) then fail 409 ''id collision'' else fail 500 ''store failed'', s1)
                                        | Inr rec \<Rightarrow>
                                            (if unearned rec then fail 500 ''store failed'' else writeJSON 200 (RunCreatedBody (summaryFrom rec)), s1))))))"

definition handleListRuns :: "api_env \<Rightarrow> server \<Rightarrow> http_request \<Rightarrow> api_state \<Rightarrow> response" where
  "handleListRuns A S r s =
     (if \<not> sv_runs S then fail 503 ''runs unavailable''
      else (case limitQuery r 20 of
              None \<Rightarrow> fail 400 ''invalid limit''
            | Some limit \<Rightarrow>
                (case runPgList (ae_evidence A) limit (ClipService (ht_query r ''service'')) (as_runs s) of
                   Inl _ \<Rightarrow> fail 500 ''store failed''
                 | Inr list \<Rightarrow> if list_ex unearned list then fail 500 ''store failed'' else writeJSON 200 (RunListBody (map summaryFrom list)))))"

definition handleGetRun :: "api_env \<Rightarrow> server \<Rightarrow> string \<Rightarrow> api_state \<Rightarrow> response" where
  "handleGetRun A S raw s =
     (if \<not> sv_runs S then fail 503 ''runs unavailable''
      else (case runNormalizeID raw of
              None \<Rightarrow> fail 400 ''invalid id''
            | Some i \<Rightarrow>
                (case runPgGet (ae_evidence A) i (as_runs s) of
                   Inl RunNotFound \<Rightarrow> fail 404 ''not found''
                 | Inl _ \<Rightarrow> fail 500 ''store failed''
                 | Inr rec \<Rightarrow>
                     if unearned rec then fail 500 ''store failed''
                     else (case rr_artifact rec of
                             None \<Rightarrow> fail 500 ''store failed''
                           | Some a \<Rightarrow> writeJSON 200 (RunGetBody ((summaryFrom rec)\<lparr>rc_service := []\<rparr>) a)))))"

section \<open>Jobs\<close>

definition maxJobBytes :: nat where
  "maxJobBytes = 2 ^ 20"

definition handleCreateJob :: "api_env \<Rightarrow> server \<Rightarrow> moment \<Rightarrow> http_request \<Rightarrow> api_state \<Rightarrow> response \<times> api_state" where
  "handleCreateJob A S m r s =
     (if \<not> sv_jobs S then (fail 503 ''jobs unavailable'', s)
      else (case readLimited (maxJobBytes + 1) r of
              None \<Rightarrow> (fail 400 ''invalid job'', s)
            | Some raw \<Rightarrow>
                if length raw > maxJobBytes then (fail 400 ''job too large'', s)
                else (case ae_job_opts A raw of
                        None \<Rightarrow> (fail 400 ''invalid job'', s)
                      | Some opts \<Rightarrow>
                          (case pg_create (ae_net A) (mo_validate m) (mo_build m) (mo_now m) (mo_id m) opts (as_jobs s) of
                             (res, p) \<Rightarrow>
                               (let s1 = s\<lparr>as_jobs := p\<rparr>
                                in case res of
                                     Inl e \<Rightarrow>
                                       (if e = ErrBusy then fail 409 ''gateway occupied''
                                        else if e = ErrQuota then fail 429 ''service quota exceeded''
                                        else fail 400 ''invalid job'', s1)
                                   | Inr job \<Rightarrow> (if jb_validated job then fail 500 ''store failed'' else writeJSON 200 (JobBody job), s1))))))"

text \<open>The limit of a list of jobs is read digit by digit, and wraps.\<close>

fun limitDigits :: "string \<Rightarrow> 64 word \<Rightarrow> 64 word" where
  "limitDigits [] n = n"
| "limitDigits (c # cs) n = (if \<not> is_digit c then 0 else limitDigits cs (n * 10 + of_nat (of_char c - 48)))"

definition handleListJobs :: "api_env \<Rightarrow> server \<Rightarrow> http_request \<Rightarrow> api_state \<Rightarrow> response" where
  "handleListJobs A S r s =
     (if \<not> sv_jobs S then fail 503 ''jobs unavailable''
      else (let n = sint (limitDigits (ht_query r ''limit'') 0); limit = (if n > 0 then n else 20)
            in writeJSON 200 (JobListBody (pg_list (ae_net A) limit (ClipService (ht_query r ''service'')) (as_jobs s)))))"

definition handleGetJob :: "api_env \<Rightarrow> server \<Rightarrow> string \<Rightarrow> api_state \<Rightarrow> response" where
  "handleGetJob A S raw s =
     (if \<not> sv_jobs S then fail 503 ''jobs unavailable''
      else (case pg_get (ae_net A) raw (as_jobs s) of
              Inl e \<Rightarrow> if e = ErrNotFound then fail 404 ''not found'' else fail 400 ''invalid id''
            | Inr job \<Rightarrow> writeJSON 200 (JobBody job)))"

definition handleCancelJob :: "api_env \<Rightarrow> server \<Rightarrow> string \<Rightarrow> api_state \<Rightarrow> response \<times> api_state" where
  "handleCancelJob A S raw s =
     (if \<not> sv_jobs S then (fail 503 ''jobs unavailable'', s)
      else (case pg_cancel (ae_net A) raw (as_jobs s) of
              (res, p) \<Rightarrow>
                (case res of
                   Inl e \<Rightarrow> if e = ErrNotFound then fail 404 ''not found'' else fail 400 ''invalid id''
                 | Inr job \<Rightarrow> writeJSON 200 (JobBody job),
                 s\<lparr>as_jobs := p\<rparr>)))"

section \<open>Routes\<close>

definition handleReadyz :: "server \<Rightarrow> response" where
  "handleReadyz S =
     (case sv_ready S of
        None \<Rightarrow> writeJSON 503 (StatusBody ''unavailable'' ''readiness checker is not configured'')
      | Some ok \<Rightarrow> if ok then writeJSON 200 (StatusBody ''ready'' []) else writeJSON 503 (StatusBody ''unavailable'' ''postgres unreachable''))"

datatype endpoint =
    EpHealthz | EpReadyz | EpVersion | EpMetrics | EpTraces | EpListSpans | EpAttaches | EpGraph | EpSource | EpNeighbors | EpLocate
  | EpImpact | EpCreateRun | EpListRuns | EpGetRun string | EpCreateJob | EpListJobs | EpGetJob string | EpCancelJob string

text \<open>The patterns of \<open>NewServer\<close> that match a path, with their methods.\<close>

definition routes :: "string \<Rightarrow> (string \<times> endpoint) list" where
  "routes path =
     (if path = ''/healthz'' then [(''GET'', EpHealthz)]
      else if path = ''/readyz'' then [(''GET'', EpReadyz)]
      else if path = ''/version'' then [(''GET'', EpVersion)]
      else if path = ''/metrics'' then [(''GET'', EpMetrics)]
      else if path = ''/v1/traces'' then [(''POST'', EpTraces)]
      else if path = ''/v1/spans'' then [(''GET'', EpListSpans)]
      else if path = ''/v1/attaches'' then [(''GET'', EpAttaches)]
      else if path = ''/v1/graph'' then [(''GET'', EpGraph)]
      else if path = ''/v1/source'' then [(''GET'', EpSource)]
      else if path = ''/v1/source/neighbors'' then [(''GET'', EpNeighbors)]
      else if path = ''/v1/locate'' then [(''GET'', EpLocate)]
      else if path = ''/v1/impact'' then [(''POST'', EpImpact)]
      else if path = ''/v1/runs'' then [(''POST'', EpCreateRun), (''GET'', EpListRuns)]
      else if path = ''/v1/jobs'' then [(''POST'', EpCreateJob), (''GET'', EpListJobs)]
      else (case split_on CHR ''/'' path of
              [e, v1, kind, i] \<Rightarrow>
                if e = [] \<and> v1 = ''v1'' \<and> i \<noteq> []
                then (if kind = ''runs'' then [(''GET'', EpGetRun i)] else if kind = ''jobs'' then [(''GET'', EpGetJob i)] else [])
                else []
            | [e, v1, kind, i, act] \<Rightarrow>
                if e = [] \<and> v1 = ''v1'' \<and> kind = ''jobs'' \<and> i \<noteq> [] \<and> act = ''cancel'' then [(''POST'', EpCancelJob i)] else []
            | _ \<Rightarrow> []))"

fun dispatch :: "api_env \<Rightarrow> server \<Rightarrow> moment \<Rightarrow> endpoint \<Rightarrow> http_request \<Rightarrow> api_state \<Rightarrow> response \<times> api_state" where
  "dispatch A S m EpHealthz r s = (writeJSON 200 (StatusBody ''ok'' []), s)"
| "dispatch A S m EpReadyz r s = (handleReadyz S, s)"
| "dispatch A S m EpVersion r s = (writeJSON 200 (VersionBody ''aquila'' (ae_version A)), s)"
| "dispatch A S m EpMetrics r s = (writeJSON 200 (TextBody (metricsText (as_metrics s))), s)"
| "dispatch A S m EpTraces r s = handleOTLPTraces A S r s"
| "dispatch A S m EpListSpans r s = (handleListSpans S r s, s)"
| "dispatch A S m EpAttaches r s = (handleListAttaches S r s, s)"
| "dispatch A S m EpGraph r s = (handleGraph S r s, s)"
| "dispatch A S m EpSource r s = (handleSource S, s)"
| "dispatch A S m EpNeighbors r s = (handleSourceNeighbors S r, s)"
| "dispatch A S m EpLocate r s = (handleLocate S r s, s)"
| "dispatch A S m EpImpact r s = (handleImpact A S r s, s)"
| "dispatch A S m EpCreateRun r s = handleCreateRun A S r s"
| "dispatch A S m EpListRuns r s = (handleListRuns A S r s, s)"
| "dispatch A S m (EpGetRun i) r s = (handleGetRun A S i s, s)"
| "dispatch A S m EpCreateJob r s = handleCreateJob A S m r s"
| "dispatch A S m EpListJobs r s = (handleListJobs A S r s, s)"
| "dispatch A S m (EpGetJob i) r s = (handleGetJob A S i s, s)"
| "dispatch A S m (EpCancelJob i) r s = handleCancelJob A S i s"

text \<open>\<open>http.ServeMux\<close>: an unclean path is redirected, a pattern with \<open>GET\<close> also serves \<open>HEAD\<close>.\<close>

definition muxClean :: "string \<Rightarrow> string" where
  "muxClean p =
     (let q = (if prefix ''/'' p then p else ''/'' @ p); np = path_clean q
      in if q \<noteq> [] \<and> last q = CHR ''/'' \<and> np \<noteq> ''/'' then np @ ''/'' else np)"

definition route :: "http_request \<Rightarrow> endpoint option" where
  "route r = map_option snd (find (\<lambda>(meth, _). meth = ht_method r \<or> (meth = ''GET'' \<and> ht_method r = ''HEAD'')) (routes (ht_path r)))"

definition mux :: "api_env \<Rightarrow> server \<Rightarrow> moment \<Rightarrow> http_request \<Rightarrow> api_state \<Rightarrow> response \<times> api_state" where
  "mux A S m r s =
     (if muxClean (ht_path r) \<noteq> ht_path r then (writeJSON 301 MuxBody, s)
      else (case route r of
              Some e \<Rightarrow> dispatch A S m e r s
            | None \<Rightarrow> (writeJSON (if routes (ht_path r) = [] then 404 else 405) MuxBody, s)))"

definition serveHTTP :: "api_env \<Rightarrow> server \<Rightarrow> moment \<Rightarrow> http_request \<Rightarrow> api_state \<Rightarrow> response \<times> api_state" where
  "serveHTTP A S m r s = metricsWrap (withAuth A S (mux A S m) r s)"

text \<open>The process of \<open>cmd/server/main.go\<close>: what the configuration gives the server, and its stores at first.\<close>

definition serverFrom :: "config \<Rightarrow> bool \<Rightarrow> sgraph option \<Rightarrow> server" where
  "serverFrom c reachable src =
     \<lparr>sv_token = sc_token (cf_server c), sv_ingest_token = cf_ingest_token c, sv_ready = Some reachable, sv_spans = True, sv_src = src,
      sv_runs = True, sv_jobs = True\<rparr>"

definition freshState :: "config \<Rightarrow> api_state" where
  "freshState c =
     \<lparr>as_spans = [], as_runs = [],
      as_jobs = NewPostgres \<lparr>qt_active_jobs = wc_active_jobs (cf_worker c), qt_leased_tasks = wc_leased_tasks (cf_worker c)\<rparr>,
      as_metrics = NewMetrics\<rparr>"

end
