(* ===== verification/Api_Laws.thy ===== *)
theory Api_Laws
  imports Api
begin

text \<open>
  What the control plane keeps: requests, worker calls and the expiry of leases are the steps of \<open>server_step\<close>, and every
  reachable state has a safe job fabric, well-formed spans and checked runs. Requests without a token change nothing,
  and what a request stores can be read back.
\<close>

section \<open>Effects\<close>

definition same_data :: "api_state \<Rightarrow> api_state \<Rightarrow> bool" where
  "same_data s s' \<longleftrightarrow> as_spans s' = as_spans s \<and> as_runs s' = as_runs s \<and> as_jobs s' = as_jobs s"

lemma same_data_refl [simp]: "same_data s s"
  by (simp add: same_data_def)

text \<open>The ways in which the stores change.\<close>

inductive data_step :: "api_env \<Rightarrow> api_state \<Rightarrow> api_state \<Rightarrow> bool" for A where
  ds_same: "same_data s s' \<Longrightarrow> data_step A s s'"
| ds_spans: "as_spans s' = pgUpsertSpans (or_spans (NormalizeReport (ae_otlp A) (Some req))) (as_spans s) \<Longrightarrow>
    as_runs s' = as_runs s \<Longrightarrow> as_jobs s' = as_jobs s \<Longrightarrow> data_step A s s'"
| ds_runs: "as_runs s' = snd (runPgInsert (ae_evidence A) rec (as_runs s)) \<Longrightarrow>
    as_spans s' = as_spans s \<Longrightarrow> as_jobs s' = as_jobs s \<Longrightarrow> data_step A s s'"
| ds_jobs: "as_jobs s' = pg_step (ae_net A) op (as_jobs s) \<Longrightarrow>
    as_spans s' = as_spans s \<Longrightarrow> as_runs s' = as_runs s \<Longrightarrow> data_step A s s'"

lemma traces_step:
  "data_step A s (snd (handleOTLPTraces A S r s))"
  "\<not> ingestAuthorized A S r \<Longrightarrow> handleOTLPTraces A S r s = (fail 401 ''unauthorized'', s)"
proof -
  show "\<not> ingestAuthorized A S r \<Longrightarrow> handleOTLPTraces A S r s = (fail 401 ''unauthorized'', s)" by (simp add: handleOTLPTraces_def)
  let ?s' = "snd (handleOTLPTraces A S r s)"
  have "same_data s ?s' \<or> (\<exists>req. as_spans ?s' = pgUpsertSpans (or_spans (NormalizeReport (ae_otlp A) (Some req))) (as_spans s) \<and>
      as_runs ?s' = as_runs s \<and> as_jobs ?s' = as_jobs s)"
    unfolding handleOTLPTraces_def Let_def by (auto split: sum.splits body_error.splits)
  then show "data_step A s ?s'" using ds_same ds_spans by blast
qed

lemma run_step: "data_step A s (snd (handleCreateRun A S r s))"
proof -
  let ?s' = "snd (handleCreateRun A S r s)"
  have "same_data s ?s' \<or> (\<exists>rec. as_runs ?s' = snd (runPgInsert (ae_evidence A) rec (as_runs s)) \<and>
      as_spans ?s' = as_spans s \<and> as_jobs ?s' = as_jobs s)"
    unfolding handleCreateRun_def Let_def
    by (auto split: option.splits sum.splits error.splits prod.splits) (metis snd_conv)+
  then show ?thesis using ds_same ds_runs by blast
qed

lemma job_steps: "data_step A s (snd (handleCreateJob A S m r s))" "data_step A s (snd (handleCancelJob A S i s))"
proof -
  let ?s' = "snd (handleCreateJob A S m r s)"
  have "same_data s ?s' \<or> (\<exists>opts. as_jobs ?s' = pg_step (ae_net A) (OpCreate (mo_validate m) (mo_build m) (mo_now m) (mo_id m) [] opts) (as_jobs s) \<and>
      as_spans ?s' = as_spans s \<and> as_runs ?s' = as_runs s)"
    unfolding handleCreateJob_def Let_def by (auto split: option.splits sum.splits prod.splits) (metis snd_conv)+
  then show "data_step A s ?s'" using ds_same ds_jobs by blast
  have "same_data s (snd (handleCancelJob A S i s)) \<or> (as_jobs (snd (handleCancelJob A S i s)) = pg_step (ae_net A) (OpCancel i) (as_jobs s) \<and>
      as_spans (snd (handleCancelJob A S i s)) = as_spans s \<and> as_runs (snd (handleCancelJob A S i s)) = as_runs s)"
    unfolding handleCancelJob_def by (auto split: prod.splits)
  then show "data_step A s (snd (handleCancelJob A S i s))" using ds_same ds_jobs by blast
qed

lemma dispatch_step: "data_step A s (snd (dispatch A S m e r s))"
  by (cases e) (simp_all add: ds_same traces_step(1) run_step job_steps)

lemma mux_step: "data_step A s (snd (mux A S m r s))"
  by (simp add: mux_def ds_same dispatch_step split: option.split)

lemma wrap_data: "same_data (snd rs) (snd (metricsWrap rs))"
  by (cases rs) (simp add: metricsWrap_def same_data_def Let_def)

lemma data_step_wrap: "data_step A s (snd rs) \<Longrightarrow> data_step A s (snd (metricsWrap rs))"
  using wrap_data [of rs] unfolding same_data_def
  by (auto elim!: data_step.cases simp: same_data_def intro: data_step.intros)

lemma serve_data: "data_step A s (snd (serveHTTP A S m r s))"
  unfolding serveHTTP_def withAuth_def by (intro data_step_wrap) (simp add: mux_step ds_same)

section \<open>Reachable states\<close>

text \<open>The events of the server process: a request, a call of a worker, the expiry of leases.\<close>

inductive server_step :: "api_env \<Rightarrow> server \<Rightarrow> api_state \<Rightarrow> api_state \<Rightarrow> bool" for A S where
  on_request: "server_step A S s (snd (serveHTTP A S m r s))"
| on_call: "server_step A S s (s\<lparr>as_jobs := serve (ae_net A) (ae_sha256 A) (sv_token S) (auths, c) (as_jobs s)\<rparr>)"
| on_reap: "server_step A S s (s\<lparr>as_jobs := snd (pg_requeue (ae_net A) now (as_jobs s))\<rparr>)"

lemma serve_any: "serve E sha token (auths, c) p = p \<or> serve E sha token (auths, c) p = pg_step E (rpc_op c) p"
proof -
  have lease: "snd (grpcLease (Some (pg_worker E a)) now req p) = pg_step E (rpc_op (RpcLease req now a)) p" for req now a
    by (simp add: grpcLease_def pg_worker_def split: prod.splits sum.splits)
  have beat: "snd (grpcHeartbeat (Some (pg_worker E [])) now req p) = pg_step E (rpc_op (RpcHeartbeat req now)) p" for req now
    by (simp add: grpcHeartbeat_def pg_worker_def split: prod.splits option.splits)
  have commit: "snd (grpcCommit (Some (pg_worker E [])) req p) = pg_step E (rpc_op (RpcCommit req)) p" for req
    by (simp add: grpcCommit_def pg_worker_def split: prod.splits sum.splits)
  show ?thesis using lease beat commit by (cases c) (simp_all add: serverConn_def tokenInterceptor_def)
qed

lemma server_data: "server_step A S s s' \<Longrightarrow> data_step A s s'"
proof (induction rule: server_step.induct)
  case (on_call s auths c)
  then show ?case using serve_any [of "ae_net A" "ae_sha256 A" "sv_token S" auths c "as_jobs s"] by (auto intro: ds_jobs ds_same simp: same_data_def)
next
  case (on_reap s now)
  then show ?case by (intro ds_jobs [of _ _ "OpRequeue now []"]) simp_all
qed (rule serve_data)

definition server_inv :: "api_env \<Rightarrow> quota \<Rightarrow> api_state \<Rightarrow> bool" where
  "server_inv A q s \<longleftrightarrow>
     (\<exists>ops. as_jobs s = fold (pg_step (ae_net A)) ops (NewPostgres q)) \<and> rows_ok (as_spans s) \<and> list_all span_wf (as_spans s) \<and>
     Run_Store.rows_wf (ae_evidence A) (as_runs s) \<and> list_all row_legal (as_runs s)"

lemma span_time_le: "0 \<le> t \<Longrightarrow> 0 \<le> span_time t \<and> span_time t \<le> t"
  unfolding span_time_def minus_mod_eq_div_mult [symmetric] by (simp add: zmod_le_nonneg_dividend)

lemma span_row_wf:
  assumes "span_wf s"
  shows "span_wf (span_row s)"
proof -
  have "0 \<le> sp_start_time s" "sp_start_time s < 2 ^ 63" using assms unfolding span_wf_def by blast+
  then have "0 \<le> span_time (sp_start_time s)" "span_time (sp_start_time s) < 2 ^ 63" using span_time_le [of "sp_start_time s"] by simp_all
  moreover have "sp_http_status s = 0 \<or> 100 \<le> sp_http_status s \<and> sp_http_status s \<le> 599" using assms unfolding span_wf_def by blast
  then have "0 < sp_http_status s \<Longrightarrow> 100 \<le> sp_http_status s \<and> sp_http_status s \<le> 599" by auto
  ultimately show ?thesis using assms unfolding span_wf_def by (simp add: span_row_def)
qed

lemma upserts_wf: "list_all span_wf ss \<Longrightarrow> list_all span_wf rows \<Longrightarrow> list_all span_wf (pgUpsertSpans ss rows)"
proof (induction ss arbitrary: rows)
  case (Cons a ss)
  have "list_all span_wf (upsertRow a rows)" using Cons.prems span_row_wf [of a] by (auto simp: upsertRow_def list_all_iff)
  then show ?case using Cons by (simp add: pgUpsertSpans_def)
qed (simp add: pgUpsertSpans_def)

lemma insert_legal: "list_all row_legal rows \<Longrightarrow> list_all row_legal (snd (runPgInsert E rec rows))"
  unfolding runPgInsert_def by (auto split: sum.splits option.splits)

lemma data_step_inv:
  assumes "url_paths (ae_otlp A)" and "data_step A s s'" and "server_inv A q s"
  shows "server_inv A q s'"
  using assms(2,3)
proof (induction rule: data_step.induct)
  case (ds_spans s' req s)
  have "list_all span_wf (or_spans (NormalizeReport (ae_otlp A) (Some req)))" using NormalizeReport_ok [OF assms(1)] by (simp add: Let_def)
  then show ?case using ds_spans upserts_wf pgUpsertSpans_ok by (simp add: server_inv_def)
next
  case (ds_runs s' rec s)
  then show ?case using pg_runs.insert_inv insert_legal by (simp add: server_inv_def)
next
  case (ds_jobs s' op s)
  then obtain ops where "as_jobs s = fold (pg_step (ae_net A)) ops (NewPostgres q)" by (auto simp: server_inv_def)
  then have "as_jobs s' = fold (pg_step (ae_net A)) (ops @ [op]) (NewPostgres q)" using ds_jobs by simp
  then show ?case using ds_jobs unfolding server_inv_def by metis
qed (simp add: same_data_def server_inv_def)

definition configQuota :: "config \<Rightarrow> quota" where
  "configQuota c = \<lparr>qt_active_jobs = wc_active_jobs (cf_worker c), qt_leased_tasks = wc_leased_tasks (cf_worker c)\<rparr>"

lemma reachable_inv:
  assumes "url_paths (ae_otlp A)" and "(server_step A S)\<^sup>*\<^sup>* (freshState c) s"
  shows "server_inv A (configQuota c) s"
  using assms(2)
proof (induction rule: rtranclp_induct)
  case base
  have "as_jobs (freshState c) = fold (pg_step (ae_net A)) [] (NewPostgres (configQuota c))" by (simp add: freshState_def configQuota_def)
  then show ?case unfolding server_inv_def by (intro conjI exI) (assumption, simp_all add: freshState_def rows_ok_def Run_Store.rows_wf_def)
next
  case (step s s')
  then show ?case using data_step_inv [OF assms(1) server_data] by blast
qed

text \<open>A stored run: its artifact verifies, and its verdict is the decision on that artifact.\<close>

definition earned_row :: "evidence_env \<Rightarrow> run_row \<Rightarrow> bool" where
  "earned_row E w \<longleftrightarrow> Verify E (rw_artifact w) = None \<and> rw_validated w = dn_validated (Decision E (rw_artifact w)) \<and>
     (rw_validated w \<longrightarrow> rw_overall w = ''match'')"

lemma rows_earned: "Run_Store.rows_wf E rows \<Longrightarrow> list_all row_legal rows \<Longrightarrow> list_all (earned_row E) rows"
  using FromArtifact_Inr
  by (fastforce simp: Run_Store.rows_wf_def row_wf_def list_all_iff earned_row_def row_legal_def row_of_def)


section \<open>Tokens\<close>

lemma public_routes: "publicPath path \<Longrightarrow> routes path \<noteq> [] \<and> snd ` set (routes path) \<subseteq> {EpHealthz, EpReadyz, EpVersion}"
  unfolding publicPath_def by (elim insertE emptyE) (simp_all add: routes_def)

lemma find_in: "find P xs = Some x \<Longrightarrow> x \<in> set xs"
  by (induction xs) (auto split: if_splits)

lemma route_in: "route r = Some e \<Longrightarrow> e \<in> snd ` set (routes (ht_path r))"
proof -
  assume "route r = Some e"
  then obtain p where p: "find (\<lambda>(meth, _). meth = ht_method r \<or> (meth = ''GET'' \<and> ht_method r = ''HEAD'')) (routes (ht_path r)) = Some p" "e = snd p"
    unfolding route_def by auto
  have "p \<in> set (routes (ht_path r))" by (rule find_in [OF p(1)])
  then show ?thesis using p(2) by simp
qed

text \<open>
  C4: A request that presents neither the API token nor the ingest token leaves every store as it was, whatever it asks
  for, and is refused outside the three public paths. No token that is presented has the SHA-256 of a configured one.
\<close>

theorem unauthorized_no_effect:
  assumes "sv_token S \<noteq> []" and "sv_ingest_token S \<noteq> []"
    and "presentedApiToken r \<noteq> sv_token S" and "ht_header r ''X-Aquila-Ingest-Token'' \<noteq> sv_ingest_token S"
    and "inj_on (ae_sha256 A) {presentedApiToken r, sv_token S, ht_header r ''X-Aquila-Ingest-Token'', sv_ingest_token S}"
    and "serveHTTP A S m r s = (resp, s')"
  shows "same_data s s' \<and> (publicPath (ht_path r) \<or> re_status resp \<notin> {200..299})"
proof -
  have api: "\<not> apiAuthorized A S r" and ing: "\<not> ingestAuthorized A S r"
    using assms(1-4) inj_onD [OF assms(5)] by (auto simp: apiAuthorized_def ingestAuthorized_def)
  have mux: "same_data s (snd (mux A S m r s))" if "publicPath (ht_path r)"
  proof (cases "route r")
    case (Some e)
    then have "e \<in> {EpHealthz, EpReadyz, EpVersion}" using route_in public_routes [OF that] by blast
    then show ?thesis using Some by (auto simp: mux_def)
  qed (simp add: mux_def)
  have traces: "same_data s (snd (mux A S m r s)) \<and> re_status (fst (mux A S m r s)) \<notin> {200..299}" if "ht_path r = ''/v1/traces''"
  proof (cases "route r")
    case (Some e)
    then have "e = EpTraces" using route_in [OF Some] that by (simp add: routes_def)
    then show ?thesis using Some traces_step(2) [OF ing] by (simp add: mux_def fail_def writeJSON_def)
  qed (simp add: mux_def writeJSON_def)
  have wrap: "s' = snd (metricsWrap (withAuth A S (mux A S m) r s))" "resp = fst (withAuth A S (mux A S m) r s)"
    using assms(6) by (auto simp: serveHTTP_def metricsWrap_def Let_def split: prod.splits)
  have "same_data s (snd (withAuth A S (mux A S m) r s)) \<and> (publicPath (ht_path r) \<or> re_status (fst (withAuth A S (mux A S m) r s)) \<notin> {200..299})"
    using api mux traces by (simp add: withAuth_def fail_def writeJSON_def)
  then show ?thesis using wrap_data [of "withAuth A S (mux A S m) r s"] unfolding wrap by (auto simp: same_data_def)
qed

section \<open>A run of the server\<close>

definition demo_config :: config where
  "demo_config = defaults\<lparr>cf_server := (cf_server defaults)\<lparr>sc_token := ''s3cret''\<rparr>, cf_ingest_token := ''spans''\<rparr>"

definition demo_api :: api_env where
  "demo_api = \<lparr>ae_sha256 = (\<lambda>x. x), ae_gunzip = (\<lambda>_. Inl BodyInvalid), ae_otlp_json = (\<lambda>_. Some demo_export), ae_otlp_proto = (\<lambda>_. None),
     ae_job_opts = (\<lambda>_. Some (fabric_opts ''http://a:1'' ''http://b:2'')), ae_otlp = demo_otlp_env, ae_evidence = demo_env None,
     ae_net = demo_net, ae_iter = (\<lambda>xs. xs), ae_version = ''dev''\<rparr>"

definition demo_server :: server where
  "demo_server = serverFrom demo_config True None"

definition demo_moment :: moment where
  "demo_moment = \<lparr>mo_validate = 10, mo_build = 10, mo_now = 10, mo_id = ''aaaaaaaaaaaaaaaa''\<rparr>"

definition demo_request :: "string \<Rightarrow> string \<Rightarrow> string \<Rightarrow> http_request" where
  "demo_request meth path token = \<lparr>ht_method = meth, ht_path = path, ht_query = (\<lambda>_. []),
     ht_header = (\<lambda>h. if h = ''Content-Type'' then ''application/json'' else if h = ''X-Aquila-Ingest-Token'' then ''spans''
       else if h = ''Authorization'' then ''Bearer '' @ token else []), ht_body = Some ''{}''\<rparr>"

text \<open>A batch of spans and a job are posted with their tokens.\<close>

definition demo_state :: api_state where
  "demo_state = snd (serveHTTP demo_api demo_server demo_moment (demo_request ''POST'' ''/v1/jobs'' ''s3cret'')
     (snd (serveHTTP demo_api demo_server demo_moment (demo_request ''POST'' ''/v1/traces'' []) (freshState demo_config))))"

lemma demo_reachable: "(server_step demo_api demo_server)\<^sup>*\<^sup>* (freshState demo_config) demo_state"
  unfolding demo_state_def by (meson on_request rtranclp.rtrancl_into_rtrancl rtranclp.rtrancl_refl)

lemma demo_stored: "map sp_name (as_spans demo_state) = [''GET /cart'']" "map pr_id (pg_rows (as_jobs demo_state)) = [''aaaaaaaaaaaaaaaa'']"
  by code_simp+


theorem unauthorized_no_effect_witness:
  "\<exists>resp s'. serveHTTP demo_api demo_server demo_moment ((demo_request ''POST'' ''/v1/jobs'' ''guess'')\<lparr>ht_header := (\<lambda>_. [])\<rparr>) (freshState demo_config) = (resp, s') \<and>
     same_data (freshState demo_config) s' \<and> re_status resp \<notin> {200..299}"
proof -
  let ?r = "(demo_request ''POST'' ''/v1/jobs'' ''guess'')\<lparr>ht_header := (\<lambda>_. [])\<rparr>"
  obtain resp s' where run: "serveHTTP demo_api demo_server demo_moment ?r (freshState demo_config) = (resp, s')" by force
  have tok: "sv_token demo_server = ''s3cret''" "sv_ingest_token demo_server = ''spans''" "presentedApiToken ?r = []" "ht_header ?r h = []" for h
    by (simp_all add: demo_server_def serverFrom_def demo_config_def presentedApiToken_def bearerToken_def)
  have "\<not> publicPath (ht_path ?r)" by (simp add: demo_request_def publicPath_def)
  moreover have "same_data (freshState demo_config) s' \<and> (publicPath (ht_path ?r) \<or> re_status resp \<notin> {200..299})"
    by (rule unauthorized_no_effect [OF _ _ _ _ _ run]) (simp_all only: tok, simp_all add: demo_api_def)
  ultimately show ?thesis using run by blast
qed

end
