(* ===== verification/Git_Rev.thy ===== *)
theory Git_Rev
  imports Validate Go_Text
begin

text \<open>
  Git revisions, \<open>internal/gitrev\<close>: running git with a private index (\<open>snapshot.go\<close>), snapshots of a work tree or of a
  patch, pinning and comparing trees, materializing a tree (\<open>materialize.go\<close>) and the state of a work tree
  (\<open>gitrev.go\<close>). Git, the processes and the file system are the record \<open>git_env\<close> over an abstract world \<open>'w\<close>.
\<close>

section \<open>Calls\<close>

datatype git_error = GitErrorf string | GitExitError string int | ErrNotGit

record git_call =
  gc_env :: "string list"
  gc_dir :: string
  gc_args :: "string list"
  gc_input :: "string option"

text \<open>The outcome of \<open>cmd.Output\<close>: output; or output, exit code and standard error; or output of a process that did not exit.\<close>

datatype git_outcome = GitOK string | GitExit string int string | GitFail string

record 'w git_env =
  gv_environ :: "string list"
  gv_git :: "git_call \<Rightarrow> 'w \<Rightarrow> git_outcome \<times> 'w"
  gv_mkdir_temp :: "string \<Rightarrow> 'w \<Rightarrow> string option \<times> 'w"
  gv_remove_all :: "string \<Rightarrow> 'w \<Rightarrow> 'w"
  gv_lstat_size :: "'w \<Rightarrow> string \<Rightarrow> int option"
  gv_is_dir :: "'w \<Rightarrow> string \<Rightarrow> bool option"
  gv_abs :: "string \<Rightarrow> string option"
  gv_eval_symlinks :: "'w \<Rightarrow> string \<Rightarrow> string option"
  gv_mkdir :: "string \<Rightarrow> 'w \<Rightarrow> bool \<times> 'w"
  gv_mkdir_all :: "string \<Rightarrow> 'w \<Rightarrow> bool \<times> 'w"
  gv_open_excl :: "string \<Rightarrow> nat \<Rightarrow> 'w \<Rightarrow> bool \<times> 'w"
  gv_chmod :: "string \<Rightarrow> nat \<Rightarrow> 'w \<Rightarrow> bool \<times> 'w"
  gv_close :: "string \<Rightarrow> 'w \<Rightarrow> bool \<times> 'w"
  gv_batch_start :: "git_call \<Rightarrow> 'w \<Rightarrow> bool \<times> 'w"
  gv_batch_write :: "string \<Rightarrow> 'w \<Rightarrow> bool \<times> 'w"
  gv_batch_line :: "'w \<Rightarrow> string option \<times> 'w"
  gv_batch_copy :: "string \<Rightarrow> int \<Rightarrow> 'w \<Rightarrow> bool \<times> 'w"
  gv_batch_byte :: "'w \<Rightarrow> char option \<times> 'w"
  gv_batch_kill :: "'w \<Rightarrow> 'w"
  gv_batch_wait :: "'w \<Rightarrow> bool \<times> 'w"

text \<open>\<open>x, err := m; if err != nil { return err }\<close> and what follows.\<close>

definition gbind :: "('w \<Rightarrow> (git_error + 'a) \<times> 'w) \<Rightarrow> ('a \<Rightarrow> 'w \<Rightarrow> (git_error + 'b) \<times> 'w) \<Rightarrow> 'w \<Rightarrow> (git_error + 'b) \<times> 'w" where
  "gbind m f w = (case m w of (Inl e, w1) \<Rightarrow> (Inl e, w1) | (Inr x, w1) \<Rightarrow> f x w1)"

definition gret :: "'a \<Rightarrow> 'w \<Rightarrow> (git_error + 'a) \<times> 'w" where
  "gret x w = (Inr x, w)"

definition gfail :: "string \<Rightarrow> 'w \<Rightarrow> (git_error + 'a) \<times> 'w" where
  "gfail e w = (Inl (GitErrorf e), w)"

definition gcall :: "string \<Rightarrow> ('w \<Rightarrow> bool \<times> 'w) \<Rightarrow> 'w \<Rightarrow> (git_error + unit) \<times> 'w" where
  "gcall e op w = (case op w of (True, w1) \<Rightarrow> (Inr (), w1) | (False, w1) \<Rightarrow> (Inl (GitErrorf e), w1))"

definition maxCopyBytes :: int where
  "maxCopyBytes = 80 * 2 ^ 20"

definition maxDiffBytes :: nat where
  "maxDiffBytes = 2 ^ 20"

record repo =
  rp_root :: string
  rp_rel :: string

definition droppedEnv :: "string list" where
  "droppedEnv = [''GIT_INDEX_FILE'', ''GIT_OPTIONAL_LOCKS'', ''GIT_LITERAL_PATHSPECS'', ''GIT_GLOB_PATHSPECS'', ''GIT_NOGLOB_PATHSPECS'', ''GIT_ICASE_PATHSPECS'']"

definition command :: "'w git_env \<Rightarrow> repo \<Rightarrow> string \<Rightarrow> string option \<Rightarrow> string list \<Rightarrow> git_call" where
  "command G r index input args =
     \<lparr>gc_env = filter (\<lambda>v. takeWhile (\<lambda>c. c \<noteq> CHR ''='') v \<notin> set droppedEnv) (gv_environ G) @
         [''GIT_OPTIONAL_LOCKS=0'', ''GIT_LITERAL_PATHSPECS=1''] @ (if index \<noteq> [] then [''GIT_INDEX_FILE='' @ index] else []),
      gc_dir = rp_root r, gc_args = args, gc_input = input\<rparr>"

text \<open>The subcommand that an error of \<open>run\<close> names: the arguments after leading \<open>-c\<close> options.\<close>

fun runLabel :: "string list \<Rightarrow> string \<Rightarrow> string" where
  "runLabel (a # b # c # rest) label = (if a = ''-c'' then runLabel (c # rest) c else label)"
| "runLabel args label = label"

text \<open>\<open>Repo.run\<close> returns the output also when it returns an error.\<close>

definition gitRunOut :: "'w git_env \<Rightarrow> repo \<Rightarrow> string \<Rightarrow> string option \<Rightarrow> string list \<Rightarrow> 'w \<Rightarrow> (string \<times> git_error option) \<times> 'w" where
  "gitRunOut G r index input args w =
     (let label = runLabel args (hd args)
      in case gv_git G (command G r index input args) w of
           (GitOK out, w1) \<Rightarrow> ((out, None), w1)
         | (GitExit out code stderr, w1) \<Rightarrow>
             (let detail = take 512 (trim_space stderr)
              in ((out, Some (GitExitError (''gitrev: '' @ label @ (if detail \<noteq> [] then '': '' @ detail else [])) code)), w1))
         | (GitFail out, w1) \<Rightarrow> ((out, Some (GitErrorf (''gitrev: '' @ label))), w1))"

definition gitRun :: "'w git_env \<Rightarrow> repo \<Rightarrow> string \<Rightarrow> string option \<Rightarrow> string list \<Rightarrow> 'w \<Rightarrow> (git_error + string) \<times> 'w" where
  "gitRun G r index input args w =
     (case gitRunOut G r index input args w of ((out, None), w1) \<Rightarrow> (Inr out, w1) | ((out, Some e), w1) \<Rightarrow> (Inl e, w1))"

definition objectID :: "string \<Rightarrow> bool" where
  "objectID s = ((length s = 40 \<or> length s = 64) \<and> list_all is_hex s)"

section \<open>Revisions\<close>

definition subtree :: "'w git_env \<Rightarrow> repo \<Rightarrow> string \<Rightarrow> string \<Rightarrow> 'w \<Rightarrow> (git_error + string) \<times> 'w" where
  "subtree G r index root =
     (let spec = (if rp_rel r \<noteq> ''.'' then root @ '':'' @ rp_rel r else root @ ''^{tree}'')
      in gbind (gitRun G r index None [''rev-parse'', ''--verify'', spec]) (\<lambda>out. gret (trim_space out)))"

definition Head :: "'w git_env \<Rightarrow> repo \<Rightarrow> 'w \<Rightarrow> (git_error + revision) \<times> 'w" where
  "Head G r =
     gbind (gitRun G r [] None [''rev-parse'', ''--verify'', ''HEAD^{commit}'']) (\<lambda>commit.
     gbind (subtree G r [] (trim_space commit)) (\<lambda>tree.
       gret \<lparr>rev_commit = trim_space commit, rev_tree = tree, rev_path = rp_rel r, rev_dirty = False, rev_source = ''declared''\<rparr>))"

fun settingsLoop :: "'w git_env \<Rightarrow> repo \<Rightarrow> (string \<times> string list) list \<Rightarrow> 'w \<Rightarrow> (git_error + unit) \<times> 'w" where
  "settingsLoop G r [] w = (Inr (), w)"
| "settingsLoop G r ((key, args) # ks) w =
     (case gitRun G r [] None args w of
        (Inl (GitExitError e code), w1) \<Rightarrow> if code = 1 then settingsLoop G r ks w1 else (Inl (GitExitError e code), w1)
      | (Inl e, w1) \<Rightarrow> (Inl e, w1)
      | (Inr value, w1) \<Rightarrow>
          if to_lower (trim_space value) \<noteq> ''false'' then (Inl (GitErrorf (''gitrev: snapshot: '' @ key @ '' unsupported'')), w1)
          else settingsLoop G r ks w1)"

definition checkSettings :: "'w git_env \<Rightarrow> repo \<Rightarrow> 'w \<Rightarrow> (git_error + unit) \<times> 'w" where
  "checkSettings G r =
     settingsLoop G r
       [(''core.autocrlf'', [''config'', ''--type=bool-or-str'', ''--get'', ''core.autocrlf'']),
        (''core.sparseCheckout'', [''config'', ''--bool'', ''--get'', ''core.sparseCheckout''])]"

text \<open>The triples of \<open>check-attr -z\<close>, with the maps of \<open>text\<close> and \<open>eol\<close> attributes read so far.\<close>

fun attrLoop :: "string list \<Rightarrow> (string \<Rightarrow> string) \<Rightarrow> (string \<Rightarrow> string) \<Rightarrow> git_error + ((string \<Rightarrow> string) \<times> (string \<Rightarrow> string))" where
  "attrLoop (name # attr # value # rest) texts eols =
     (if attr = ''text'' then attrLoop rest (texts(name := value)) eols
      else (let eols' = (if attr = ''eol'' then eols(name := value) else eols)
            in if attr = ''eol'' \<and> value \<noteq> ''crlf'' then attrLoop rest texts eols'
               else if value = ''unspecified'' \<or> value = ''unset'' then attrLoop rest texts eols'
               else if attr = ''filter'' then Inl (GitErrorf (''gitrev: snapshot: filters unsupported: '' @ name))
               else Inl (GitErrorf (''gitrev: snapshot: transforming attribute '' @ attr @ '' on '' @ name))))"
| "attrLoop _ texts eols = Inr (texts, eols)"

text \<open>The records of \<open>ls-files --eol -z\<close>: the first file whose CRLF bytes git would normalize.\<close>

definition wouldNormalize :: "(string \<Rightarrow> string) \<Rightarrow> (string \<Rightarrow> string) \<Rightarrow> string \<Rightarrow> bool" where
  "wouldNormalize texts eols rec =
     (case cut (CHR 0x09) rec of
        None \<Rightarrow> False
      | Some (header, name) \<Rightarrow>
          (let columns = str_fields header
           in if length columns < 2 \<or> columns ! 1 \<noteq> ''w/crlf'' \<and> columns ! 1 \<noteq> ''w/mixed'' then False
              else \<not> (texts name = ''unset'' \<or> texts name = ''unspecified'' \<and> eols name \<noteq> ''lf'')))"

definition checkAttributes :: "'w git_env \<Rightarrow> repo \<Rightarrow> string \<Rightarrow> bool \<Rightarrow> 'w \<Rightarrow> (git_error + unit) \<times> 'w" where
  "checkAttributes G r index cached =
     gbind (gitRun G r index None [''ls-files'', ''-z'', ''--cached'', ''--others'', ''--exclude-standard'', ''--'', rp_rel r]) (\<lambda>paths.
     gbind (gitRun G r index (Some paths) ([''check-attr'', ''-z'', ''--stdin'', ''filter'', ''text'', ''eol'', ''ident'', ''working-tree-encoding''] @
         (if cached then [''--cached''] else []))) (\<lambda>attrs w1.
       case attrLoop (split_on (CHR 0x00) (trim_suffix [CHR 0x00] attrs)) (\<lambda>_. []) (\<lambda>_. []) of
         Inl e \<Rightarrow> (Inl e, w1)
       | Inr (texts, eols) \<Rightarrow>
           if cached then (Inr (), w1)
           else gbind (gitRun G r index None [''ls-files'', ''--eol'', ''-z'', ''--cached'', ''--others'', ''--exclude-standard'', ''--'', rp_rel r])
                  (\<lambda>out. if list_ex (wouldNormalize texts eols) (split_on (CHR 0x00) out)
                          then gfail ''gitrev: snapshot: would normalize CRLF bytes'' else gret ()) w1))"

fun untrackedLoop :: "'w git_env \<Rightarrow> repo \<Rightarrow> string list \<Rightarrow> int \<Rightarrow> 'w \<Rightarrow> git_error option" where
  "untrackedLoop G r [] acc w = None"
| "untrackedLoop G r (p # ps) acc w =
     (if p = [] then untrackedLoop G r ps acc w
      else (case gv_lstat_size G w (path_clean (rp_root r @ ''/'' @ p)) of
              None \<Rightarrow> Some (GitErrorf ''gitrev: snapshot'')
            | Some n \<Rightarrow>
                if acc + n > maxCopyBytes then Some (GitErrorf ''gitrev: snapshot: untracked files exceed cap'')
                else untrackedLoop G r ps (acc + n) w))"

definition checkWorktree :: "'w git_env \<Rightarrow> repo \<Rightarrow> string \<Rightarrow> 'w \<Rightarrow> (git_error + unit) \<times> 'w" where
  "checkWorktree G r index =
     gbind (gitRun G r index None [''ls-files'', ''-z'', ''--others'', ''--exclude-standard'', ''--'', rp_rel r]) (\<lambda>raw w1.
       case untrackedLoop G r (split_on (CHR 0x00) raw) 0 w1 of
         Some e \<Rightarrow> (Inl e, w1)
       | None \<Rightarrow> checkAttributes G r index False w1)"

section \<open>Materializing a tree\<close>

record tree_entry =
  te_mode :: string
  te_blob :: string
  te_name :: string

definition safeTreePath :: "string \<Rightarrow> bool" where
  "safeTreePath name =
     (name \<noteq> [] \<and> name \<noteq> ''.'' \<and> \<not> prefix ''/'' name \<and> CHR 0x00 \<notin> set name \<and>
      list_all (\<lambda>part. part \<noteq> ''..'' \<and> part \<noteq> [] \<and> part \<noteq> ''.git'') (split_on CHR ''/'' name) \<and> path_clean name = name)"

fun parseEntries :: "string list \<Rightarrow> git_error + tree_entry list" where
  "parseEntries [] = Inr []"
| "parseEntries (line # lines) =
     (if line = [] then parseEntries lines
      else (case cut (CHR 0x09) line of
              None \<Rightarrow> Inl (GitErrorf ''gitrev: snapshot: invalid tree entry'')
            | Some (header, name) \<Rightarrow>
                (case str_fields header of
                   [mode, kind, blob] \<Rightarrow>
                     if (mode \<noteq> ''100644'' \<and> mode \<noteq> ''100755'') \<or> kind \<noteq> ''blob'' \<or> \<not> safeTreePath name
                     then Inl (GitErrorf (''gitrev: snapshot: unsupported entry '' @ name))
                     else (case parseEntries lines of
                             Inl e \<Rightarrow> Inl e
                           | Inr es \<Rightarrow> Inr (\<lparr>te_mode = mode, te_blob = blob, te_name = name\<rparr> # es))
                 | _ \<Rightarrow> Inl (GitErrorf ''gitrev: snapshot: invalid tree entry''))))"

definition entries :: "'w git_env \<Rightarrow> repo \<Rightarrow> string \<Rightarrow> string \<Rightarrow> 'w \<Rightarrow> (git_error + tree_entry list) \<times> 'w" where
  "entries G r index tree =
     (if \<not> objectID tree then gfail ''gitrev: materialize: invalid tree''
      else gbind (gitRun G r index None [''ls-tree'', ''-r'', ''-z'', ''--full-tree'', tree])
             (\<lambda>raw w1. (parseEntries (split_on (CHR 0x00) raw), w1)))"

text \<open>\<open>filepath.Rel\<close> on clean paths: what is left of both after their common segments.\<close>

fun strip_common :: "string list \<Rightarrow> string list \<Rightarrow> string list \<times> string list" where
  "strip_common (b # bs) (t # ts) = (if b = t then strip_common bs ts else (b # bs, t # ts))"
| "strip_common bs ts = (bs, ts)"

definition path_rel :: "string \<Rightarrow> string \<Rightarrow> string option" where
  "path_rel basepath targpath =
     (let base = path_clean basepath; targ = path_clean targpath
      in if targ = base then Some ''.''
         else (let base = (if base = ''.'' then [] else base)
               in if prefix ''/'' base \<noteq> prefix ''/'' targ then None
                  else (let (bs, ts) = strip_common (filter (\<lambda>s. s \<noteq> []) (split_on CHR ''/'' base)) (filter (\<lambda>s. s \<noteq> []) (split_on CHR ''/'' targ))
                        in if bs \<noteq> [] \<and> hd bs = ''..'' then None
                           else Some (join ''/'' (replicate (length bs) ''..'' @ ts)))))"

definition outside :: "string \<Rightarrow> bool" where
  "outside rel = (rel = ''..'' \<or> prefix ''../'' rel)"

definition path_dir :: "string \<Rightarrow> string" where
  "path_dir p = path_clean (rev (dropWhile (\<lambda>c. c \<noteq> CHR ''/'') (rev p)))"

text \<open>One turn of the loop of \<open>Materialize\<close>; \<open>acc\<close> is the number of bytes so far.\<close>

definition entryTarget :: "string \<Rightarrow> tree_entry \<Rightarrow> string" where
  "entryTarget dst e = path_clean (dst @ ''/'' @ te_name e)"

definition entryMode :: "tree_entry \<Rightarrow> nat" where
  "entryMode e = (if te_mode e = ''100755'' then 493 else 420)"

text \<open>Requests a blob and reads the size that git announces.\<close>

definition blobSize :: "'w git_env \<Rightarrow> tree_entry \<Rightarrow> int \<Rightarrow> 'w \<Rightarrow> (git_error + int) \<times> 'w" where
  "blobSize G e acc w =
     (case gv_batch_write G (te_blob e @ [newline]) w of
        (False, w1) \<Rightarrow> (Inl (GitErrorf ''gitrev: materialize''), w1)
      | (True, w1) \<Rightarrow>
          (case gv_batch_line G w1 of
             (None, w2) \<Rightarrow> (Inl (GitErrorf ''gitrev: materialize''), w2)
           | (Some header, w2) \<Rightarrow>
               (case str_fields header of
                  [name, kind, sz] \<Rightarrow>
                    if name \<noteq> te_blob e \<or> kind \<noteq> ''blob'' then (Inl (GitErrorf ''gitrev: materialize: invalid blob response''), w2)
                    else (case atoi sz of
                            None \<Rightarrow> (Inl (GitErrorf ''gitrev: materialize: tree exceeds cap''), w2)
                          | Some n \<Rightarrow>
                              if n < 0 \<or> n > maxCopyBytes - acc then (Inl (GitErrorf ''gitrev: materialize: tree exceeds cap''), w2)
                              else (Inr n, w2))
                | _ \<Rightarrow> (Inl (GitErrorf ''gitrev: materialize: invalid blob response''), w2))))"

text \<open>Creates the file, copies the contents of the blob into it and reads the newline after them.\<close>

definition writeEntry :: "'w git_env \<Rightarrow> string \<Rightarrow> nat \<Rightarrow> int \<Rightarrow> 'w \<Rightarrow> (git_error + unit) \<times> 'w" where
  "writeEntry G target mode n w =
     (case gv_mkdir_all G (path_dir target) w of
        (False, w1) \<Rightarrow> (Inl (GitErrorf ''gitrev: materialize''), w1)
      | (True, w1) \<Rightarrow>
          (case gv_open_excl G target mode w1 of
             (False, w2) \<Rightarrow> (Inl (GitErrorf ''gitrev: materialize''), w2)
           | (True, w2) \<Rightarrow>
               (case gv_chmod G target mode w2 of
                  (False, w3) \<Rightarrow> (Inl (GitErrorf ''gitrev: materialize''), snd (gv_close G target w3))
                | (True, w3) \<Rightarrow>
                    (let (copied, w4) = gv_batch_copy G target n w3; (closed, w5) = gv_close G target w4
                     in if \<not> copied \<or> \<not> closed then (Inl (GitErrorf ''gitrev: materialize''), w5)
                        else (case gv_batch_byte G w5 of
                                (None, w6) \<Rightarrow> (Inl (GitErrorf ''gitrev: materialize''), w6)
                              | (Some c, w6) \<Rightarrow>
                                  if c \<noteq> newline then (Inl (GitErrorf ''gitrev: materialize: invalid blob separator''), w6)
                                  else (Inr (), w6))))))"

definition copyEntry :: "'w git_env \<Rightarrow> string \<Rightarrow> tree_entry \<Rightarrow> int \<Rightarrow> 'w \<Rightarrow> (git_error + int) \<times> 'w" where
  "copyEntry G dst e acc =
     gbind (blobSize G e acc) (\<lambda>n.
       (case path_rel dst (entryTarget dst e) of
          None \<Rightarrow> gfail ''gitrev: materialize: path outside destination''
        | Some rel \<Rightarrow>
            if outside rel then gfail ''gitrev: materialize: path outside destination''
            else gbind (writeEntry G (entryTarget dst e) (entryMode e) n) (\<lambda>_. gret (acc + n))))"

fun copyLoop :: "'w git_env \<Rightarrow> string \<Rightarrow> tree_entry list \<Rightarrow> int \<Rightarrow> 'w \<Rightarrow> (git_error + int) \<times> 'w" where
  "copyLoop G dst [] acc w = (Inr acc, w)"
| "copyLoop G dst (e # es) acc w =
     (case copyEntry G dst e acc w of (Inl err, w1) \<Rightarrow> (Inl err, w1) | (Inr copied', w1) \<Rightarrow> copyLoop G dst es copied' w1)"

text \<open>
  \<open>Materialize\<close> with its deferred clean-up: the batch process is killed after an error and waited for, and the
  destination is removed again unless everything succeeded.
\<close>

definition Materialize :: "'w git_env \<Rightarrow> repo \<Rightarrow> string \<Rightarrow> string \<Rightarrow> 'w \<Rightarrow> (git_error + unit) \<times> 'w" where
  "Materialize G r tree dst =
     gbind (entries G r [] tree) (\<lambda>es.
     gbind (gcall ''gitrev: materialize'' (gv_mkdir G dst)) (\<lambda>_ w1.
       case gv_batch_start G (command G r [] None [''cat-file'', ''--batch'']) w1 of
         (False, w2) \<Rightarrow> (Inl (GitErrorf ''gitrev: materialize''), gv_remove_all G dst w2)
       | (True, w2) \<Rightarrow>
           (case copyLoop G dst es 0 w2 of
              (Inl e, w3) \<Rightarrow> (Inl e, gv_remove_all G dst (snd (gv_batch_wait G (gv_batch_kill G w3))))
            | (Inr _, w3) \<Rightarrow>
                (case gv_batch_wait G w3 of
                   (False, w4) \<Rightarrow> (Inl (GitErrorf ''gitrev: materialize''), gv_remove_all G dst w4)
                 | (True, w4) \<Rightarrow> (Inr (), w4)))))"

section \<open>Snapshots\<close>

text \<open>The private index of a snapshot, filled from the work tree or by a patch that may be relative to the module.\<close>

definition applyPatch :: "'w git_env \<Rightarrow> repo \<Rightarrow> string \<Rightarrow> string \<Rightarrow> 'w \<Rightarrow> (git_error + unit) \<times> 'w" where
  "applyPatch G r index raw w =
     (let args = [''apply'', ''--cached'', ''--whitespace=nowarn''];
          go = (\<lambda>args. gbind (gitRun G r index (Some raw) args) (\<lambda>_. checkAttributes G r index True))
      in case gitRun G r index (Some raw) (args @ [''--check'']) w of
           (Inr _, w1) \<Rightarrow> go args w1
         | (Inl e, w1) \<Rightarrow>
             if rp_rel r = ''.'' then (Inl e, w1)
             else (let args' = args @ [''--directory='' @ rp_rel r]
                   in case gitRun G r index (Some raw) (args' @ [''--check'']) w1 of
                        (Inl _, w2) \<Rightarrow> (Inl e, w2)
                      | (Inr _, w2) \<Rightarrow> go args' w2))"

definition fillIndex :: "'w git_env \<Rightarrow> repo \<Rightarrow> string \<Rightarrow> string option \<Rightarrow> 'w \<Rightarrow> (git_error + unit) \<times> 'w" where
  "fillIndex G r index patch =
     (case patch of
        None \<Rightarrow> gbind (checkWorktree G r index) (\<lambda>_. gbind (gitRun G r index None [''add'', ''-A'', ''--'', rp_rel r]) (\<lambda>_. gret ()))
      | Some raw \<Rightarrow> applyPatch G r index raw)"

definition snapshotIn :: "'w git_env \<Rightarrow> repo \<Rightarrow> revision \<Rightarrow> string option \<Rightarrow> string \<Rightarrow> 'w \<Rightarrow> (git_error + revision) \<times> 'w" where
  "snapshotIn G r head patch index =
     gbind (gitRun G r index None [''read-tree'', rev_commit head]) (\<lambda>_.
     gbind (fillIndex G r index patch) (\<lambda>_.
     gbind (gitRun G r index None [''write-tree'']) (\<lambda>root.
     gbind (subtree G r index (trim_space root)) (\<lambda>tree.
     gbind (entries G r index tree) (\<lambda>_.
     gbind (gitRun G r index None [''-c'', ''user.name=aquila'', ''-c'', ''user.email=aquila@localhost'', ''commit-tree'', ''-p'',
         rev_commit head, ''-m'', ''aquila snapshot '' @ rp_rel r, trim_space root]) (\<lambda>commit.
       gret \<lparr>rev_commit = trim_space commit, rev_tree = tree, rev_path = rp_rel r, rev_dirty = (tree \<noteq> rev_tree head),
             rev_source = ''declared''\<rparr>))))))"

definition gitSnapshot :: "'w git_env \<Rightarrow> repo \<Rightarrow> revision \<Rightarrow> string option \<Rightarrow> 'w \<Rightarrow> (git_error + revision) \<times> 'w" where
  "gitSnapshot G r head patch =
     (if \<not> objectID (rev_commit head) \<or> \<not> objectID (rev_tree head) \<or> rev_path head \<noteq> rp_rel r
      then gfail ''gitrev: snapshot: invalid baseline''
      else gbind (checkSettings G r) (\<lambda>_ w1.
             case gv_mkdir_temp G ''aquila-snap-'' w1 of
               (None, w2) \<Rightarrow> (Inl (GitErrorf ''gitrev: snapshot''), w2)
             | (Some tmp, w2) \<Rightarrow>
                 (case snapshotIn G r head patch (path_clean (tmp @ ''/index'')) w2 of (res, w3) \<Rightarrow> (res, gv_remove_all G tmp w3))))"

definition SnapshotWorktreeAt :: "'w git_env \<Rightarrow> repo \<Rightarrow> revision \<Rightarrow> 'w \<Rightarrow> (git_error + revision) \<times> 'w" where
  "SnapshotWorktreeAt G r head = gitSnapshot G r head None"

definition SnapshotDiffAt :: "'w git_env \<Rightarrow> repo \<Rightarrow> revision \<Rightarrow> string \<Rightarrow> 'w \<Rightarrow> (git_error + revision) \<times> 'w" where
  "SnapshotDiffAt G r head raw =
     (if raw = [] then gfail ''gitrev: snapshot: empty diff'' else gitSnapshot G r head (Some raw))"

definition SnapshotWorktree :: "'w git_env \<Rightarrow> repo \<Rightarrow> 'w \<Rightarrow> (git_error + revision) \<times> 'w" where
  "SnapshotWorktree G r = gbind (Head G r) (SnapshotWorktreeAt G r)"

definition SnapshotDiff :: "'w git_env \<Rightarrow> repo \<Rightarrow> string \<Rightarrow> 'w \<Rightarrow> (git_error + revision) \<times> 'w" where
  "SnapshotDiff G r raw =
     (if raw = [] then gfail ''gitrev: snapshot: empty diff'' else gbind (Head G r) (\<lambda>head. SnapshotDiffAt G r head raw))"

definition Pin :: "'w git_env \<Rightarrow> repo \<Rightarrow> revision \<Rightarrow> 'w \<Rightarrow> (git_error + unit) \<times> 'w" where
  "Pin G r v =
     (if \<not> objectID (rev_tree v) \<or> \<not> objectID (rev_commit v) then gfail ''gitrev: pin: invalid revision''
      else gbind (Head G r) (\<lambda>head.
             if rev_commit v = rev_commit head then gret ()
             else gbind (gitRun G r [] None [''update-ref'', ''refs/aquila/snapshots/'' @ rev_tree v, rev_commit v]) (\<lambda>_. gret ())))"

definition DiffTrees :: "'w git_env \<Rightarrow> repo \<Rightarrow> string \<Rightarrow> string \<Rightarrow> 'w \<Rightarrow> (git_error + string) \<times> 'w" where
  "DiffTrees G r a b =
     (if \<not> objectID a \<or> \<not> objectID b then gfail ''gitrev: diff: invalid object''
      else gbind (gitRun G r [] None [''diff'', ''--no-color'', ''--no-ext-diff'', a, b, ''--'', rp_rel r]) (\<lambda>out.
             if length out > maxDiffBytes then gfail ''gitrev: diff exceeds bytes'' else gret out))"

definition ReadBlob :: "'w git_env \<Rightarrow> repo \<Rightarrow> string \<Rightarrow> string \<Rightarrow> 'w \<Rightarrow> (git_error + string) \<times> 'w" where
  "ReadBlob G r tree name =
     (if \<not> objectID tree \<or> \<not> safeTreePath name then gfail ''gitrev: blob: invalid path or tree''
      else gitRun G r [] None [''cat-file'', ''blob'', tree @ '':'' @ name])"

section \<open>The state of a work tree\<close>

text \<open>A git process with the unchanged environment.\<close>

definition plainGit :: "'w git_env \<Rightarrow> string \<Rightarrow> string list \<Rightarrow> 'w \<Rightarrow> git_outcome \<times> 'w" where
  "plainGit G dir args = gv_git G \<lparr>gc_env = gv_environ G, gc_dir = dir, gc_args = args, gc_input = None\<rparr>"

definition showToplevel :: "'w git_env \<Rightarrow> string \<Rightarrow> 'w \<Rightarrow> string \<times> 'w" where
  "showToplevel G dir w =
     (case plainGit G dir [''rev-parse'', ''--show-toplevel''] w of (GitOK out, w1) \<Rightarrow> (trim_space out, w1) | (_, w1) \<Rightarrow> ([], w1))"

definition unbornHEAD :: "'w git_env \<Rightarrow> string \<Rightarrow> 'w \<Rightarrow> bool \<times> 'w" where
  "unbornHEAD G root w =
     (case plainGit G root [''symbolic-ref'', ''--quiet'', ''HEAD''] w of
        (GitOK ref, w1) \<Rightarrow>
          (case plainGit G root [''show-ref'', ''--verify'', ''--quiet'', trim_space ref] w1 of
             (GitExit out code stderr, w2) \<Rightarrow> (code = 1, w2)
           | (_, w2) \<Rightarrow> (False, w2))
      | (_, w1) \<Rightarrow> (False, w1))"

definition locateRepo :: "'w git_env \<Rightarrow> string \<Rightarrow> 'w \<Rightarrow> (git_error + repo) \<times> 'w" where
  "locateRepo G path0 w =
     (let path = (if trim_space path0 = [] then ''.'' else path0)
      in case gv_is_dir G w path of
           None \<Rightarrow> (Inl (GitErrorf ''gitrev''), w)
         | Some False \<Rightarrow> (Inl (GitErrorf ''gitrev: not a directory''), w)
         | Some True \<Rightarrow>
             (case gv_abs G path of
                None \<Rightarrow> (Inl (GitErrorf ''gitrev''), w)
              | Some abs0 \<Rightarrow>
                  (let abs = (case gv_eval_symlinks G w abs0 of None \<Rightarrow> abs0 | Some p \<Rightarrow> p)
                   in case showToplevel G abs w of
                        (toplevel, w1) \<Rightarrow>
                          if toplevel = [] then (Inl ErrNotGit, w1)
                          else (let root = (case gv_eval_symlinks G w1 toplevel of None \<Rightarrow> toplevel | Some p \<Rightarrow> p);
                                    rel = (case path_rel root abs of None \<Rightarrow> ''.'' | Some x \<Rightarrow> if x = [] then ''.'' else x)
                                in if rel \<noteq> ''.'' \<and> outside rel then (Inl ErrNotGit, w1)
                                   else (Inr \<lparr>rp_root = root, rp_rel = rel\<rparr>, w1)))))"

definition porcelainPath :: "string \<Rightarrow> string" where
  "porcelainPath line =
     (if length line < 4 then []
      else (let rest = trim_space (drop 3 line);
                rest = (case index_of '' -> '' rest of None \<Rightarrow> rest | Some i \<Rightarrow> drop (i + 4) rest);
                rest = trim_set ''\"'' rest
            in if rest = [] \<or> sublist ''..'' rest then [] else rest))"

definition maxChangedPrint :: nat where
  "maxChangedPrint = 20"

definition porcelainPaths :: "string \<Rightarrow> string list" where
  "porcelainPaths out = take maxChangedPrint (filter (\<lambda>p. p \<noteq> []) (map porcelainPath (split_on newline out)))"

definition statusArgs :: "string \<Rightarrow> string list" where
  "statusArgs rel = [''status'', ''--porcelain'', ''--untracked-files=all'', ''--'', rel]"

text \<open>\<open>State\<close> returns the commit and whether the directory has uncommitted changes.\<close>

definition gitState :: "'w git_env \<Rightarrow> string \<Rightarrow> 'w \<Rightarrow> (git_error + string \<times> bool) \<times> 'w" where
  "gitState G path w =
     (case locateRepo G path w of
        (Inl ErrNotGit, w1) \<Rightarrow> (Inr ([], False), w1)
      | (Inl e, w1) \<Rightarrow> (Inl e, w1)
      | (Inr r, w1) \<Rightarrow>
          gbind (\<lambda>w. case plainGit G (rp_root r) [''rev-parse'', ''HEAD''] w of
                        (GitOK out, w2) \<Rightarrow> (Inr (trim_space out), w2)
                      | (_, w2) \<Rightarrow> (case unbornHEAD G (rp_root r) w2 of
                                     (False, w3) \<Rightarrow> (Inl (GitErrorf ''gitrev: rev-parse''), w3)
                                   | (True, w3) \<Rightarrow> (Inr [], w3)))
            (\<lambda>sha w2. case plainGit G (rp_root r) (statusArgs (rp_rel r)) w2 of
                          (GitOK out, w3) \<Rightarrow> (Inr (sha, trim_space out \<noteq> []), w3)
                        | (_, w3) \<Rightarrow> (Inl (GitErrorf ''gitrev: status''), w3)) w1)"

definition ChangedPaths :: "'w git_env \<Rightarrow> string \<Rightarrow> 'w \<Rightarrow> (git_error + string list) \<times> 'w" where
  "ChangedPaths G path w =
     (case locateRepo G path w of
        (Inl ErrNotGit, w1) \<Rightarrow> (Inr [], w1)
      | (Inl e, w1) \<Rightarrow> (Inl e, w1)
      | (Inr r, w1) \<Rightarrow>
          (case plainGit G (rp_root r) (statusArgs (rp_rel r)) w1 of
             (GitOK out, w2) \<Rightarrow> (Inr (porcelainPaths out), w2)
           | (_, w2) \<Rightarrow> (Inl (GitErrorf ''gitrev: status''), w2)))"

text \<open>\<open>PlainDiff\<close>: the tracked changes, then one diff against the empty file for every untracked file.\<close>

fun untrackedDiffs :: "'w git_env \<Rightarrow> repo \<Rightarrow> string list \<Rightarrow> string \<Rightarrow> 'w \<Rightarrow> (git_error + string) \<times> 'w" where
  "untrackedDiffs G r [] raw w = (if length raw > maxDiffBytes then (Inl (GitErrorf ''gitrev: diff exceeds bytes''), w) else (Inr raw, w))"
| "untrackedDiffs G r (name # names) raw w =
     (if name = [] then untrackedDiffs G r names raw w
      else (case gitRunOut G r [] None [''diff'', ''--no-index'', ''--no-color'', ''--no-ext-diff'', ''--no-textconv'', ''--'', ''/dev/null'', name] w of
              ((part, err), w1) \<Rightarrow>
                if (case err of None \<Rightarrow> True | Some (GitExitError _ code) \<Rightarrow> code = 1 | Some _ \<Rightarrow> False)
                then (if length (raw @ part) > maxDiffBytes then (Inl (GitErrorf ''gitrev: diff exceeds bytes''), w1)
                      else untrackedDiffs G r names (raw @ part) w1)
                else (case err of Some e \<Rightarrow> (Inl e, w1) | None \<Rightarrow> (Inr raw, w1))))"

definition diffBase :: "'w git_env \<Rightarrow> repo \<Rightarrow> 'w \<Rightarrow> (git_error + string) \<times> 'w" where
  "diffBase G r w =
     (case gitRun G r [] None [''rev-parse'', ''--verify'', ''HEAD^{commit}''] w of
        (Inr base, w1) \<Rightarrow> (Inr base, w1)
      | (Inl e, w1) \<Rightarrow>
          (case unbornHEAD G (rp_root r) w1 of
             (False, w2) \<Rightarrow> (Inl e, w2)
           | (True, w2) \<Rightarrow> gitRun G r [] (Some []) [''hash-object'', ''-w'', ''-t'', ''tree'', ''--stdin''] w2))"

definition PlainDiff :: "'w git_env \<Rightarrow> repo \<Rightarrow> 'w \<Rightarrow> (git_error + string) \<times> 'w" where
  "PlainDiff G r =
     gbind (diffBase G r) (\<lambda>base.
     gbind (gitRun G r [] None [''diff'', ''--no-color'', ''--no-ext-diff'', ''--no-textconv'', trim_space base, ''--'', rp_rel r]) (\<lambda>raw.
     gbind (gitRun G r [] None [''ls-files'', ''-z'', ''--others'', ''--exclude-standard'', ''--'', rp_rel r]) (\<lambda>paths.
       untrackedDiffs G r (split_on (CHR 0x00) paths) raw)))"

end
