(* ===== verification/Git_Laws.thy ===== *)
theory Git_Laws
  imports Git_Rev Paths
begin

text \<open>
  What snapshots and materialized trees guarantee: a snapshot runs git with a private index only, and a tree that was
  materialized holds exactly the blobs of its entries, below its destination.
\<close>

section \<open>Calls of git\<close>

text \<open>\<open>log\<close> observes the calls of git that a world has seen.\<close>

definition git_log :: "'w git_env \<Rightarrow> ('w \<Rightarrow> git_call list) \<Rightarrow> bool" where
  "git_log G log \<longleftrightarrow>
     (\<forall>c w. log (snd (gv_git G c w)) = log w @ [c]) \<and> (\<forall>s w. log (snd (gv_mkdir_temp G s w)) = log w) \<and>
     (\<forall>s w. log (gv_remove_all G s w) = log w)"

text \<open>Every call that a step makes satisfies \<open>P\<close>.\<close>

definition calls :: "('w \<Rightarrow> git_call list) \<Rightarrow> (git_call \<Rightarrow> bool) \<Rightarrow> ('w \<Rightarrow> 'a \<times> 'w) \<Rightarrow> bool" where
  "calls log P m \<longleftrightarrow> (\<forall>w. \<exists>cs. log (snd (m w)) = log w @ cs \<and> list_all P cs)"

lemma calls_none: "(\<And>w. log (snd (m w)) = log w) \<Longrightarrow> calls log P m"
  unfolding calls_def by simp

lemma calls_gret [simp]: "calls log P (gret x)"
  by (rule calls_none) (simp add: gret_def)

lemma calls_gfail [simp]: "calls log P (gfail x)"
  by (rule calls_none) (simp add: gfail_def)

lemma callsD: "calls log P m \<Longrightarrow> m w = (x, w1) \<Longrightarrow> \<exists>cs. log w1 = log w @ cs \<and> list_all P cs"
  unfolding calls_def by (metis snd_conv)

text \<open>A step that goes on with what another step returned.\<close>

lemma calls_seq:
  assumes m: "calls log P m" and f: "\<And>x. calls log P (f x)"
  shows "calls log P (\<lambda>w. case m w of (x, w1) \<Rightarrow> f x w1)"
  unfolding calls_def
proof
  fix w
  obtain x w1 where r: "m w = (x, w1)" by force
  from callsD [OF m this] obtain as where as: "log w1 = log w @ as" "list_all P as" by blast
  obtain bs where bs: "log (snd (f x w1)) = log w1 @ bs" "list_all P bs" using f unfolding calls_def by blast
  show "\<exists>cs. log (snd (case m w of (x, w1) \<Rightarrow> f x w1)) = log w @ cs \<and> list_all P cs"
    using r as bs by (intro exI [of _ "as @ bs"]) simp
qed

lemma calls_pair [simp]: "calls log P (\<lambda>w. (x, w))" "calls log P (Pair x)"
  by (rule calls_none, simp)+

lemma calls_gbind:
  assumes m: "calls log P m" and f: "\<And>x. calls log P (f x)"
  shows "calls log P (gbind m f)"
proof -
  have eq: "gbind m f = (\<lambda>w. case m w of (x, w1) \<Rightarrow> (case x of Inl e \<Rightarrow> (\<lambda>w. (Inl e, w)) | Inr y \<Rightarrow> f y) w1)"
    by (rule ext) (simp add: gbind_def split: prod.splits sum.splits)
  have "calls log P (case x of Inl e \<Rightarrow> (\<lambda>w. (Inl e, w)) | Inr y \<Rightarrow> f y)" for x using f by (cases x) simp_all
  then show ?thesis unfolding eq by (rule calls_seq [OF m])
qed

lemma calls_gitRun:
  assumes "git_log G log" and "P (command G r index input args)"
  shows "calls log P (gitRun G r index input args)"
  unfolding calls_def
proof
  fix w
  obtain o0 w1 where c: "gv_git G (command G r index input args) w = (o0, w1)" by force
  have "log (snd (gv_git G (command G r index input args) w)) = log w @ [command G r index input args]"
    using assms(1) unfolding git_log_def by blast
  then have "log w1 = log w @ [command G r index input args]" using c by simp
  moreover have "snd (gitRun G r index input args w) = w1"
    using c by (simp add: gitRun_def gitRunOut_def Let_def split: git_outcome.splits)
  ultimately show "\<exists>cs. log (snd (gitRun G r index input args w)) = log w @ cs \<and> list_all P cs"
    using assms(2) by (intro exI [of _ "[command G r index input args]"]) simp
qed

text \<open>The index that a call of git works on.\<close>

definition index_files :: "git_call \<Rightarrow> string list" where
  "index_files c = filter (prefix ''GIT_INDEX_FILE='') (gc_env c)"

definition private_index :: "string \<Rightarrow> git_call \<Rightarrow> bool" where
  "private_index index c \<longleftrightarrow> index_files c = [''GIT_INDEX_FILE='' @ index] \<or> hd (gc_args c) = ''config'' \<and> index_files c = []"

lemma dropped_index_file: "prefix ''GIT_INDEX_FILE='' v \<Longrightarrow> takeWhile (\<lambda>c. c \<noteq> CHR ''='') v = ''GIT_INDEX_FILE''"
  by (auto simp: prefix_def)

lemma command_index: "index_files (command G r index input args) = (if index = [] then [] else [''GIT_INDEX_FILE='' @ index])"
proof -
  have "filter (prefix ''GIT_INDEX_FILE='') (filter (\<lambda>v. takeWhile (\<lambda>c. c \<noteq> CHR ''='') v \<notin> set droppedEnv) vs) = []" for vs
    using dropped_index_file by (fastforce simp: filter_empty_conv droppedEnv_def)
  then show ?thesis by (simp add: index_files_def command_def)
qed

lemma private_command [simp]: "index \<noteq> [] \<Longrightarrow> private_index index (command G r index input args)"
  by (simp add: private_index_def command_index)

lemma private_config [simp]: "private_index index (command G r [] input (''config'' # args))"
  unfolding private_index_def command_index by (simp add: command_def)

lemma run_private: "git_log G log \<Longrightarrow> index \<noteq> [] \<Longrightarrow> calls log (private_index index) (gitRun G r index input args)"
  by (rule calls_gitRun) simp_all

lemma settings_private:
  assumes log: "git_log G log"
  shows "calls log (private_index index) (checkSettings G r)"
proof -
  have "calls log (private_index index) (settingsLoop G r ks)" if "list_all (\<lambda>(key, args). \<exists>as. args = ''config'' # as) ks" for ks
    using that
  proof (induction ks)
    case Nil
    then show ?case by (intro calls_none) simp
  next
    case (Cons k ks)
    obtain key as where k: "k = (key, ''config'' # as)" using Cons.prems by auto
    let ?next = "\<lambda>x. case x of
        Inl (GitExitError e code) \<Rightarrow> if code = 1 then settingsLoop G r ks else (\<lambda>w. (Inl (GitExitError e code), w))
      | Inl e \<Rightarrow> (\<lambda>w. (Inl e, w))
      | Inr value \<Rightarrow> if to_lower (trim_space value) \<noteq> ''false'' then (\<lambda>w. (Inl (GitErrorf (''gitrev: snapshot: '' @ key @ '' unsupported'')), w))
          else settingsLoop G r ks"
    have "calls log (private_index index) (gitRun G r [] None (''config'' # as))" by (rule calls_gitRun [OF log]) simp
    moreover have "calls log (private_index index) (?next x)" for x
      using Cons by (auto split: sum.splits git_error.splits)
    ultimately have "calls log (private_index index) (\<lambda>w. case gitRun G r [] None (''config'' # as) w of (x, w1) \<Rightarrow> ?next x w1)"
      by (rule calls_seq)
    moreover have "settingsLoop G r (k # ks) = (\<lambda>w. case gitRun G r [] None (''config'' # as) w of (x, w1) \<Rightarrow> ?next x w1)"
      by (rule ext) (simp add: k split: prod.splits sum.splits git_error.splits)
    ultimately show ?case by simp
  qed
  then show ?thesis by (simp add: checkSettings_def)
qed

lemma attributes_private:
  assumes log: "git_log G log" and i: "index \<noteq> []"
  shows "calls log (private_index index) (checkAttributes G r index cached)"
proof -
  have "calls log (private_index index) (\<lambda>w1. case attrs of
         Inl e \<Rightarrow> (Inl e, w1)
       | Inr (texts, eols) \<Rightarrow>
           if cached then (Inr (), w1)
           else gbind (gitRun G r index None (as texts eols)) (\<lambda>out. if b texts eols out then gfail m else gret ()) w1)" for attrs as b m
    using log i by (cases attrs; cases cached) (auto intro!: calls_gbind run_private split: prod.splits)
  then show ?thesis unfolding checkAttributes_def using log i by (intro calls_gbind run_private)
qed

lemma worktree_private:
  assumes log: "git_log G log" and i: "index \<noteq> []"
  shows "calls log (private_index index) (checkWorktree G r index)"
proof -
  have "calls log (private_index index) (\<lambda>w1. case f w1 of Some e \<Rightarrow> (Inl e, w1) | None \<Rightarrow> checkAttributes G r index False w1)" for f
    using attributes_private [OF log i, of r False] unfolding calls_def
    by (auto split: option.splits)
  then show ?thesis unfolding checkWorktree_def using log i by (intro calls_gbind run_private)
qed

lemma patch_private:
  assumes log: "git_log G log" and i: "index \<noteq> []"
  shows "calls log (private_index index) (applyPatch G r index raw)"
proof -
  let ?run = "\<lambda>args. gitRun G r index (Some raw) args" and ?a = "[''apply'', ''--cached'', ''--whitespace=nowarn'']"
  let ?go = "\<lambda>args. gbind (?run args) (\<lambda>_. checkAttributes G r index True)"
  let ?retry = "\<lambda>e. \<lambda>w1. case ?run (?a @ [''--directory='' @ rp_rel r] @ [''--check'']) w1 of
      (x, w2) \<Rightarrow> (case x of Inl _ \<Rightarrow> (\<lambda>w. (Inl e, w)) | Inr _ \<Rightarrow> ?go (?a @ [''--directory='' @ rp_rel r])) w2"
  have go: "calls log (private_index index) (?go args)" for args
    using log i attributes_private [OF log i] by (intro calls_gbind run_private)
  have retry: "calls log (private_index index) (?retry e)" for e
    by (rule calls_seq [OF run_private [OF log i]]) (auto simp: go split: sum.splits)
  let ?next = "\<lambda>x. case x of Inr _ \<Rightarrow> ?go ?a | Inl e \<Rightarrow> if rp_rel r = ''.'' then (\<lambda>w. (Inl e, w)) else ?retry e"
  have "calls log (private_index index) (\<lambda>w. case ?run (?a @ [''--check'']) w of (x, w1) \<Rightarrow> ?next x w1)"
  proof (rule calls_seq [OF run_private [OF log i]])
    fix x :: "git_error + string"
    show "calls log (private_index index) (?next x)"
    proof (cases x)
      case (Inl e)
      show ?thesis
      proof (cases "rp_rel r = ''.''")
        case True
        show ?thesis unfolding Inl sum.case if_P [OF True] by (rule calls_pair)
      next
        case False
        show ?thesis unfolding Inl sum.case if_not_P [OF False] by (rule retry)
      qed
    next
      case (Inr y)
      show ?thesis unfolding Inr sum.case by (rule go)
    qed
  qed
  moreover have "applyPatch G r index raw = (\<lambda>w. case ?run (?a @ [''--check'']) w of (x, w1) \<Rightarrow> ?next x w1)"
    by (rule ext) (simp add: applyPatch_def Let_def split: prod.splits sum.splits)
  ultimately show ?thesis by simp
qed

lemma snapshotIn_private:
  assumes log: "git_log G log" and i: "index \<noteq> []"
  shows "calls log (private_index index) (snapshotIn G r head patch index)"
proof -
  have fill: "calls log (private_index index) (fillIndex G r index patch)"
    using log i worktree_private [OF log i] patch_private [OF log i]
    by (cases patch) (auto simp: fillIndex_def intro!: calls_gbind run_private)
  have sub: "calls log (private_index index) (subtree G r index root)" for root
    using log i by (auto simp: subtree_def Let_def intro!: calls_gbind run_private)
  have ents: "calls log (private_index index) (entries G r index tree)" for tree
    using log i by (auto simp: entries_def intro!: calls_gbind run_private)
  show ?thesis unfolding snapshotIn_def using log i fill sub ents by (intro calls_gbind run_private calls_gret)
qed

lemma snapshotIn_revision:
  assumes "snapshotIn G r head patch index w = (Inr v, w')"
  shows "rev_source v = ''declared''" "rev_path v = rp_rel r" "rev_dirty v \<longleftrightarrow> rev_tree v \<noteq> rev_tree head"
proof -
  have "rev_source v = ''declared'' \<and> rev_path v = rp_rel r \<and> (rev_dirty v \<longleftrightarrow> rev_tree v \<noteq> rev_tree head)"
    using assms unfolding snapshotIn_def
    by (auto simp: gbind_def gret_def split: prod.splits sum.splits)
  then show "rev_source v = ''declared''" "rev_path v = rp_rel r" "rev_dirty v \<longleftrightarrow> rev_tree v \<noteq> rev_tree head" by simp_all
qed


section \<open>Materialized trees\<close>

text \<open>
  What the loop of \<open>Materialize\<close> relies on. \<open>files\<close> are the modes and contents of the files of a world, \<open>pending\<close> is the
  output of \<open>cat-file --batch\<close> that was not read yet, and \<open>blob\<close> the contents of the blobs of the repository: a request
  is answered by a line with the name, the kind and the size of the blob, its contents and a newline, or by another line.
\<close>

definition batch_answer :: "(string \<rightharpoonup> string) \<Rightarrow> string \<Rightarrow> string \<Rightarrow> bool" where
  "batch_answer blob b s \<longleftrightarrow>
     (\<exists>h. newline \<notin> set h \<and>
        (case blob b of
           Some d \<Rightarrow> (\<exists>sz. s = h @ newline # d @ [newline] \<and> str_fields (h @ [newline]) = [b, ''blob'', sz] \<and> atoi sz = Some (int (length d)))
         | None \<Rightarrow> s = h @ [newline] \<and> (\<forall>sz. str_fields (h @ [newline]) \<noteq> [b, ''blob'', sz])))"

definition batch_laws :: "'w git_env \<Rightarrow> ('w \<Rightarrow> string \<rightharpoonup> nat \<times> string) \<Rightarrow> ('w \<Rightarrow> string) \<Rightarrow> (string \<rightharpoonup> string) \<Rightarrow> bool" where
  "batch_laws G files pending blob \<longleftrightarrow>
     (\<forall>b w ok w'. gv_batch_write G (b @ [newline]) w = (ok, w') \<longrightarrow>
        files w' = files w \<and> (ok \<longrightarrow> (\<exists>s. pending w' = pending w @ s \<and> batch_answer blob b s))) \<and>
     (\<forall>w l w'. gv_batch_line G w = (l, w') \<longrightarrow>
        files w' = files w \<and> (\<forall>x. l = Some x \<longrightarrow> (\<exists>h. x = h @ [newline] \<and> newline \<notin> set h \<and> pending w = x @ pending w'))) \<and>
     (\<forall>p n w ok w'. gv_batch_copy G p n w = (ok, w') \<longrightarrow>
        (\<forall>q. q \<noteq> p \<longrightarrow> files w' q = files w q) \<and>
        (ok \<longrightarrow> (\<exists>d. int (length d) = n \<and> pending w = d @ pending w' \<and> files w' p = map_option (\<lambda>(m, s). (m, s @ d)) (files w p)))) \<and>
     (\<forall>w c w'. gv_batch_byte G w = (c, w') \<longrightarrow> files w' = files w \<and> (\<forall>x. c = Some x \<longrightarrow> pending w = x # pending w')) \<and>
     (\<forall>c w ok w'. gv_batch_start G c w = (ok, w') \<longrightarrow> files w' = files w \<and> (ok \<longrightarrow> pending w' = [])) \<and>
     (\<forall>w ok w'. gv_batch_wait G w = (ok, w') \<longrightarrow> files w' = files w) \<and> (\<forall>w. files (gv_batch_kill G w) = files w)"

definition disk_laws :: "'w git_env \<Rightarrow> ('w \<Rightarrow> string \<rightharpoonup> nat \<times> string) \<Rightarrow> ('w \<Rightarrow> string) \<Rightarrow> bool" where
  "disk_laws G files pending \<longleftrightarrow>
     (\<forall>c w. files (snd (gv_git G c w)) = files w) \<and>
     (\<forall>d w ok w'. gv_mkdir G d w = (ok, w') \<longrightarrow> files w' = files w) \<and>
     (\<forall>d w ok w'. gv_mkdir_all G d w = (ok, w') \<longrightarrow> files w' = files w \<and> pending w' = pending w) \<and>
     (\<forall>p m w ok w'. gv_open_excl G p m w = (ok, w') \<longrightarrow>
        pending w' = pending w \<and> (if ok then files w p = None \<and> (\<exists>m'. files w' = (files w)(p \<mapsto> (m', []))) else files w' = files w)) \<and>
     (\<forall>p m w ok w'. gv_chmod G p m w = (ok, w') \<longrightarrow>
        pending w' = pending w \<and> (\<forall>q. q \<noteq> p \<longrightarrow> files w' q = files w q) \<and>
        (ok \<longrightarrow> files w' p = map_option (\<lambda>(_, s). (m, s)) (files w p))) \<and>
     (\<forall>p w ok w'. gv_close G p w = (ok, w') \<longrightarrow> files w' = files w \<and> pending w' = pending w) \<and>
     (\<forall>d w q. q \<noteq> d \<longrightarrow> \<not> prefix (d @ ''/'') q \<longrightarrow> files (gv_remove_all G d w) q = files w q)"

lemmas batch_write_law = batch_laws_def [THEN iffD1, THEN conjunct1, rule_format]
lemmas batch_line_law = batch_laws_def [THEN iffD1, THEN conjunct2, THEN conjunct1, rule_format]
lemmas batch_copy_law = batch_laws_def [THEN iffD1, THEN conjunct2, THEN conjunct2, THEN conjunct1, rule_format]
lemmas batch_byte_law = batch_laws_def [THEN iffD1, THEN conjunct2, THEN conjunct2, THEN conjunct2, THEN conjunct1, rule_format]
lemmas batch_start_law = batch_laws_def [THEN iffD1, THEN conjunct2, THEN conjunct2, THEN conjunct2, THEN conjunct2, THEN conjunct1, rule_format]
lemmas batch_wait_law = batch_laws_def [THEN iffD1, THEN conjunct2, THEN conjunct2, THEN conjunct2, THEN conjunct2, THEN conjunct2, THEN conjunct1, rule_format]
lemmas batch_kill_law = batch_laws_def [THEN iffD1, THEN conjunct2, THEN conjunct2, THEN conjunct2, THEN conjunct2, THEN conjunct2, THEN conjunct2, rule_format]
lemmas git_files_law = disk_laws_def [THEN iffD1, THEN conjunct1, rule_format]
lemmas mkdir_law = disk_laws_def [THEN iffD1, THEN conjunct2, THEN conjunct1, rule_format]
lemmas mkdir_all_law = disk_laws_def [THEN iffD1, THEN conjunct2, THEN conjunct2, THEN conjunct1, rule_format]
lemmas open_law = disk_laws_def [THEN iffD1, THEN conjunct2, THEN conjunct2, THEN conjunct2, THEN conjunct1, rule_format]
lemmas chmod_law = disk_laws_def [THEN iffD1, THEN conjunct2, THEN conjunct2, THEN conjunct2, THEN conjunct2, THEN conjunct1, rule_format]
lemmas close_law = disk_laws_def [THEN iffD1, THEN conjunct2, THEN conjunct2, THEN conjunct2, THEN conjunct2, THEN conjunct2, THEN conjunct1, rule_format]
lemmas remove_all_law = disk_laws_def [THEN iffD1, THEN conjunct2, THEN conjunct2, THEN conjunct2, THEN conjunct2, THEN conjunct2, THEN conjunct2, rule_format]

lemma line_front: "newline \<notin> set k \<Longrightarrow> takeWhile (\<lambda>c. c \<noteq> newline) (k @ newline # r) = k"
  by (induction k) auto

lemma blobSize_laws:
  assumes b: "batch_laws G files pending blob" and p: "pending w = []" and r: "blobSize G e acc w = (r, w')"
  shows "files w' = files w"
    and "r = Inr n \<Longrightarrow> \<exists>d. blob (te_blob e) = Some d \<and> n = int (length d) \<and> n \<le> maxCopyBytes - acc \<and> pending w' = d @ [newline]"
proof -
  obtain ok w1 where wr: "gv_batch_write G (te_blob e @ [newline]) w = (ok, w1)" by force
  obtain l w2 where ln: "gv_batch_line G w1 = (l, w2)" by force
  have w1: "files w1 = files w" "ok \<Longrightarrow> \<exists>s. pending w1 = pending w @ s \<and> batch_answer blob (te_blob e) s"
    using batch_write_law [OF b wr] by simp_all
  have w2: "files w2 = files w1"
    "\<And>x. l = Some x \<Longrightarrow> \<exists>h. x = h @ [newline] \<and> newline \<notin> set h \<and> pending w1 = x @ pending w2"
    using batch_line_law [OF b ln] by simp_all
  show "files w' = files w"
    using r wr ln w1(1) w2(1) by (auto simp: blobSize_def split: bool.splits option.splits list.splits if_splits)
  assume n: "r = Inr n"
  obtain header sz where h: "ok" "l = Some header" "str_fields header = [te_blob e, ''blob'', sz]" "atoi sz = Some n" "n \<le> maxCopyBytes - acc" "w' = w2"
    using r n wr ln by (auto simp: blobSize_def split: bool.splits option.splits list.splits if_splits)
  obtain s where s: "pending w1 = s" "batch_answer blob (te_blob e) s" using w1(2) h(1) p by auto
  obtain k where k: "header = k @ [newline]" "newline \<notin> set k" "s = header @ pending w2" using w2(2) [OF h(2)] s(1) by auto
  obtain k' where k': "newline \<notin> set k'" "case blob (te_blob e) of
           Some d \<Rightarrow> (\<exists>sz. s = k' @ newline # d @ [newline] \<and> str_fields (k' @ [newline]) = [te_blob e, ''blob'', sz] \<and> atoi sz = Some (int (length d)))
         | None \<Rightarrow> s = k' @ [newline] \<and> (\<forall>sz. str_fields (k' @ [newline]) \<noteq> [te_blob e, ''blob'', sz])"
    using s(2) unfolding batch_answer_def by blast
  have same: "k = k' \<and> pending w2 = rest" if "s = k' @ newline # rest" for rest
  proof -
    have "k @ newline # pending w2 = k' @ newline # rest" using that k by simp
    from arg_cong [OF this, of "takeWhile (\<lambda>c. c \<noteq> newline)"] have "k = k'" using line_front k(2) k'(1) by metis
    then show ?thesis using that k by simp
  qed
  show "\<exists>d. blob (te_blob e) = Some d \<and> n = int (length d) \<and> n \<le> maxCopyBytes - acc \<and> pending w' = d @ [newline]"
  proof (cases "blob (te_blob e)")
    case None
    then show ?thesis using k' same [of "[]"] h(3) k(1) by simp
  next
    case (Some d)
    then obtain sz' where sz': "s = k' @ newline # d @ [newline]" "str_fields (k' @ [newline]) = [te_blob e, ''blob'', sz']" "atoi sz' = Some (int (length d))"
      using k'(2) by auto
    then show ?thesis using same [OF sz'(1)] h k(1) Some by simp
  qed
qed

lemma writeEntry_laws:
  assumes b: "batch_laws G files pending blob" and d: "disk_laws G files pending" and r: "writeEntry G target mode n w = (r, w')"
  shows "q \<noteq> target \<Longrightarrow> files w' q = files w q"
    and "r = Inr () \<Longrightarrow> pending w = c @ [newline] \<Longrightarrow> n = int (length c) \<Longrightarrow>
      files w target = None \<and> files w' target = Some (mode, c) \<and> pending w' = []"
proof -
  obtain ok1 w1 where s1: "gv_mkdir_all G (path_dir target) w = (ok1, w1)" by force
  obtain ok2 w2 where s2: "gv_open_excl G target mode w1 = (ok2, w2)" by force
  obtain ok3 w3 where s3: "gv_chmod G target mode w2 = (ok3, w3)" by force
  obtain ok4 w4 where s4: "gv_batch_copy G target n w3 = (ok4, w4)" by force
  obtain ok5 w5 where s5: "gv_close G target w4 = (ok5, w5)" by force
  obtain ob w6 where s6: "gv_batch_byte G w5 = (ob, w6)" by force
  obtain ok7 w7 where s7: "gv_close G target w3 = (ok7, w7)" by force
  have f1: "files w1 = files w" "pending w1 = pending w" using mkdir_all_law [OF d s1] by simp_all
  have f2: "pending w2 = pending w1" "if ok2 then files w1 target = None \<and> (\<exists>m'. files w2 = (files w1)(target \<mapsto> (m', []))) else files w2 = files w1"
    using open_law [OF d s2] by simp_all
  have f3: "pending w3 = pending w2" "\<And>q. q \<noteq> target \<Longrightarrow> files w3 q = files w2 q" "ok3 \<Longrightarrow> files w3 target = map_option (\<lambda>(_, s). (mode, s)) (files w2 target)"
    using chmod_law [OF d s3] by simp_all
  have f4: "\<And>q. q \<noteq> target \<Longrightarrow> files w4 q = files w3 q"
    "ok4 \<Longrightarrow> \<exists>x. int (length x) = n \<and> pending w3 = x @ pending w4 \<and> files w4 target = map_option (\<lambda>(m, s). (m, s @ x)) (files w3 target)"
    using batch_copy_law [OF b s4] by simp_all
  have f5: "files w5 = files w4" "pending w5 = pending w4" using close_law [OF d s5] by simp_all
  have f6: "files w6 = files w5" "\<And>x. ob = Some x \<Longrightarrow> pending w5 = x # pending w6" using batch_byte_law [OF b s6] by simp_all
  have f7: "files w7 = files w3" using close_law [OF d s7] by simp
  have steps: "(r, w') = (if \<not> ok1 then (Inl (GitErrorf ''gitrev: materialize''), w1)
      else if \<not> ok2 then (Inl (GitErrorf ''gitrev: materialize''), w2)
      else if \<not> ok3 then (Inl (GitErrorf ''gitrev: materialize''), w7)
      else if \<not> ok4 \<or> \<not> ok5 then (Inl (GitErrorf ''gitrev: materialize''), w5)
      else (case ob of None \<Rightarrow> (Inl (GitErrorf ''gitrev: materialize''), w6)
            | Some c \<Rightarrow> if c \<noteq> newline then (Inl (GitErrorf ''gitrev: materialize: invalid blob separator''), w6) else (Inr (), w6)))"
    using r s1 s2 s3 s4 s5 s6 s7 by (auto simp: writeEntry_def split: bool.splits option.splits)
  have w2q: "files w2 q = files w q" if "q \<noteq> target" for q using f1 f2(2) that by (cases ok2) auto
  show "files w' q = files w q" if "q \<noteq> target"
    using steps w2q [OF that] f1 f3(2) [OF that] f4(1) [OF that] f5 f6(1) f7 by (auto split: if_splits option.splits)
  assume r': "r = Inr ()" and pend: "pending w = c @ [newline]" and n: "n = int (length c)"
  have ok: "ok1" "ok2" "ok3" "ok4" "ok5" "ob = Some newline" "w' = w6" using steps r' by (auto split: if_splits option.splits)
  obtain m' where m': "files w1 target = None" "files w2 = (files w1)(target \<mapsto> (m', []))" using f2(2) ok(2) by auto
  obtain x where x: "int (length x) = n" "pending w3 = x @ pending w4" "files w4 target = map_option (\<lambda>(m, s). (m, s @ x)) (files w3 target)"
    using f4(2) ok(4) by blast
  have "c @ [newline] = x @ pending w4" using pend f1 f2(1) f3(1) x(2) by simp
  then have "x = c" "pending w4 = [newline]" using x(1) n by (simp_all add: append_eq_append_conv)
  then have "files w' target = Some (mode, c)" "pending w' = []"
    using ok x(3) f3(3) m' f5 f6 by simp_all
  then show "files w target = None \<and> files w' target = Some (mode, c) \<and> pending w' = []" using m'(1) f1 by simp
qed

lemma copyEntry_laws:
  assumes b: "batch_laws G files pending blob" and d: "disk_laws G files pending" and p: "pending w = []"
    and r: "copyEntry G dst e acc w = (r, w')"
  shows "q \<noteq> entryTarget dst e \<Longrightarrow> files w' q = files w q"
    and "r = Inr acc' \<Longrightarrow> \<exists>c. blob (te_blob e) = Some c \<and> files w (entryTarget dst e) = None \<and>
      files w' (entryTarget dst e) = Some (entryMode e, c) \<and> acc' = acc + int (length c) \<and> acc' \<le> maxCopyBytes \<and> pending w' = []"
proof -
  let ?t = "entryTarget dst e"
  obtain x w1 where s1: "blobSize G e acc w = (x, w1)" by force
  have f1: "files w1 = files w" by (rule blobSize_laws(1) [OF b p s1])
  have steps: "case x of Inl _ \<Rightarrow> w' = w1 \<and> (\<forall>a. r \<noteq> Inr a)
      | Inr n \<Rightarrow> (w' = w1 \<and> (\<forall>a. r \<noteq> Inr a)) \<or>
          (\<exists>y. writeEntry G ?t (entryMode e) n w1 = (y, w') \<and> (\<forall>a. r = Inr a \<longrightarrow> y = Inr () \<and> a = acc + n))"
    using r s1 by (auto simp: copyEntry_def gbind_def gfail_def gret_def split: sum.splits option.splits if_splits prod.splits)
  show "files w' q = files w q" if "q \<noteq> ?t"
  proof (cases x)
    case (Inl y)
    then show ?thesis using steps f1 by simp
  next
    case (Inr n)
    then show ?thesis using steps f1 writeEntry_laws(1) [OF b d, of ?t "entryMode e" n w1 _ w' q] that by auto
  qed
  assume acc': "r = Inr acc'"
  then obtain n where n: "x = Inr n" using steps by (cases x) auto
  obtain c where c: "blob (te_blob e) = Some c" "n = int (length c)" "n \<le> maxCopyBytes - acc" "pending w1 = c @ [newline]"
    using blobSize_laws(2) [OF b p s1 n] by blast
  obtain y where y: "writeEntry G ?t (entryMode e) n w1 = (y, w')" "y = Inr ()" "acc' = acc + n" using steps n acc' by auto
  show "\<exists>c. blob (te_blob e) = Some c \<and> files w ?t = None \<and> files w' ?t = Some (entryMode e, c) \<and> acc' = acc + int (length c) \<and>
      acc' \<le> maxCopyBytes \<and> pending w' = []"
    using writeEntry_laws(2) [OF b d y(1,2) c(4,2)] c y(3) f1 by auto
qed

lemma copyLoop_laws:
  assumes b: "batch_laws G files pending blob" and d: "disk_laws G files pending"
  shows "pending w = [] \<Longrightarrow> acc \<le> maxCopyBytes \<Longrightarrow> copyLoop G dst es acc w = (r, w') \<Longrightarrow>
    (\<forall>q. q \<notin> entryTarget dst ` set es \<longrightarrow> files w' q = files w q) \<and>
    (\<forall>t. r = Inr t \<longrightarrow> distinct (map (entryTarget dst) es) \<and> t \<le> maxCopyBytes \<and>
       t = acc + (\<Sum>e\<leftarrow>es. int (length (the (blob (te_blob e))))) \<and>
       list_all (\<lambda>e. files w (entryTarget dst e) = None \<and> blob (te_blob e) \<noteq> None \<and>
         files w' (entryTarget dst e) = Some (entryMode e, the (blob (te_blob e)))) es)"
proof (induction es arbitrary: acc w)
  case (Cons e es)
  let ?t = "entryTarget dst"
  obtain x w1 where s1: "copyEntry G dst e acc w = (x, w1)" by force
  note e = copyEntry_laws [OF b d Cons.prems(1) s1]
  show ?case
  proof (cases x)
    case (Inl err)
    then show ?thesis using Cons.prems(3) s1 e(1) by auto
  next
    case (Inr a)
    obtain c where c: "blob (te_blob e) = Some c" "files w (?t e) = None" "files w1 (?t e) = Some (entryMode e, c)"
      "a = acc + int (length c)" "a \<le> maxCopyBytes" "pending w1 = []" using e(2) [OF Inr] by blast
    have loop: "copyLoop G dst es a w1 = (r, w')" using Cons.prems(3) s1 Inr by simp
    note ih = Cons.IH [OF c(6,5) loop]
    have frame: "\<forall>q. q \<notin> ?t ` set (e # es) \<longrightarrow> files w' q = files w q" using ih e(1) by auto
    have "distinct (map ?t (e # es)) \<and> t \<le> maxCopyBytes \<and> t = acc + (\<Sum>e\<leftarrow>e # es. int (length (the (blob (te_blob e))))) \<and>
       list_all (\<lambda>e. files w (?t e) = None \<and> blob (te_blob e) \<noteq> None \<and> files w' (?t e) = Some (entryMode e, the (blob (te_blob e)))) (e # es)"
      if t: "r = Inr t" for t
    proof -
      have all: "list_all (\<lambda>e. files w1 (?t e) = None \<and> blob (te_blob e) \<noteq> None \<and> files w' (?t e) = Some (entryMode e, the (blob (te_blob e)))) es"
        using ih t by blast
      then have new: "?t e \<notin> ?t ` set es" using c(3) by (force simp: list_all_iff)
      then have here: "files w' (?t e) = Some (entryMode e, c)" using ih c(3) by simp
      have "files w (?t e') = None" if m: "e' \<in> set es" for e'
      proof -
        have "?t e' \<noteq> ?t e" using new m by (metis imageI)
        then show ?thesis using all m e(1) [of "?t e'"] by (simp add: list_all_iff)
      qed
      then show ?thesis using ih t all new here c by (auto simp: list_all_iff)
    qed
    then show ?thesis using frame by blast
  qed
qed auto

lemma parseEntries_safe: "parseEntries lines = Inr es \<Longrightarrow> list_all (\<lambda>e. safeTreePath (te_name e)) es"
proof (induction lines arbitrary: es rule: parseEntries.induct)
  case (2 line lines)
  show ?case
  proof (cases "line = []")
    case True
    then show ?thesis using 2 by simp
  next
    case False
    then obtain header name where c: "cut (CHR 0x09) line = Some (header, name)" using 2(3) by (cases "cut (CHR 0x09) line") auto
    then obtain mode kind blob where "str_fields header = [mode, kind, blob]"
      using 2(3) False by (auto split: list.splits)
    then show ?thesis using 2(2,3) False c by (auto split: if_splits sum.splits)
  qed
qed simp

lemma entryTarget_below:
  assumes "clean_dir dst" and "safeTreePath (te_name e)"
  shows "entryTarget dst e = dst @ ''/'' @ te_name e"
proof -
  have "list_all plain_seg (split_on CHR ''/'' (te_name e))"
    using assms(2) by (intro clean_name_plain) (auto simp: safeTreePath_def list_all_iff)
  from path_clean_below [OF assms(1) this] show ?thesis by (simp add: entryTarget_def)
qed

lemma entries_files:
  assumes d: "disk_laws G files pending" and e: "entries G r [] tree w = (x, w1)"
  shows "files w1 = files w" and "x = Inr es \<Longrightarrow> list_all (\<lambda>e. safeTreePath (te_name e)) es"
proof -
  let ?run = "gitRun G r [] None [''ls-tree'', ''-r'', ''-z'', ''--full-tree'', tree] w"
  have "files (snd ?run) = files w"
    using git_files_law [OF d, of "command G r [] None [''ls-tree'', ''-r'', ''-z'', ''--full-tree'', tree]" w]
    by (auto simp: gitRun_def gitRunOut_def Let_def split: prod.splits git_outcome.splits)
  then show "files w1 = files w"
    using e by (cases ?run) (auto simp: entries_def gfail_def gbind_def split: if_splits sum.splits)
  show "x = Inr es \<Longrightarrow> list_all (\<lambda>e. safeTreePath (te_name e)) es"
    using e parseEntries_safe by (cases ?run) (auto simp: entries_def gfail_def gbind_def split: if_splits sum.splits)
qed

text \<open>How a call of \<open>Materialize\<close> can end, after its entries \<open>es\<close> were read in world \<open>w1\<close>.\<close>

lemma materialize_ends:
  assumes b: "batch_laws G files pending blob" and d: "disk_laws G files pending"
    and e: "entries G r [] tree w = (Inr es, w1)" and m: "Materialize G r tree dst w = (res, w')"
  obtains (early) v where "files v = files w1" "w' = v \<or> w' = gv_remove_all G dst v" "res \<noteq> Inr ()"
    | (late) w3 y w4 where "files w3 = files w1" "pending w3 = []" "copyLoop G dst es 0 w3 = (y, w4)"
        "(\<exists>t. y = Inr t) \<and> files w' = files w4 \<or> (\<exists>v. files v = files w4 \<and> w' = gv_remove_all G dst v \<and> res \<noteq> Inr ())"
proof -
  obtain ok w2 where s2: "gv_mkdir G dst w1 = (ok, w2)" by force
  obtain ok3 w3 where s3: "gv_batch_start G (command G r [] None [''cat-file'', ''--batch'']) w2 = (ok3, w3)" by force
  obtain y w4 where s4: "copyLoop G dst es 0 w3 = (y, w4)" by force
  obtain o5 w5 where s5: "gv_batch_wait G (gv_batch_kill G w4) = (o5, w5)" by force
  obtain o6 w6 where s6: "gv_batch_wait G w4 = (o6, w6)" by force
  have f2: "files w2 = files w1" by (rule mkdir_law [OF d s2])
  have f3: "files w3 = files w1" "ok3 \<Longrightarrow> pending w3 = []" using batch_start_law [OF b s3] f2 by simp_all
  have f5: "files w5 = files w4" using batch_wait_law [OF b s5] batch_kill_law [OF b, of w4] by simp
  have f6: "files w6 = files w4" by (rule batch_wait_law [OF b s6])
  have "(res, w') = (if \<not> ok then (Inl (GitErrorf ''gitrev: materialize''), w2)
      else if \<not> ok3 then (Inl (GitErrorf ''gitrev: materialize''), gv_remove_all G dst w3)
      else (case y of Inl err \<Rightarrow> (Inl err, gv_remove_all G dst w5)
        | Inr _ \<Rightarrow> if o6 then (Inr (), w6) else (Inl (GitErrorf ''gitrev: materialize''), gv_remove_all G dst w6)))"
    using m e s2 s3 s4 s5 s6 by (simp add: Materialize_def gbind_def gcall_def split: bool.splits sum.splits)
  then consider "\<not> ok" "w' = w2" "res \<noteq> Inr ()" | "\<not> ok3" "w' = gv_remove_all G dst w3" "res \<noteq> Inr ()"
    | "ok3" "w' = gv_remove_all G dst w5" "res \<noteq> Inr ()" | t where "ok3" "y = Inr t" "w' = w6"
    | "ok3" "w' = gv_remove_all G dst w6" "res \<noteq> Inr ()"
    by (auto split: if_splits sum.splits)
  then show thesis
  proof cases
    case 1
    then show thesis using early [of w2] f2 by blast
  next
    case 2
    then show thesis using early [of w3] f3 by blast
  next
    case 3
    then show thesis using late [OF f3(1) _ s4] f3(2) f5 by blast
  next
    case (4 t)
    then show thesis using late [OF f3(1) _ s4] f3(2) f6 by simp
  next
    case 5
    then show thesis using late [OF f3(1) _ s4] f3(2) f6 by blast
  qed
qed

definition materialized :: "('w \<Rightarrow> string \<rightharpoonup> nat \<times> string) \<Rightarrow> (string \<rightharpoonup> string) \<Rightarrow> string \<Rightarrow> tree_entry list \<Rightarrow> 'w \<Rightarrow> 'w \<Rightarrow> bool" where
  "materialized files blob dst es w w' \<longleftrightarrow>
     list_all (\<lambda>e. safeTreePath (te_name e)) es \<and> distinct (map te_name es) \<and>
     (\<Sum>e\<leftarrow>es. int (length (the (blob (te_blob e))))) \<le> 80 * 2 ^ 20 \<and>
     (\<forall>e\<in>set es. \<exists>c. blob (te_blob e) = Some c \<and> files w' (dst @ ''/'' @ te_name e) = Some (entryMode e, c)) \<and>
     (\<forall>q. q \<notin> (\<lambda>e. dst @ ''/'' @ te_name e) ` set es \<longrightarrow> files w' q = files w q)"

lemma loop_materialized:
  assumes b: "batch_laws G files pending blob" and d: "disk_laws G files pending" and dst: "clean_dir dst"
    and safe: "list_all (\<lambda>e. safeTreePath (te_name e)) es" and p: "pending w = []" and l: "copyLoop G dst es 0 w = (y, w')"
  shows "y = Inr t \<Longrightarrow> materialized files blob dst es w w'" and "\<not> prefix (dst @ ''/'') q \<Longrightarrow> files w' q = files w q"
proof -
  have target: "\<And>e. e \<in> set es \<Longrightarrow> entryTarget dst e = dst @ ''/'' @ te_name e"
    using entryTarget_below [OF dst] safe by (simp add: list_all_iff)
  then have img: "entryTarget dst ` set es = (\<lambda>e. dst @ ''/'' @ te_name e) ` set es" by (rule image_cong [OF refl])
  have zero: "0 \<le> maxCopyBytes" by (simp add: maxCopyBytes_def)
  note laws = copyLoop_laws [OF b d p zero l]
  show "files w' q = files w q" if "\<not> prefix (dst @ ''/'') q"
  proof -
    have "q \<notin> entryTarget dst ` set es" unfolding img using that by auto
    then show ?thesis using laws by blast
  qed
  assume t: "y = Inr t"
  have all: "distinct (map (entryTarget dst) es)" "(\<Sum>e\<leftarrow>es. int (length (the (blob (te_blob e))))) \<le> 80 * 2 ^ 20"
    "list_all (\<lambda>e. files w (entryTarget dst e) = None \<and> blob (te_blob e) \<noteq> None \<and>
       files w' (entryTarget dst e) = Some (entryMode e, the (blob (te_blob e)))) es"
    using conjunct2 [OF laws] t by (simp_all add: maxCopyBytes_def)
  have "map (entryTarget dst) es = map (\<lambda>n. dst @ ''/'' @ n) (map te_name es)" using target by simp
  then have "distinct (map te_name es)" using all(1) by (metis distinct_map)
  moreover have "\<exists>c. blob (te_blob e) = Some c \<and> files w' (dst @ ''/'' @ te_name e) = Some (entryMode e, c)" if "e \<in> set es" for e
    using all(3) that target [OF that] by (auto simp: list_all_iff)
  ultimately show "materialized files blob dst es w w'"
    using safe all(2) conjunct1 [OF laws] unfolding materialized_def img by blast
qed


section \<open>A repository with one file\<close>

text \<open>The world of the demonstration: the calls of git, the files and the unread output of \<open>cat-file\<close>.\<close>

type_synonym demo_world = "git_call list \<times> (string \<rightharpoonup> nat \<times> string) \<times> string"

definition demo_blob :: "string \<rightharpoonup> string" where
  "demo_blob b = (if b = replicate 40 CHR ''c'' then Some ''package main'' else None)"

definition demo_answer :: "string list \<Rightarrow> git_outcome" where
  "demo_answer args =
     (if args = [] then GitFail []
      else if hd args = ''config'' then GitExit [] 1 []
      else if hd args = ''write-tree'' then GitOK (replicate 40 CHR ''a'')
      else if hd args = ''rev-parse'' then GitOK (replicate 40 CHR ''b'')
      else if hd args = ''-c'' then GitOK (replicate 40 CHR ''d'')
      else if hd args = ''ls-tree'' then GitOK (''100644 blob '' @ replicate 40 CHR ''c'' @ [CHR 0x09] @ ''main.go'' @ [CHR 0x00])
      else GitOK [])"

definition demo_git :: "demo_world git_env" where
  "demo_git = \<lparr>gv_environ = [''HOME=/root'', ''GIT_INDEX_FILE=/repo/.git/index''],
     gv_git = (\<lambda>c (l, f, p). (demo_answer (gc_args c), (l @ [c], f, p))),
     gv_mkdir_temp = (\<lambda>s w. (Some ''/tmp/aquila-snap-1'', w)), gv_remove_all = (\<lambda>d (l, f, p). (l, \<lambda>q. if q = d \<or> prefix (d @ ''/'') q then None else f q, p)),
     gv_lstat_size = (\<lambda>w p. Some 0), gv_is_dir = (\<lambda>w p. Some True), gv_abs = Some, gv_eval_symlinks = (\<lambda>w p. Some p),
     gv_mkdir = (\<lambda>d w. (True, w)), gv_mkdir_all = (\<lambda>d w. (True, w)),
     gv_open_excl = (\<lambda>q m (l, f, p). if f q = None then (True, (l, f(q \<mapsto> (m, [])), p)) else (False, (l, f, p))),
     gv_chmod = (\<lambda>q m (l, f, p). (True, (l, f(q := map_option (\<lambda>(_, s). (m, s)) (f q)), p))),
     gv_close = (\<lambda>q w. (True, w)),
     gv_batch_start = (\<lambda>c (l, f, p). (True, (l @ [c], f, []))),
     gv_batch_write = (\<lambda>s (l, f, p). case demo_blob (butlast s) of
         None \<Rightarrow> (False, (l, f, p))
       | Some d \<Rightarrow> (True, (l, f, p @ butlast s @ '' blob '' @ itoa (int (length d)) @ [newline] @ d @ [newline]))),
     gv_batch_line = (\<lambda>(l, f, p). if newline \<in> set p
       then (Some (takeWhile (\<lambda>c. c \<noteq> newline) p @ [newline]), (l, f, tl (dropWhile (\<lambda>c. c \<noteq> newline) p))) else (None, (l, f, p))),
     gv_batch_copy = (\<lambda>q n (l, f, p). if 0 \<le> n \<and> nat n \<le> length p
       then (True, (l, f(q := map_option (\<lambda>(m, s). (m, s @ take (nat n) p)) (f q)), drop (nat n) p)) else (False, (l, f, p))),
     gv_batch_byte = (\<lambda>(l, f, p). case p of [] \<Rightarrow> (None, (l, f, p)) | c # cs \<Rightarrow> (Some c, (l, f, cs))),
     gv_batch_kill = (\<lambda>w. w), gv_batch_wait = (\<lambda>w. (True, w))\<rparr>"

definition demo_repo :: repo where
  "demo_repo = \<lparr>rp_root = ''/repo'', rp_rel = ''.''\<rparr>"

definition demo_head :: revision where
  "demo_head = \<lparr>rev_commit = replicate 40 CHR ''e'', rev_tree = replicate 40 CHR ''f'', rev_path = ''.'', rev_dirty = False, rev_source = ''declared''\<rparr>"

lemma demo_git_log: "git_log demo_git fst"
  by (simp add: git_log_def demo_git_def split_beta)


lemma demo_batch: "batch_laws demo_git (\<lambda>w. fst (snd w)) (\<lambda>w. snd (snd w)) demo_blob"
proof -
  let ?b = "replicate 40 CHR ''c''"
  have ans: "batch_answer demo_blob b (b @ '' blob '' @ itoa (int (length d)) @ [newline] @ d @ [newline])" if "demo_blob b = Some d" for b d
  proof -
    have bd: "b = ?b" "d = ''package main''" using that by (auto simp: demo_blob_def split: if_splits)
    have "newline \<notin> set (?b @ '' blob 12'') \<and> str_fields ((?b @ '' blob 12'') @ [newline]) = [?b, ''blob'', ''12''] \<and> atoi ''12'' = Some 12 \<and> itoa 12 = ''12''"
      by code_simp
    then show ?thesis unfolding batch_answer_def bd by (intro exI [of _ "?b @ '' blob 12''"]) (simp add: demo_blob_def)
  qed
  have line: "p = takeWhile (\<lambda>c. c \<noteq> newline) p @ newline # tl (dropWhile (\<lambda>c. c \<noteq> newline) p)" if "newline \<in> set p" for p
    using that by (induction p) auto
  have no: "newline \<notin> set (takeWhile (\<lambda>c. c \<noteq> newline) p)" for p by (auto dest: set_takeWhileD)
  have cp: "\<exists>d. int (length d) = n \<and> p = d @ drop (nat n) p \<and>
      map_option (\<lambda>(m, s). (m, s @ take (nat n) p)) x = map_option (\<lambda>(m, s). (m, s @ d)) x"
    if "0 \<le> n" "nat n \<le> length p" for n and p :: string and x :: "(nat \<times> string) option"
    using that by (intro exI [of _ "take (nat n) p"]) simp
  show ?thesis unfolding batch_laws_def
    by (intro conjI allI impI; use ans line no cp in \<open>auto simp: demo_git_def split: option.splits list.splits if_splits\<close>)
qed

lemma demo_disk: "disk_laws demo_git (\<lambda>w. fst (snd w)) (\<lambda>w. snd (snd w))"
  unfolding disk_laws_def
  by (intro conjI allI impI) (auto simp: demo_git_def split: if_splits)


end
