(* ===== verification/Workload_File.thy ===== *)
theory Workload_File
  imports Replay Go_Text "HOL-Library.AList"
begin

text \<open>
  Operator workloads, \<open>internal/replay/file.go\<close> and \<open>headers.go\<close>: a JSON document whose steps are checked before they are
  replayed. Reading the file, the JSON decoders and the environment are the record \<open>file_env\<close>; the headers of a step
  come in the order in which the loop over the map meets them.
\<close>

record file_step =
  fs_method :: string
  fs_path :: string
  fs_body :: string
  fs_headers :: "(string \<times> string) list"

record file_env =
  fe_read :: "string \<Rightarrow> string option"
  fe_doc :: "string \<Rightarrow> file_step list option"
  fe_json_string :: "string \<Rightarrow> string option"
  fe_compact :: "string \<Rightarrow> string option"
  fe_lookup_env :: "string \<Rightarrow> string option"

definition maxFileBytes :: nat where "maxFileBytes = 64 * 1024"
definition maxBodyBytes :: nat where "maxBodyBytes = 8 * 1024"
definition maxHeaders :: nat where "maxHeaders = 16"
definition maxHeaderValue :: nat where "maxHeaderValue = 4096"

section \<open>Headers\<close>

text \<open>\<open>http.CanonicalHeaderKey\<close>: a name with a byte that no token has is left alone.\<close>

definition token_char :: "char \<Rightarrow> bool" where
  "token_char c = (is_lower c \<or> is_upper c \<or> is_digit c \<or> c \<in> set ''!#$%&*+-.^_`|~'' \<or> c = CHR 0x27)"

fun canonical_chars :: "bool \<Rightarrow> string \<Rightarrow> string" where
  "canonical_chars upper [] = []"
| "canonical_chars upper (c # s) = (if upper then upper_char c else lower_char c) # canonical_chars (c = CHR ''-'') s"

definition canonicalHeaderKey :: "string \<Rightarrow> string" where
  "canonicalHeaderKey s = (if list_all token_char s then canonical_chars True s else s)"

definition forbiddenHeaders :: "string list" where
  "forbiddenHeaders = [''Host'', ''Content-Length'', ''Transfer-Encoding'', ''Connection'', ''Upgrade'', ''Te'', ''Trailer'', ''Keep-Alive'']"

text \<open>
  \<open>envRef\<close>: the name of a reference at the front of a value, and the replacement of every reference by the
  environment, with the first name that is not set.
\<close>

definition envName :: "string \<Rightarrow> string option" where
  "envName s =
     (if prefix ''${'' s
      then (let name = takeWhile (\<lambda>c. is_lower c \<or> is_upper c \<or> is_digit c \<or> c = CHR ''_'') (drop 2 s)
            in if name \<noteq> [] \<and> \<not> is_digit (hd name) \<and> prefix ''}'' (drop (2 + length name) s) then Some name else None)
      else None)"

fun expandEnv :: "(string \<Rightarrow> string option) \<Rightarrow> string \<Rightarrow> string \<times> string option" where
  "expandEnv env [] = ([], None)"
| "expandEnv env (c # s) =
     (case envName (c # s) of
        None \<Rightarrow> (let (t, unset) = expandEnv env s in (c # t, unset))
      | Some name \<Rightarrow>
          (let (t, unset) = expandEnv env (drop (2 + length name) s)
           in case env name of Some v \<Rightarrow> (v @ t, unset) | None \<Rightarrow> (t, Some name)))"

definition fileHeader :: "file_env \<Rightarrow> string \<times> string \<Rightarrow> error + string \<times> string" where
  "fileHeader V nv =
     (let key = canonicalHeaderKey (trim_space (fst nv))
      in if key = [] \<or> contains_any [CHR '' '', CHR 0x09, CHR 0x0D, CHR 0x0A, CHR '':''] key then Inl (Errorf ''invalid header name'')
         else if key \<in> set forbiddenHeaders \<or> prefix ''Proxy-'' key then Inl (Errorf ''header is not allowed'')
         else (let (value, unset) = expandEnv (fe_lookup_env V) (trim_space (snd nv))
               in if unset \<noteq> None then Inl (Errorf ''header references unset variable'')
                  else if length value > maxHeaderValue then Inl (Errorf ''header exceeds bytes'')
                  else if contains_any [CHR 0x0D, CHR 0x0A, CHR 0x00] value then Inl (Errorf ''header contains a control character'')
                  else Inr (key, value)))"

fun headerLoop :: "file_env \<Rightarrow> (string \<times> string) list \<Rightarrow> (string \<times> string) list \<Rightarrow> error + (string \<times> string) list" where
  "headerLoop V [] out = Inr out"
| "headerLoop V (nv # raw) out =
     (case fileHeader V nv of Inl e \<Rightarrow> Inl e | Inr (key, value) \<Rightarrow> headerLoop V raw (AList.update key value out))"

definition fileHeaders :: "file_env \<Rightarrow> (string \<times> string) list \<Rightarrow> error + (string \<times> string) list" where
  "fileHeaders V raw =
     (if raw = [] then Inr []
      else if length raw > maxHeaders then Inl (Errorf ''more than 16 headers'')
      else headerLoop V raw [])"

section \<open>Workloads\<close>

definition decodeBody :: "file_env \<Rightarrow> string \<Rightarrow> error + string" where
  "decodeBody V raw =
     (let trim = trim_space raw
      in if trim = [] \<or> trim = ''null'' then Inr []
         else if hd trim = CHR 0x22
         then (case fe_json_string V trim of
                 None \<Rightarrow> Inl (Errorf ''json'')
               | Some s \<Rightarrow> if length s > maxBodyBytes then Inl (Errorf ''body exceeds bytes'') else Inr s)
         else if length trim > maxBodyBytes then Inl (Errorf ''body exceeds bytes'')
         else (case fe_compact V trim of None \<Rightarrow> Inl (Errorf ''json'') | Some s \<Rightarrow> Inr s))"

definition fileStep :: "file_env \<Rightarrow> file_step \<Rightarrow> error + replay_step" where
  "fileStep V st =
     (let method = to_upper (trim_space (fs_method st)); p = trim_space (fs_path st)
      in if \<not> safeFileStep method p then Inl (Errorf ''replay: workload step is not replayable'')
         else (case decodeBody V (fs_body st) of
                 Inl e \<Rightarrow> Inl e
               | Inr body \<Rightarrow>
                   (case fileHeaders V (fs_headers st) of
                      Inl e \<Rightarrow> Inl e
                    | Inr hdr \<Rightarrow> Inr \<lparr>st_method = method, st_path = p, st_body = body, st_headers = hdr,
                                     st_provenance = ''workload_file'', st_service = []\<rparr>)))"

fun fileSteps :: "file_env \<Rightarrow> file_step list \<Rightarrow> error + workload" where
  "fileSteps V [] = Inr []"
| "fileSteps V (st # sts) =
     (case fileStep V st of
        Inl e \<Rightarrow> Inl e
      | Inr s \<Rightarrow> (case fileSteps V sts of Inl e \<Rightarrow> Inl e | Inr w \<Rightarrow> Inr (s # w)))"

definition ReadFile :: "file_env \<Rightarrow> string \<Rightarrow> error + workload" where
  "ReadFile V path =
     (if trim_space path = [] then Inl (Errorf ''replay: workload file path is empty'')
      else if sublist ''://'' path then Inl (Errorf ''replay: workload file must be a local path'')
      else (case fe_read V path of
              None \<Rightarrow> Inl (Errorf ''replay: read workload'')
            | Some raw \<Rightarrow>
                if length raw > maxFileBytes then Inl (Errorf ''replay: workload file exceeds bytes'')
                else (case fe_doc V raw of
                        None \<Rightarrow> Inl (Errorf ''replay: parse workload'')
                      | Some steps \<Rightarrow>
                          if steps = [] then Inl (Errorf ''replay: workload file has no steps'')
                          else if length steps > maxSteps then Inl (Errorf ''replay: workload file exceeds 20 steps'')
                          else fileSteps V steps)))"

section \<open>What an accepted workload can send\<close>

text \<open>
  The header names that frame a message or choose its route, in any spelling. A name that is not a token is refused by
  the HTTP client.
\<close>

definition framing_header :: "string \<Rightarrow> bool" where
  "framing_header k \<longleftrightarrow> (\<exists>f\<in>set forbiddenHeaders. map lower_char k = map lower_char f) \<or> prefix ''proxy-'' (map lower_char k)"

definition safe_header :: "string \<times> string \<Rightarrow> bool" where
  "safe_header = (\<lambda>(k, v).
     k \<noteq> [] \<and> CHR '':'' \<notin> set k \<and> CHR 0x0A \<notin> set k \<and> CHR 0x0D \<notin> set k \<and> \<not> (list_all token_char k \<and> framing_header k) \<and>
     length v \<le> 4096 \<and> CHR 0x0A \<notin> set v \<and> CHR 0x0D \<notin> set v \<and> CHR 0x00 \<notin> set v)"

definition safe_step :: "replay_step \<Rightarrow> bool" where
  "safe_step s \<longleftrightarrow>
     isHTTPMethod (st_method s) \<and> prefix ''/'' (st_path s) \<and> \<not> sublist ''..'' (st_path s) \<and> \<not> sublist ''://'' (st_path s) \<and>
     CHR ''@'' \<notin> set (st_path s) \<and> length (st_headers s) \<le> 16 \<and> distinct (map fst (st_headers s)) \<and> list_all safe_header (st_headers s)"

lemma letter_cases [simp]:
  "lower_char (upper_char c) = lower_char c" "lower_char (lower_char c) = lower_char c"
  "upper_char (lower_char c) = upper_char c"
  by (auto simp: lower_char_def upper_char_def is_upper_def is_lower_def)

lemma lower_dash [simp]: "(lower_char c = CHR ''-'') = (c = CHR ''-'')"
proof
  assume l: "lower_char c = CHR ''-''"
  show "c = CHR ''-''"
  proof (cases "is_upper c")
    case True
    then have "of_char (lower_char c) = (of_char c + 32 :: nat)" by (simp add: lower_char_def is_upper_def)
    then show ?thesis using l True by (simp add: is_upper_def)
  qed (use l in \<open>simp add: lower_char_def\<close>)
qed (simp add: lower_char_def is_upper_def)

lemma lower_canonical: "map lower_char (canonical_chars u s) = map lower_char s"
  by (induction u s rule: canonical_chars.induct) simp_all

lemma canonical_lower: "canonical_chars u (map lower_char s) = canonical_chars u s"
  by (induction u s rule: canonical_chars.induct) simp_all

lemma canonical_append: "canonical_chars u (s @ t) = canonical_chars u s @ canonical_chars (if s = [] then u else last s = CHR ''-'') t"
  by (induction u s rule: canonical_chars.induct) auto

text \<open>A token that spells a framing header is canonicalized to the spelling that is refused.\<close>

lemma framing_refused:
  assumes "framing_header (canonical_chars True s)"
  shows "canonical_chars True s \<in> set forbiddenHeaders \<or> prefix ''Proxy-'' (canonical_chars True s)"
proof -
  have fixed: "list_all (\<lambda>f. canonical_chars True (map lower_char f) = f) forbiddenHeaders" by code_simp
  consider f where "f \<in> set forbiddenHeaders" "map lower_char s = map lower_char f" | t where "map lower_char s = ''proxy-'' @ t"
    using assms by (auto simp: framing_header_def lower_canonical prefix_def)
  then show ?thesis
  proof cases
    case (1 f)
    then have "canonical_chars True s = f" using canonical_lower [of True s] fixed by (simp add: list_all_iff)
    then show ?thesis using 1 by simp
  next
    case (2 t)
    have "canonical_chars True ''proxy-'' = ''Proxy-''" by code_simp
    then have "prefix ''Proxy-'' (canonical_chars True (map lower_char s))" using canonical_append [of True "''proxy-''" t] 2 by (simp add: prefix_def)
    then show ?thesis by (simp add: canonical_lower)
  qed
qed

lemma fileHeader_safe:
  assumes "fileHeader V nv = Inr kv"
  shows "safe_header kv"
proof -
  obtain key vl where kv: "kv = (key, vl)" by force
  have key: "key = canonicalHeaderKey (trim_space (fst nv))" "key \<noteq> []" "\<not> contains_any [CHR '' '', CHR 0x09, CHR 0x0D, CHR 0x0A, CHR '':''] key"
    "key \<notin> set forbiddenHeaders" "\<not> prefix ''Proxy-'' key"
    and val: "length vl \<le> maxHeaderValue" "\<not> contains_any [CHR 0x0D, CHR 0x0A, CHR 0x00] vl"
    using assms kv by (auto simp: fileHeader_def Let_def split: if_splits prod.splits)
  have "\<not> (list_all token_char key \<and> framing_header key)"
    using key framing_refused [of "trim_space (fst nv)"] by (auto simp: canonicalHeaderKey_def split: if_splits)
  then show ?thesis using key val by (auto simp: kv safe_header_def contains_any_def maxHeaderValue_def list_ex_iff)
qed

lemma headerLoop_safe:
  assumes "headerLoop V raw out = Inr hdr" and "list_all safe_header out" and "distinct (map fst out)"
  shows "list_all safe_header hdr \<and> distinct (map fst hdr) \<and> length hdr \<le> length out + length raw"
  using assms
proof (induction raw arbitrary: out)
  case (Cons nv raw)
  obtain k v where kv: "fileHeader V nv = Inr (k, v)" "headerLoop V raw (AList.update k v out) = Inr hdr"
    using Cons.prems(1) by (auto split: sum.splits prod.splits)
  have sub: "set (AList.update k v out) \<subseteq> insert (k, v) (set out)" by (induction out) auto
  then have "list_all safe_header (AList.update k v out)"
    using Cons.prems(2) fileHeader_safe [OF kv(1)] by (auto simp: list_all_iff)
  moreover have "length (AList.update k v out) \<le> Suc (length out)" by (induction out) auto
  ultimately show ?case using Cons.IH [OF kv(2)] Cons.prems(3) by (force simp: distinct_update)
qed simp

lemma fileStep_safe:
  assumes "fileStep V st = Inr s"
  shows "safe_step s" and "st_provenance s = ''workload_file''"
proof -
  obtain body hdr where h: "fileHeaders V (fs_headers st) = Inr hdr" and s: "s = \<lparr>st_method = to_upper (trim_space (fs_method st)),
      st_path = trim_space (fs_path st), st_body = body, st_headers = hdr, st_provenance = ''workload_file'', st_service = []\<rparr>"
    and ok: "safeFileStep (to_upper (trim_space (fs_method st))) (trim_space (fs_path st))"
    using assms by (auto simp: fileStep_def Let_def split: if_splits sum.splits)
  have "list_all safe_header hdr \<and> distinct (map fst hdr) \<and> length hdr \<le> 16"
    using h headerLoop_safe [of V "fs_headers st" "[]" hdr] by (auto simp: fileHeaders_def maxHeaders_def split: if_splits)
  then show "safe_step s" "st_provenance s = ''workload_file''"
    using ok s by (auto simp: safe_step_def safeFileStep_def safePath_def split: if_splits)
qed

text \<open>
  C27: An operator workload cannot smuggle requests: every step of a workload file that is accepted has a known method and
  an absolute path without parent segments, authority or scheme, and at most sixteen headers, none of which has a line
  break in its name or value or, in any spelling, frames the message or chooses its route. The workload has one to
  twenty steps, all marked as taken from the file.
\<close>

theorem workload_file_safe:
  assumes "ReadFile V path = Inr w"
  shows "list_all (\<lambda>s. safe_step s \<and> st_provenance s = ''workload_file'') w \<and> 1 \<le> length w \<and> length w \<le> 20"
proof -
  obtain steps where steps: "fileSteps V steps = Inr w" "steps \<noteq> []" "length steps \<le> 20"
    using assms by (auto simp: ReadFile_def maxSteps_def split: if_splits option.splits)
  have "list_all (\<lambda>s. safe_step s \<and> st_provenance s = ''workload_file'') w \<and> length w = length steps"
    using steps(1) fileStep_safe by (induction steps arbitrary: w) (auto split: sum.splits)
  then show ?thesis using steps(2,3) by (cases steps) auto
qed

definition demo_file_env :: file_env where
  "demo_file_env = \<lparr>fe_read = (\<lambda>_. Some ''{}''),
     fe_doc = (\<lambda>_. Some [\<lparr>fs_method = ''get'', fs_path = ''/cart'', fs_body = [], fs_headers = [(''authorization'', ''Bearer ${TOKEN}'')]\<rparr>]),
     fe_json_string = (\<lambda>_. None), fe_compact = (\<lambda>_. None), fe_lookup_env = (\<lambda>n. if n = ''TOKEN'' then Some ''s3cret'' else None)\<rparr>"

theorem workload_file_safe_witness:
  "\<exists>w. ReadFile demo_file_env ''w.json'' = Inr w \<and> map st_headers w = [[(''Authorization'', ''Bearer s3cret'')]] \<and> list_all safe_step w"
proof -
  have "(case ReadFile demo_file_env ''w.json'' of Inl _ \<Rightarrow> None | Inr w \<Rightarrow> Some (map st_headers w)) = Some [[(''Authorization'', ''Bearer s3cret'')]]"
    by code_simp
  then obtain w where w: "ReadFile demo_file_env ''w.json'' = Inr w" "map st_headers w = [[(''Authorization'', ''Bearer s3cret'')]]"
    by (auto split: sum.splits)
  show ?thesis using workload_file_safe [OF w(1)] w by (auto simp: list_all_iff)
qed

end
