(* ===== verification/Investigate.thy ===== *)
theory Investigate
  imports Impact_Laws Otlp
begin

text \<open>
  Answering a question from observed facts, \<open>internal/investigate/search.go\<close>: the tokens of the question are matched with
  the services, hops, paths, routes, bindings and the impact report of a window, and the matching facts are cited. The
  case mapping and the letters and numbers of Unicode are the record \<open>text_env\<close>. The lemmas show that an answer cites
  facts of the window only, and nothing when no fact matches.
\<close>

record search_report =
  se_question :: string
  se_origin :: string
  se_hits :: "string list"
  se_notes :: "string list"

record hop =
  hp_from :: string
  hp_to :: string
  hp_provenance :: string

record svc_path =
  pa_services :: "string list"
  pa_provenance :: string

record bind =
  bd_service :: string
  bd_name :: string
  bd_file :: string
  bd_route :: string
  bd_provenance :: string
  bd_line :: int

record search_input =
  si_question :: string
  si_origin :: string
  si_services :: "string list"
  si_hops :: "hop list"
  si_paths :: "svc_path list"
  si_routes :: "string list"
  si_binds :: "bind list"
  si_impact :: "impact_report option"

record text_env =
  tx_lower :: "string \<Rightarrow> string"
  tx_word :: "string \<Rightarrow> bool"

definition maxQuestion :: nat where
  "maxQuestion = 2 * 2 ^ 10"

section \<open>Tokens\<close>

definition stopWord :: "string \<Rightarrow> bool" where
  "stopWord t = (t \<in> {''the'', ''and'', ''for'', ''how'', ''what'', ''why'', ''can'', ''this'', ''that'', ''with'', ''from'', ''are'', ''was'',
     ''does'', ''did'', ''not'', ''our'', ''any''})"

text \<open>\<open>strings.FieldsFunc\<close>: the maximal runs of word runes; a byte that starts no rune separates.\<close>

fun fieldsFunc :: "(string \<Rightarrow> bool) \<Rightarrow> string \<Rightarrow> string \<Rightarrow> string list" where
  "fieldsFunc word cur [] = (if cur = [] then [] else [cur])"
| "fieldsFunc word cur (a # s) =
     (let n = rune_len (a # s); r = take n (a # s); rest = drop (n - 1) s
      in if n \<noteq> 0 \<and> word r then fieldsFunc word (cur @ r) rest
         else (if cur = [] then [] else [cur]) @ fieldsFunc word [] rest)"

definition tokens :: "text_env \<Rightarrow> string \<Rightarrow> string list" where
  "tokens V q = fold add_new (filter (\<lambda>t. \<not> (length t < 3 \<or> stopWord t)) (fieldsFunc (tx_word V) [] (tx_lower V q))) []"

definition matches :: "text_env \<Rightarrow> string list \<Rightarrow> string \<Rightarrow> bool" where
  "matches V toks s = (let low = tx_lower V s in list_ex (\<lambda>t. sublist t low) toks)"

section \<open>Lines\<close>

definition label :: "string \<Rightarrow> string \<Rightarrow> string \<Rightarrow> string" where
  "label kind text0 prov =
     (let t = trim_space text0
      in if t = [] then [] else if prov = [] then kind @ ''  '' @ t else kind @ ''  '' @ t @ ''  '' @ prov)"

definition formatHop :: "hop \<Rightarrow> string" where
  "formatHop h = label ''hop'' (hp_from h @ '' -> '' @ hp_to h) (if hp_provenance h = [] then ProvenanceObservedParent else hp_provenance h)"

definition formatPath :: "svc_path \<Rightarrow> string" where
  "formatPath p = label ''path'' (join '' -> '' (pa_services p)) (if pa_provenance p = [] then ProvenanceObservedParent else pa_provenance p)"

definition formatBind :: "bind \<Rightarrow> string" where
  "formatBind b =
     (let t0 = trim_space (bd_service b @ '' '' @ bd_name b @ '' '' @ bd_file b);
          t1 = (if bd_line b > 0 then t0 @ '':'' @ itoa (bd_line b) else t0);
          r = trim_space (bd_route b);
          t2 = (if r \<noteq> [] then t1 @ '' '' @ r else t1)
      in label ''bind'' t2 (if bd_provenance b = [] then ''code_attrs'' else bd_provenance b))"

definition findingText :: "finding \<Rightarrow> string" where
  "findingText f =
     (let loc = trim_space (fi_name f @ '' '' @ fi_file f) in if fi_line f > 0 then loc @ '':'' @ itoa (fi_line f) else loc)"

definition provenanceOr :: "string \<Rightarrow> string \<Rightarrow> string" where
  "provenanceOr got fallback = (if trim_space got = [] then fallback else trim_space got)"

definition impactFacts :: "impact_report \<Rightarrow> string list" where
  "impactFacts rep =
     map (\<lambda>f. label ''file'' f ''changed_lines'') (rp_files rep) @
     map (\<lambda>f. label ''direct'' (findingText f) (provenanceOr (fi_reason f) ''changed_lines'')) (rp_direct rep) @
     map (\<lambda>f. label ''likely'' (findingText f) (provenanceOr (fi_provenance f) ''typed_call'')) (rp_likely rep) @
     map (\<lambda>f. label ''runtime'' (trim_space (fi_route f @ '' '' @ fi_path f @ '' '' @ fi_name f))
       (provenanceOr (fi_provenance f) ProvenanceObservedParent)) (rp_runtime rep) @
     map (\<lambda>f. label ''unobserved'' (findingText f) (provenanceOr (fi_reason f) ''unobserved'')) (rp_unobserved rep)"

section \<open>The search\<close>

text \<open>The services whose facts match; of a finding, the first texts are matched and its service is taken.\<close>

definition bindMatches :: "text_env \<Rightarrow> string list \<Rightarrow> bind \<Rightarrow> bool" where
  "bindMatches V toks b = (matches V toks (bd_name b) \<or> matches V toks (bd_file b) \<or> matches V toks (bd_route b))"

definition matchedServices :: "text_env \<Rightarrow> string list \<Rightarrow> search_input \<Rightarrow> string list" where
  "matchedServices V toks inp =
     filter (matches V toks) (si_services inp) @
     concat (map (\<lambda>h. filter (matches V toks) [hp_from h, hp_to h]) (si_hops inp)) @
     concat (map (\<lambda>p. filter (matches V toks) (pa_services p)) (si_paths inp)) @
     filter (\<lambda>s. s \<noteq> []) (map bd_service (filter (\<lambda>b. matches V toks (bd_service b) \<or> bindMatches V toks b) (si_binds inp))) @
     (case si_impact inp of
        None \<Rightarrow> []
      | Some rep \<Rightarrow>
          filter (\<lambda>s. s \<noteq> []) (map fi_service (filter (\<lambda>f. list_ex (matches V toks) [fi_name f, fi_file f, fi_service f, fi_route f]) (rp_direct rep))) @
          filter (\<lambda>s. s \<noteq> []) (map fi_service (filter (\<lambda>f. list_ex (matches V toks) [fi_name f, fi_path f, fi_service f, fi_route f]) (rp_runtime rep))))"

text \<open>One pass over the hops adds the other end of a hop.\<close>

definition seedHop :: "hop \<Rightarrow> string list \<Rightarrow> string list" where
  "seedHop h seed =
     (let s1 = (if hp_from h \<in> set seed then add_new (hp_to h) seed else seed)
      in if hp_to h \<in> set s1 then add_new (hp_from h) s1 else s1)"

definition seeds :: "text_env \<Rightarrow> string list \<Rightarrow> search_input \<Rightarrow> string list" where
  "seeds V toks inp = fold seedHop (si_hops inp) (fold add_new (matchedServices V toks inp) [])"

definition searchPathTouches :: "string list \<Rightarrow> string list \<Rightarrow> bool" where
  "searchPathTouches services seed = list_ex (\<lambda>s. s \<in> set seed) services"

definition impactTouches :: "text_env \<Rightarrow> string list \<Rightarrow> string list \<Rightarrow> impact_report \<Rightarrow> bool" where
  "impactTouches V toks seed rep =
     (list_ex (matches V toks) (rp_files rep) \<or>
      list_ex (\<lambda>f. (fi_service f \<in> set seed \<and> fi_service f \<noteq> []) \<or> list_ex (matches V toks) [fi_name f, fi_file f, fi_route f, fi_path f])
        (rp_direct rep @ rp_likely rep @ rp_runtime rep @ rp_unobserved rep))"

definition addLine :: "string \<Rightarrow> string list \<Rightarrow> string list" where
  "addLine line out = (if line = [] then out else add_new line out)"

definition joinFacts :: "text_env \<Rightarrow> search_input \<Rightarrow> string list \<Rightarrow> string list" where
  "joinFacts V inp toks =
     (let seed = seeds V toks inp;
          lines =
            map (\<lambda>s. label ''service'' s []) (filter (\<lambda>s. s \<in> set seed) (si_services inp)) @
            map formatHop (filter (\<lambda>h. hp_from h \<in> set seed \<or> hp_to h \<in> set seed) (si_hops inp)) @
            map formatPath (filter (\<lambda>p. searchPathTouches (pa_services p) seed) (si_paths inp)) @
            filter (matches V toks) (si_routes inp) @
            map formatBind (filter (\<lambda>b. bd_service b \<in> set seed \<or> bindMatches V toks b) (si_binds inp)) @
            (case si_impact inp of None \<Rightarrow> [] | Some rep \<Rightarrow> if impactTouches V toks seed rep then impactFacts rep else [])
      in fold addLine lines [])"

definition Search :: "text_env \<Rightarrow> search_input \<Rightarrow> error + search_report" where
  "Search V inp =
     (let q = trim_space (si_question inp)
      in if q = []
         then (case si_impact inp of
                 None \<Rightarrow> Inl (Errorf ''investigate: empty question'')
               | Some rep \<Rightarrow>
                   (let hits = impactFacts rep
                    in Inr \<lparr>se_question = ''local edit'', se_origin = si_origin inp, se_hits = hits,
                          se_notes = [''facts only. not a patch. not validated.'', ''question omitted: citing the local worktree''] @
                            (if hits = [] then [''no local-edit facts''] else [])\<rparr>))
         else if length q > maxQuestion then Inl (Errorf ''investigate: question too large'')
         else (let toks = tokens V q; hits = joinFacts V inp toks; facts = ''facts only. not a patch. not validated.''
               in if toks = []
                  then Inr \<lparr>se_question = q, se_origin = si_origin inp, se_hits = [], se_notes = [facts, ''no searchable token'']\<rparr>
                  else Inr \<lparr>se_question = q, se_origin = si_origin inp, se_hits = hits,
                         se_notes = [facts] @ (if hits = [] then [''no token matched observed facts''] else [])\<rparr>))"

section \<open>What an answer cites\<close>

text \<open>The lines of the facts of a window, and the texts in which a token can be found.\<close>

definition fact_lines :: "search_input \<Rightarrow> string list" where
  "fact_lines inp =
     map (\<lambda>s. label ''service'' s []) (si_services inp) @ map formatHop (si_hops inp) @ map formatPath (si_paths inp) @ si_routes inp @
     map formatBind (si_binds inp) @ (case si_impact inp of None \<Rightarrow> [] | Some rep \<Rightarrow> impactFacts rep)"

definition finding_texts :: "finding \<Rightarrow> string list" where
  "finding_texts f = [fi_name f, fi_file f, fi_service f, fi_route f, fi_path f]"

definition fact_texts :: "search_input \<Rightarrow> string list" where
  "fact_texts inp =
     si_services inp @ concat (map (\<lambda>h. [hp_from h, hp_to h]) (si_hops inp)) @ concat (map pa_services (si_paths inp)) @ si_routes inp @
     concat (map (\<lambda>b. [bd_service b, bd_name b, bd_file b, bd_route b]) (si_binds inp)) @
     (case si_impact inp of
        None \<Rightarrow> []
      | Some rep \<Rightarrow> rp_files rep @ concat (map finding_texts (rp_direct rep @ rp_likely rep @ rp_runtime rep @ rp_unobserved rep)))"

lemma fold_addLine: "set (fold addLine xs ys) = (set xs - {[]}) \<union> set ys \<and> (distinct ys \<longrightarrow> distinct (fold addLine xs ys))"
  by (induction xs arbitrary: ys) (auto simp: addLine_def add_new_def)

lemma fold_seedHop_Nil: "fold seedHop hs [] = []"
  by (induction hs) (simp_all add: seedHop_def)

lemma list_ex_concat: "list_ex P (concat xss) = list_ex (list_ex P) xss"
  by (induction xss) simp_all

lemma list_ex_map: "list_ex P (map f xs) = list_ex (\<lambda>x. P (f x)) xs"
  by (induction xs) simp_all

text \<open>When no text of the window matches, no service is taken and no line is cited.\<close>

lemma silent_facts:
  assumes "\<not> list_ex M (fact_texts inp)"
  shows "s \<in> set (si_services inp) \<Longrightarrow> \<not> M s" and "h \<in> set (si_hops inp) \<Longrightarrow> \<not> M (hp_from h) \<and> \<not> M (hp_to h)"
    and "p \<in> set (si_paths inp) \<Longrightarrow> s \<in> set (pa_services p) \<Longrightarrow> \<not> M s" and "r \<in> set (si_routes inp) \<Longrightarrow> \<not> M r"
    and "b \<in> set (si_binds inp) \<Longrightarrow> \<not> M (bd_service b) \<and> \<not> M (bd_name b) \<and> \<not> M (bd_file b) \<and> \<not> M (bd_route b)"
    and "si_impact inp = Some rep \<Longrightarrow> f \<in> set (rp_files rep) \<Longrightarrow> \<not> M f"
    and "si_impact inp = Some rep \<Longrightarrow> g \<in> set (rp_direct rep @ rp_likely rep @ rp_runtime rep @ rp_unobserved rep) \<Longrightarrow>
      \<not> M (fi_name g) \<and> \<not> M (fi_file g) \<and> \<not> M (fi_service g) \<and> \<not> M (fi_route g) \<and> \<not> M (fi_path g)"
proof -
  have "\<not> list_ex M (si_services inp)" "\<not> list_ex (\<lambda>h. M (hp_from h) \<or> M (hp_to h)) (si_hops inp)"
    "\<not> list_ex (\<lambda>p. list_ex M (pa_services p)) (si_paths inp)" "\<not> list_ex M (si_routes inp)"
    "\<not> list_ex (\<lambda>b. M (bd_service b) \<or> M (bd_name b) \<or> M (bd_file b) \<or> M (bd_route b)) (si_binds inp)"
    using assms by (simp_all add: fact_texts_def list_ex_concat list_ex_map)
  then show "s \<in> set (si_services inp) \<Longrightarrow> \<not> M s" "h \<in> set (si_hops inp) \<Longrightarrow> \<not> M (hp_from h) \<and> \<not> M (hp_to h)"
    "p \<in> set (si_paths inp) \<Longrightarrow> s \<in> set (pa_services p) \<Longrightarrow> \<not> M s" "r \<in> set (si_routes inp) \<Longrightarrow> \<not> M r"
    "b \<in> set (si_binds inp) \<Longrightarrow> \<not> M (bd_service b) \<and> \<not> M (bd_name b) \<and> \<not> M (bd_file b) \<and> \<not> M (bd_route b)"
    unfolding list_ex_iff by blast+
  assume rep: "si_impact inp = Some rep"
  have "\<not> list_ex M (rp_files rep)"
    "\<not> list_ex (\<lambda>g. M (fi_name g) \<or> M (fi_file g) \<or> M (fi_service g) \<or> M (fi_route g) \<or> M (fi_path g))
      (rp_direct rep @ rp_likely rep @ rp_runtime rep @ rp_unobserved rep)"
    using assms rep by (simp_all add: fact_texts_def finding_texts_def list_ex_concat list_ex_map)
  then show "f \<in> set (rp_files rep) \<Longrightarrow> \<not> M f"
    "g \<in> set (rp_direct rep @ rp_likely rep @ rp_runtime rep @ rp_unobserved rep) \<Longrightarrow>
      \<not> M (fi_name g) \<and> \<not> M (fi_file g) \<and> \<not> M (fi_service g) \<and> \<not> M (fi_route g) \<and> \<not> M (fi_path g)"
    unfolding list_ex_iff by blast+
qed

lemma seeds_Nil:
  assumes "\<not> list_ex (matches V toks) (fact_texts inp)"
  shows "seeds V toks inp = []"
proof -
  note no = silent_facts [OF assms]
  have "filter (matches V toks) (si_services inp) = []" "concat (map (\<lambda>h. filter (matches V toks) [hp_from h, hp_to h]) (si_hops inp)) = []"
    "concat (map (\<lambda>p. filter (matches V toks) (pa_services p)) (si_paths inp)) = []"
    "filter (\<lambda>b. matches V toks (bd_service b) \<or> bindMatches V toks b) (si_binds inp) = []"
    using no(1-5) by (auto simp: filter_empty_conv bindMatches_def)
  moreover have "filter (\<lambda>f. list_ex (matches V toks) [fi_name f, fi_file f, fi_service f, fi_route f]) (rp_direct rep) = []"
    "filter (\<lambda>f. list_ex (matches V toks) [fi_name f, fi_path f, fi_service f, fi_route f]) (rp_runtime rep) = []"
    if "si_impact inp = Some rep" for rep using no(7) [OF that] by (auto simp: filter_empty_conv)
  ultimately have "matchedServices V toks inp = []" by (auto simp: matchedServices_def split: option.splits)
  then show ?thesis by (simp add: seeds_def fold_seedHop_Nil)
qed

lemma joinFacts_Nil:
  assumes "\<not> list_ex (matches V toks) (fact_texts inp)"
  shows "joinFacts V inp toks = []"
proof -
  note no = silent_facts [OF assms]
  have "filter (matches V toks) (si_routes inp) = []" "filter (bindMatches V toks) (si_binds inp) = []"
    using no(4,5) by (auto simp: filter_empty_conv bindMatches_def)
  moreover have "\<not> impactTouches V toks [] rep" if "si_impact inp = Some rep" for rep
    using no(6,7) [OF that] by (auto simp: impactTouches_def list_ex_iff)
  ultimately show ?thesis by (simp add: joinFacts_def seeds_Nil [OF assms] searchPathTouches_def list_ex_iff split: option.splits)
qed

lemma joinFacts_cites: "set (joinFacts V inp toks) \<subseteq> set (fact_lines inp) - {[]}" "distinct (joinFacts V inp toks)"
  by (auto simp: joinFacts_def Let_def fold_addLine fact_lines_def split: option.splits if_splits)

text \<open>
  C39: An answer to a question cites observed facts only: every line of it is the line of a fact of the window, no line is
  empty or cited twice, and when no text of the window has a token of the question nothing is cited. An answer without
  lines says so.
\<close>

theorem search_cites_facts:
  assumes "Search V inp = Inr r" and "trim_space (si_question inp) \<noteq> []"
  shows "set (se_hits r) \<subseteq> set (fact_lines inp) - {[]} \<and> distinct (se_hits r) \<and>
    (\<not> list_ex (matches V (tokens V (trim_space (si_question inp)))) (fact_texts inp) \<longrightarrow> se_hits r = []) \<and>
    (se_hits r = [] \<longleftrightarrow> last (se_notes r) \<in> {''no searchable token'', ''no token matched observed facts''})"
proof -
  let ?toks = "tokens V (trim_space (si_question inp))"
  have "se_hits r = [] \<and> last (se_notes r) = ''no searchable token'' \<or>
      se_hits r = joinFacts V inp ?toks \<and>
      last (se_notes r) = (if se_hits r = [] then ''no token matched observed facts'' else ''facts only. not a patch. not validated.'')"
    using assms by (auto simp: Search_def Let_def split: if_splits)
  then show ?thesis
  proof (elim disjE conjE)
    assume "se_hits r = joinFacts V inp ?toks"
      and "last (se_notes r) = (if se_hits r = [] then ''no token matched observed facts'' else ''facts only. not a patch. not validated.'')"
    then show ?thesis using joinFacts_cites [of V inp ?toks] joinFacts_Nil [of V ?toks inp] by auto
  qed simp
qed

definition ascii_text :: text_env where
  "ascii_text = \<lparr>tx_lower = to_lower, tx_word = (\<lambda>r. case r of [c] \<Rightarrow> is_lower c \<or> is_upper c \<or> is_digit c | _ \<Rightarrow> False)\<rparr>"

definition demo_search :: search_input where
  "demo_search = \<lparr>si_question = ''Why is Payment slow?'', si_origin = [], si_services = [''cart'', ''users''],
     si_hops = [\<lparr>hp_from = ''cart'', hp_to = ''payment'', hp_provenance = []\<rparr>], si_paths = [], si_routes = [''/users''], si_binds = [], si_impact = None\<rparr>"

theorem search_cites_facts_witness:
  "\<exists>r. Search ascii_text demo_search = Inr r \<and> se_hits r = [''service  cart'', ''hop  cart -> payment  observed_parent''] \<and>
     set (se_hits r) \<subseteq> set (fact_lines demo_search) - {[]}"
proof -
  have q: "trim_space (si_question demo_search) \<noteq> []" by code_simp
  have "(case Search ascii_text demo_search of Inl _ \<Rightarrow> None | Inr r \<Rightarrow> Some (se_hits r)) =
      Some [''service  cart'', ''hop  cart -> payment  observed_parent'']" by code_simp
  then obtain r where r: "Search ascii_text demo_search = Inr r" "se_hits r = [''service  cart'', ''hop  cart -> payment  observed_parent'']"
    by (auto split: sum.splits)
  show ?thesis using search_cites_facts [OF r(1) q] r by blast
qed

end
