(* ===== verification/Spec2Isabelle.thy ===== *)
theory Spec2Isabelle
  imports Api_Laws Validated_Runs Git_Laws Workload_File Investigate
begin

text \<open>
  Aquila observes a Go service, works out what a change of its source can affect, replays the affected requests against
  a baseline and a patched gateway, and decides whether the change may be called validated. This library models its
  control plane, its analysis, its experiment engine, its job fabric and its workers, and proves what a verdict means
  and what the stores keep.

  \<^bold>\<open>Parts and theories.\<close> A theory models one part; names follow the Go source, and each definition is one Go
  function, SQL text, struct, or loop body.

  \<^item> \<open>Go_Prelude\<close>, \<open>Go_Text\<close>, \<open>Paths\<close>: strings, trimming, splitting, UTF-8, \<open>path.Clean\<close> and their lemmas.
  \<^item> \<open>Otlp\<close>, \<open>Otlp_Laws\<close>: decoding limits, normalizing and sanitizing spans (\<open>ingest/otlp.go\<close>, \<open>sanitize.go\<close>).
    \<open>Ingest\<close> and \<open>Span_Postgres\<close>: the in-process and the Postgres span store, the trace window, attaches
    (\<open>ingest/span.go\<close>, \<open>window.go\<close>, \<open>memory.go\<close>, \<open>attach.go\<close>, \<open>postgres.go\<close>).
  \<^item> \<open>Trace_Graph\<close> (\<open>graph/graph.go\<close>), \<open>Source_Graph\<close> (\<open>source/\<close>), \<open>Locate\<close> (\<open>locate/bind.go\<close>): the runtime graph, the
    typed call graph, and the binding of spans to functions.
  \<^item> \<open>Unified_Diff\<close>, \<open>Diff_Apply\<close> (\<open>diff/\<close>): reading a patch and applying it to a directory. \<open>Routes\<close>, \<open>Impact\<close>,
    \<open>Impact_Laws\<close> (\<open>impact/\<close>): what a patch affects. \<open>Investigate\<close> (\<open>investigate/search.go\<close>): answers from observed facts.
  \<^item> \<open>Git_Rev\<close>, \<open>Git_Laws\<close> (\<open>gitrev/\<close>): snapshots with a private index, materialized trees, the state of a work tree.
  \<^item> \<open>Netguard\<close> (\<open>netguard/\<close>), \<open>Replay\<close>, \<open>Workload_File\<close> (\<open>replay/\<close>), \<open>Plan\<close> (\<open>plan/\<close> and the checks of \<open>fault/proxy.go\<close>):
    target checks, workloads, replay, comparison, latency, and the execution of a plan.
  \<^item> \<open>Validate\<close>, \<open>Validated_Runs\<close> (\<open>validate/decide.go\<close>): the policy. \<open>Evidence\<close> (\<open>evidence/\<close>): artifacts, digests, coverage,
    Markdown. \<open>Run_Store\<close> (\<open>runs/\<close>): the stores of executed experiments.
  \<^item> \<open>Job_Core\<close>, \<open>Job_Invariants\<close>, \<open>Job_Lifecycle\<close> (\<open>jobs/store.go\<close>, \<open>enqueue.go\<close>, \<open>earned.go\<close>, \<open>quota.go\<close>, \<open>occupancy.go\<close>):
    tasks and jobs. \<open>Job_Stores\<close>, \<open>Job_Store_Laws\<close>, \<open>Postgres_Laws\<close>, \<open>Job_Fabric\<close> (\<open>jobs/memory.go\<close>, \<open>postgres.go\<close>): both stores.
  \<^item> \<open>Action_Cache\<close>, \<open>Cache_Laws\<close> (\<open>cas/cas.go\<close>, \<open>action/cache.go\<close>, \<open>worker/execute.go\<close>): the content store and the cache of
    results. \<open>Worker\<close> (\<open>worker/\<close>): rounds of a worker, the gRPC handlers and their token.
  \<^item> \<open>Config\<close> (\<open>config/config.go\<close>), \<open>Api\<close>, \<open>Api_Laws\<close> (\<open>api/\<close>, \<open>observability/metrics.go\<close>, \<open>cmd/server/main.go\<close>): the
    configuration, every route and handler, and the state of the server process.

  \<^bold>\<open>State and interaction.\<close> The state of the server is the record \<open>api_state\<close>: the span rows, the run rows, the job store
  and the counters. A request is a function from state to response and state (\<open>serveHTTP\<close>); calls of workers (\<open>serve\<close>) and
  the expiry of leases act on the same job store, and \<open>server_step\<close> interleaves the three. A job changes by the rules of
  \<open>job_step\<close>; an operation of a store is a value of \<open>store_op\<close>, so a history is a list of operations. Transactions and
  critical sections are atomic steps. Fallible Go functions return \<open>error + 'a\<close> or an option of an error.

  \<^bold>\<open>What is shown.\<close>

  \<^item> In this theory: what a validated execution and a validated artifact say of the two gateways and of the change.
  \<^item> \<open>Validate\<close>, \<open>Evidence\<close>, \<open>Run_Store\<close>: the policy exactly; artifacts round-trip and cannot claim an unearned verdict; stored
    runs are durable. The locale \<open>run_store\<close> is the contract of a store of runs, interpreted on both stores.
  \<^item> Jobs: an invariant along every run, dependencies, frozen results, deadlines, progress. The locale \<open>job_store\<close> is the
    contract of a job store (exclusive gateways, quotas, invariants), interpreted on the in-memory and the Postgres store.
  \<^item> \<open>Api_Laws\<close>: the invariant of the whole server over \<open>server_step\<close>, and that requests without a token have no effect.
    \<open>Worker\<close>: the same for worker calls, and that a remote round does what a local round does.
  \<^item> Analysis: parsing and applying diffs against edit scripts, entry routes against their specification, the reported
    routes, windows, graphs and snapshots.
  \<^item> \<open>Git_Laws\<close>, \<open>Cache_Laws\<close>, \<open>Workload_File\<close>, \<open>Netguard\<close>, \<open>Otlp_Laws\<close>, \<open>Investigate\<close>: confinement, earned cache hits, safe
    requests, well-formed spans, answers that cite facts only.

  Some lemmas show a run in which the code does not do what it says, for example \<open>pg_overbooks_worker\<close>,
  \<open>pg_window_starved\<close>, \<open>route_keeps_query\<close>, \<open>cap_hides_change\<close>, \<open>inserted_line_as_header\<close> and \<open>leased_tests_incomplete\<close>.

  \<^bold>\<open>Numbers, bounds and fuel.\<close> A Go \<open>int64\<close> whose wrap-around matters is a \<open>64 word\<close>; other integers are \<open>int\<close> or \<open>nat\<close>. Times are
  nanoseconds, 0 is the zero time; the databases keep microseconds. Every function is total. The only loop with an
  explicit bound is \<open>settleLoop\<close>, whose bound is that of the source; \<open>settle_terminates\<close> shows that it reaches a fixpoint.

  \<^bold>\<open>Parameters.\<close> Code outside the repository is an argument: URL and address parsing (\<open>net_env\<close>), HTTP exchanges, \<open>go test\<close>
  and formatting (\<open>exec_env\<close>), JSON, SHA-256 and the clock (\<open>evidence_env\<close>, \<open>cache_env\<close>, \<open>api_env\<close>), files and git (\<open>file_os\<close>,
  \<open>git_env\<close>), the type checker, Unicode tables (\<open>text_env\<close>), YAML (\<open>config_env\<close>), random ids, and the order in which Go
  visits a map. Assumptions on them are named: \<open>fs_laws\<close> (a file holds what was last written or renamed to it),
  \<open>unique_hash\<close> (no collision with the hashed texts of the run), \<open>url_paths\<close> (an escaped path has no query and no
  control byte), \<open>git_log\<close> and its companions in \<open>Git_Laws\<close>; each has a witness with a concrete instance.

  \<^bold>\<open>Not modelled.\<close> Starting processes, containers and listeners (\<open>pair/\<close>, \<open>sandbox/\<close>, \<open>nexec/\<close>, \<open>storage/\<close>, the proxying of
  \<open>fault/\<close>), the command line (\<open>cli/\<close>, \<open>cmd/aquila\<close>), which parses flags and prints what the modelled parts return, the
  fixture rewriting of \<open>rewrite/\<close>, the example shop, logging, and reading and writing snapshot files of the source graph:
  these are input and output around the modelled functions. Cancelled contexts and failing database calls are not
  modelled; texts of wrapped errors are abbreviated; the floating-point averages of the impact evaluation are left out.
\<close>

section \<open>Properties that span components\<close>

text \<open>
  C1: What \<open>validated\<close> means end to end: if the evidence of an execution is decided validated, then both gateways
  answered the health probe, both replays ran, their first runs agree answer by answer, every request has at least
  twenty samples on either side with no latency shift, both bursts ran and saw equally many errors, and a required
  tests step of the plan ended in success.
\<close>

theorem validated_evidence:
  assumes "Execute X d base patch w = Inr (in_result i)" and "dn_validated (Decide E i)" and "in_plan i = d"
  shows "HealthzPath (xe_net X) (xe_get X) base patch (dg_health_path d) = None \<and>
    (\<exists>rb rp. Repeat (xe_net X) (xe_repeat X) base w (fst (replayRepeats d)) = Inr rb \<and>
       Repeat (xe_net X) (xe_repeat X) patch w (fst (replayRepeats d)) = Inr rp \<and>
       list_all2 (same_answer (xe_dec X)) (re_steps (hd rb)) (re_steps (hd rp)) \<and>
       Latency rb rp \<noteq> [] \<and>
       list_all (\<lambda>l. 20 \<le> su_n (sl_baseline l) \<and> 20 \<le> su_n (sl_patch l) \<and> \<not> Shifted l) (Latency rb rp)) \<and>
    (\<exists>bb bp. Burst (xe_net X) (xe_burst X) base w (fst (concurrencyN d)) = Inr bb \<and>
       Burst (xe_net X) (xe_burst X) patch w (fst (concurrencyN d)) = Inr bp \<and>
       fst (burstErrors bb) = fst (burstErrors bp)) \<and>
    (list_ex (\<lambda>s. ps_kind s = ''tests'' \<and> ps_required s \<and> \<not> ps_operator s) (dg_steps d) \<longrightarrow>
       fst (xe_go_test X (dg_module d) (dg_test_packages d)) = TestOK)"
proof -
  obtain data where g: "gathered X d base patch w data" and steps: "ev_steps (in_result i) = map (evalStep X data) (dg_steps d)"
    using Execute_Inr [OF assms(1)] by blast
  have ok: "\<exists>s. s \<in> set (dg_steps d) \<and> ps_kind s = k \<and> stepOK k (evalStep X data s)" if "k \<in> set coreKinds" for k
    using Decide_core [OF assms(2) that] g evalStep_answers [of data _ X]
    by (auto simp: steps answers_def gathered_def)
  obtain e where e: "e \<in> set (dg_steps d)" "ps_kind e = ''env''" "stepOK ''env'' (evalStep X data e)"
    using ok [of "''env''"] by (auto simp: coreKinds_def)
  have "\<not> ps_operator e \<and> probeEnv X d base patch = None"
    using evalStep_env_ok [OF e(3,2)] g by (simp add: gathered_def)
  then have "HealthzPath (xe_net X) (xe_get X) base patch (dg_health_path d) = None"
    using e by (auto simp: probeEnv_def list_ex_iff split: if_splits)
  moreover obtain b where b: "ps_kind b = ''behavior''" "stepOK ''behavior'' (evalStep X data b)"
    using ok [of "''behavior''"] by (auto simp: coreKinds_def)
  note beh = evalStep_behavior_ok [OF b(2,1)]
  obtain l where l: "ps_kind l = ''latency''" "stepOK ''latency'' (evalStep X data l)"
    using ok [of "''latency''"] by (auto simp: coreKinds_def)
  note lat = evalStep_latency_ok [OF l(2,1)]
  obtain c where c: "ps_kind c = ''concurrency''" "stepOK ''concurrency'' (evalStep X data c)"
    using ok [of "''concurrency''"] by (auto simp: coreKinds_def)
  note con = evalStep_concurrency_ok [OF c(2,1)]
  have "Repeat (xe_net X) (xe_repeat X) base w (fst (replayRepeats d)) = Inr (xd_base data) \<and>
      Repeat (xe_net X) (xe_repeat X) patch w (fst (replayRepeats d)) = Inr (xd_patch data)"
    using g beh by (intro both_Inr) (auto simp: gathered_def)
  moreover have "Burst (xe_net X) (xe_burst X) base w (fst (concurrencyN d)) = Inr (xd_base_burst data) \<and>
      Burst (xe_net X) (xe_burst X) patch w (fst (concurrencyN d)) = Inr (xd_patch_burst data)"
    using g con by (intro both_Inr) (auto simp: gathered_def)
  moreover have "fst (xe_go_test X (dg_module d) (dg_test_packages d)) = TestOK"
    if t: "t \<in> set (dg_steps d)" "ps_kind t = ''tests''" "ps_required t" "\<not> ps_operator t" for t
  proof -
    obtain r where "r \<in> set (dg_steps d)" "ps_kind r = ''tests''" "stepOK ''tests'' (evalStep X data r)"
      using Decide_required [OF assms(2), of t] t g evalStep_answers [of data _ X]
      by (auto simp: steps answers_def gathered_def assms(3))
    then show ?thesis using evalStep_tests_ok g by blast
  qed
  ultimately show ?thesis using beh lat con unfolding list_ex_iff by blast
qed

theorem validated_evidence_witness:
  "HealthzPath demo_net (xe_get demo_exec) ''http://a:1'' ''http://b:2'' (dg_health_path demo_plan) = None \<and>
   fst (xe_go_test demo_exec (dg_module demo_plan) (dg_test_packages demo_plan)) = TestOK"
proof -
  have "list_ex (\<lambda>s. ps_kind s = ''tests'' \<and> ps_required s \<and> \<not> ps_operator s) (dg_steps demo_plan)" by code_simp
  moreover have "xe_net demo_exec = demo_net" by (simp add: demo_exec_def)
  ultimately show ?thesis
    using validated_evidence [of demo_exec demo_plan "''http://a:1''" "''http://b:2''" "in_workload demo_input"
      "demo_input\<lparr>in_plan := demo_plan, in_result := demo_evidence\<rparr>" demo_net] demo_executed demo_validated by simp
qed

text \<open>
  C2: What a validated artifact says of the change: when the report was analyzed from a diff, the source graph and a span
  window and stays below the caps, every changed line of every file that is not inert lies in a function that the report
  names as changed; and for every bound span whose function is changed or calls a changed one, the entry route of its
  trace is matched by a request of the workload that both sides answered.
\<close>

theorem validated_change:
  assumes R: "ei_impact i = Analyze iter (Some (graph_of m ns es)) d (Bind (Some (graph_of m ns es)) spans) (Build spans)"
    and iter: "\<And>xs. set (iter xs) = set xs"
    and nul: "list_all (\<lambda>n. CHR 0x00 \<notin> set (nd_id n)) ns"
    and caps: "length (rp_direct (ei_impact i)) < 500" "length (rp_runtime (ei_impact i)) < 500"
    and v: "ar_validated (BuildEvidence E i)"
  shows "(\<forall>f \<in> set d. \<not> Inert (df_path f) \<longrightarrow> \<not> df_binary f \<and> df_lines f \<noteq> [] \<and>
      list_all (\<lambda>ln. \<exists>n. function_at (graph_of m ns es) (df_path f) ln n \<and> nd_id n \<in> changed_ids (ei_impact i)) (df_lines f)) \<and>
    (\<forall>b e r. b \<in> set (ls_bindings (Bind (Some (graph_of m ns es)) spans)) \<and>
       EntryForSpan (Build spans) (bi_trace_id b) (bi_span_id b) = Some e \<and>
       (bi_source_id b \<in> changed_ids (ei_impact i) \<or>
        (\<exists>c \<in> set es. ed_kind c = ''calls'' \<and> ed_from c = bi_source_id b \<and> ed_to c \<in> changed_ids (ei_impact i))) \<and>
       runtimeRoute (no_finding\<lparr>fi_route := routeLabel (er_method e) (er_route e)\<rparr>) = Some r \<longrightarrow>
       (\<exists>s \<in> set (ei_workload i). RouteMatches r (st_method s) (st_path s) \<and>
          st_method s @ '' '' @ st_path s \<in> set (answeredKeys (ei_result i))))"
proof (intro conjI ballI allI impI)
  let ?g = "graph_of m ns es" and ?R = "ei_impact i"
  fix f assume f: "f \<in> set d" "\<not> Inert (df_path f)"
  have "ch_unanalyzed (Classify ?R) = []" by (rule BuildEvidence_validated(1) [OF v])
  then have "df_path f \<notin> set (ch_unanalyzed (Classify ?R))" by simp
  note lines = changed_lines_bound [OF R caps(1) f this]
  have "set (ch_bound (Classify ?R)) \<subseteq> changed_ids ?R"
    unfolding conjunct2 [OF Classify_sets] changed_ids_def file_analyzed_def list_all_iff by blast
  then show "\<not> df_binary f" "df_lines f \<noteq> []"
    "list_all (\<lambda>ln. \<exists>n. function_at ?g (df_path f) ln n \<and> nd_id n \<in> changed_ids ?R) (df_lines f)"
    using lines unfolding list_all_iff by blast+
next
  let ?g = "graph_of m ns es" and ?R = "ei_impact i"
  fix b e r
  assume b: "b \<in> set (ls_bindings (Bind (Some ?g) spans)) \<and>
       EntryForSpan (Build spans) (bi_trace_id b) (bi_span_id b) = Some e \<and>
       (bi_source_id b \<in> changed_ids ?R \<or>
        (\<exists>c \<in> set es. ed_kind c = ''calls'' \<and> ed_from c = bi_source_id b \<and> ed_to c \<in> changed_ids ?R)) \<and>
       runtimeRoute (no_finding\<lparr>fi_route := routeLabel (er_method e) (er_route e)\<rparr>) = Some r"
  let ?l = "routeLabel (er_method e) (er_route e)"
  have l: "?l \<noteq> []" using runtimeRoute_label [of ?l r "no_finding\<lparr>fi_route := ?l\<rparr>"] b by simp
  have "?l \<in> {fi_route f |f. f \<in> set (rp_runtime ?R) \<and> fi_route f \<noteq> []}"
    unfolding routes_exact [OF R iter nul Bind_nodes [of ?g, unfolded nodes_graph_of] caps] using b l by blast
  then obtain f where f: "f \<in> set (rp_runtime ?R)" "fi_route f = ?l" by auto
  have "runtimeRoute f = Some r" using runtimeRoute_label [OF _ f(2)] b by blast
  then have "r \<in> set (RuntimeRoutes ?R)" using f(1) unfolding set_RuntimeRoutes by blast
  then show "\<exists>s \<in> set (ei_workload i). RouteMatches r (st_method s) (st_path s) \<and>
      st_method s @ '' '' @ st_path s \<in> set (answeredKeys (ei_result i))"
    by (rule BuildEvidence_validated(2) [OF v])
qed

text \<open>An experiment on the example change.\<close>

definition demo_experiment :: evidence_input where
  "demo_experiment =
     \<lparr>ei_baseline_rev = in_baseline_rev demo_input, ei_patch_rev = in_patch_rev demo_input, ei_now = 5,
      ei_baseline = ''http://a:1'', ei_patch = ''http://b:2'', ei_service = [], ei_workload = in_workload demo_input,
      ei_impact = demo_impact, ei_plan = demo_plan, ei_result = demo_evidence\<rparr>"

lemma demo_experiment_validated: "ar_validated (BuildEvidence (demo_env None) demo_experiment)"
  by code_simp

theorem validated_change_witness:
  "(\<exists>n. function_at (graph_of ''m'' demo_nodes demo_calls) ''cart.go'' 6 n \<and> nd_id n \<in> changed_ids demo_impact) \<and>
   (\<exists>s \<in> set (in_workload demo_input). RouteMatches ''GET /cart'' (st_method s) (st_path s))"
proof -
  let ?g = "graph_of ''m'' demo_nodes demo_calls"
  have nul: "list_all (\<lambda>n. CHR 0x00 \<notin> set (nd_id n)) demo_nodes" by code_simp
  have R: "ei_impact demo_experiment = Analyze rev (Some ?g) demo_change (Bind (Some ?g) demo_spans) (Build demo_spans)"
    by (simp add: demo_experiment_def demo_impact_def)
  have i: "ei_impact demo_experiment = demo_impact" "ei_workload demo_experiment = in_workload demo_input" by (simp_all add: demo_experiment_def)
  note all = validated_change [OF R set_rev nul demo_impact_caps(1,3) [folded i(1)] demo_experiment_validated, unfolded i]
  obtain b where b: "ls_bindings (Bind (Some ?g) demo_spans) = [b]" using demo_binding by (auto simp: map_eq_Cons_conv)
  have "map (\<lambda>b. (bi_source_id b, map_option (\<lambda>e. runtimeRoute (no_finding\<lparr>fi_route := routeLabel (er_method e) (er_route e)\<rparr>))
      (EntryForSpan (Build demo_spans) (bi_trace_id b) (bi_span_id b)))) (ls_bindings (Bind (Some ?g) demo_spans))
    = [(''fn:F'', Some (Some ''GET /cart''))]" by code_simp
  then obtain e where e: "bi_source_id b = ''fn:F''" "EntryForSpan (Build demo_spans) (bi_trace_id b) (bi_span_id b) = Some e"
    "runtimeRoute (no_finding\<lparr>fi_route := routeLabel (er_method e) (er_route e)\<rparr>) = Some ''GET /cart''" unfolding b by auto
  have call: "\<exists>c \<in> set demo_calls. ed_kind c = ''calls'' \<and> ed_from c = bi_source_id b \<and> ed_to c \<in> changed_ids demo_impact"
    by (simp add: demo_changed demo_calls_def e(1))
  have "\<not> Inert ''cart.go''" by code_simp
  then show ?thesis using all b e call by (auto simp: demo_change_def)
qed

end
